theory Spec2Isabelle
  imports Complex_Main
begin

section \<open>Errors and control flow\<close>

text \<open>
  The Python exceptions that the modelled code can raise.  A computation that may raise
  has type \<open>error + 'a\<close>, with \<open>Inl\<close> for the exception.  The solve loop also
  keeps the store of arrays at the moment of the exception, so sequencing is generic in
  the type of the left component.
\<close>

datatype error =
    ValueError
  | AttributeError
  | IndexError
  | TypeError
  | ZeroDivisionError
  | NotImplementedError
  | AssertionError

definition bind_err :: "'e + 'a \<Rightarrow> ('a \<Rightarrow> 'e + 'b) \<Rightarrow> 'e + 'b" where
  "bind_err m f = (case m of Inl e \<Rightarrow> Inl e | Inr x \<Rightarrow> f x)"

text \<open>A \<open>for x in xs: body\<close> loop over a state; the first exception leaves the loop.\<close>

fun for_each :: "'i list \<Rightarrow> ('i \<Rightarrow> 's \<Rightarrow> 'e + 's) \<Rightarrow> 's \<Rightarrow> 'e + 's" where
  "for_each [] body s = Inr s"
| "for_each (x # xs) body s = bind_err (body x s) (for_each xs body)"

text \<open>\<open>xs[i]\<close> for a non-negative index, and \<open>xs[i] = v\<close>.\<close>

definition get_item :: "'a list \<Rightarrow> nat \<Rightarrow> error + 'a" where
  "get_item xs i = (if i < length xs then Inr (xs ! i) else Inl IndexError)"

definition set_item :: "'a list \<Rightarrow> nat \<Rightarrow> 'a \<Rightarrow> error + 'a list" where
  "set_item xs i v = (if i < length xs then Inr (xs[i := v]) else Inl IndexError)"

text \<open>\<open>xs[-1]\<close>: the last element, IndexError on the empty list.\<close>

definition get_last :: "'a list \<Rightarrow> error + 'a" where
  "get_last xs = (if xs = [] then Inl IndexError else Inr (last xs))"

section \<open>Two-dimensional numpy arrays\<close>

text \<open>
  A two-dimensional \<open>numpy.ndarray\<close>: its shape and its elements in row-major order.
  The code base keeps state vectors as column arrays of shape \<open>(N, 1)\<close> and operators as
  arrays of shape \<open>(N, N)\<close>.  Elements are exact real or complex numbers: rounding of
  the 64-bit floats is outside this model.
\<close>

datatype 'a ndarray = NDArray (shape0: nat) (shape1: nat) (data: "'a list")

definition wf_array :: "'a ndarray \<Rightarrow> bool" where
  "wf_array A \<longleftrightarrow> length (data A) = shape0 A * shape1 A"

text \<open>\<open>A[i, j]\<close> for indices inside the shape.\<close>

definition entry :: "'a ndarray \<Rightarrow> nat \<Rightarrow> nat \<Rightarrow> 'a" where
  "entry A i j = data A ! (i * shape1 A + j)"

text \<open>The array of shape \<open>(r, c)\<close> whose element \<open>[i, j]\<close> is \<open>f i j\<close>.\<close>

definition tabulate :: "nat \<Rightarrow> nat \<Rightarrow> (nat \<Rightarrow> nat \<Rightarrow> 'a) \<Rightarrow> 'a ndarray" where
  "tabulate r c f = NDArray r c (map (\<lambda>p. f (p div c) (p mod c)) [0..<r * c])"

text \<open>Checked reads and writes \<open>A[i, j]\<close> and \<open>A[i, j] = v\<close> with non-negative indices.\<close>

definition get_entry :: "'a ndarray \<Rightarrow> nat \<Rightarrow> nat \<Rightarrow> error + 'a" where
  "get_entry A i j =
     (if i < shape0 A \<and> j < shape1 A then Inr (entry A i j) else Inl IndexError)"

definition set_entry :: "'a ndarray \<Rightarrow> nat \<Rightarrow> nat \<Rightarrow> 'a \<Rightarrow> error + 'a ndarray" where
  "set_entry A i j v =
     (if i < shape0 A \<and> j < shape1 A
      then Inr (NDArray (shape0 A) (shape1 A) ((data A)[i * shape1 A + j := v]))
      else Inl IndexError)"

definition np_zeros :: "nat \<Rightarrow> nat \<Rightarrow> 'a::zero ndarray" where
  "np_zeros r c = tabulate r c (\<lambda>i j. 0)"

text \<open>\<open>np.dot(A, B)\<close> and \<open>A.dot(B)\<close>: the matrix product, ValueError when the inner
  dimensions differ.\<close>

definition np_dot :: "complex ndarray \<Rightarrow> complex ndarray \<Rightarrow> error + complex ndarray" where
  "np_dot A B =
     (if shape1 A \<noteq> shape0 B then Inl ValueError
      else Inr (tabulate (shape0 A) (shape1 B)
                  (\<lambda>i j. sum_list (map (\<lambda>k. entry A i k * entry B k j) [0..<shape1 A]))))"

text \<open>Broadcasting of one dimension: equal extents, or one of them is 1.\<close>

definition bdim :: "nat \<Rightarrow> nat \<Rightarrow> nat option" where
  "bdim a b = (if a = b then Some a else if a = 1 then Some b
               else if b = 1 then Some a else None)"

definition bidx :: "nat \<Rightarrow> nat \<Rightarrow> nat" where
  "bidx n i = (if n = 1 then 0 else i)"

text \<open>An elementwise binary operator (\<open>A + B\<close>, \<open>A - B\<close>, \<open>A * B\<close>) with broadcasting.\<close>

definition elementwise ::
  "('a \<Rightarrow> 'b \<Rightarrow> 'c) \<Rightarrow> 'a ndarray \<Rightarrow> 'b ndarray \<Rightarrow> error + 'c ndarray" where
  "elementwise f A B =
     (case (bdim (shape0 A) (shape0 B), bdim (shape1 A) (shape1 B)) of
        (Some r, Some c) \<Rightarrow>
          Inr (tabulate r c (\<lambda>i j. f (entry A (bidx (shape0 A) i) (bidx (shape1 A) j))
                                     (entry B (bidx (shape0 B) i) (bidx (shape1 B) j))))
      | _ \<Rightarrow> Inl ValueError)"

text \<open>The in-place \<open>A += B\<close>: the broadcast result must have the shape of \<open>A\<close>.\<close>

definition iadd :: "complex ndarray \<Rightarrow> complex ndarray \<Rightarrow> error + complex ndarray" where
  "iadd A B =
     bind_err (elementwise (+) A B)
       (\<lambda>S. if shape0 S = shape0 A \<and> shape1 S = shape1 A then Inr S else Inl ValueError)"

text \<open>A unary elementwise function, and a scalar times an array.\<close>

definition map_array :: "('a \<Rightarrow> 'b) \<Rightarrow> 'a ndarray \<Rightarrow> 'b ndarray" where
  "map_array f A = NDArray (shape0 A) (shape1 A) (map f (data A))"

definition scale :: "complex \<Rightarrow> complex ndarray \<Rightarrow> complex ndarray" where
  "scale z A = map_array (\<lambda>x. z * x) A"

text \<open>\<open>np.diag(v)\<close> of a one-dimensional real array.\<close>

definition np_diag :: "real list \<Rightarrow> complex ndarray" where
  "np_diag v = tabulate (length v) (length v)
                 (\<lambda>i j. if i = j then complex_of_real (v ! i) else 0)"

subsection \<open>utils.py\<close>

definition dag :: "complex ndarray \<Rightarrow> complex ndarray" where
  "dag op = tabulate (shape1 op) (shape0 op) (\<lambda>i j. cnj (entry op j i))"

definition commutator :: "complex ndarray \<Rightarrow> complex ndarray \<Rightarrow> error + complex ndarray" where
  "commutator op1 op2 =
     bind_err (np_dot op1 op2) (\<lambda>P.
     bind_err (np_dot op2 op1) (\<lambda>Q.
       elementwise (-) P Q))"

definition is_vector :: "'a ndarray \<Rightarrow> bool" where
  "is_vector vec \<longleftrightarrow> shape0 vec \<noteq> shape1 vec"

definition is_matrix :: "'a ndarray \<Rightarrow> bool" where
  "is_matrix mat \<longleftrightarrow> shape0 mat = shape1 mat"

text \<open>
  \<open>is_hermitian\<close> with \<open>sparse_lib = False\<close>.  \<open>np.allclose\<close> compares floats within a
  tolerance and is a parameter.
\<close>

definition is_hermitian ::
  "(complex ndarray \<Rightarrow> complex ndarray \<Rightarrow> bool) \<Rightarrow> complex ndarray \<Rightarrow> error + bool" where
  "is_hermitian allclose op =
     (if is_matrix op
      then (if allclose (dag op) op then Inr True else Inl ValueError)
      else Inl ValueError)"

section \<open>hamiltonian.py\<close>

text \<open>
  Modelled from the spec: the Bath class is not part of the sources.  Its interface is
  the coupling operator \<open>c_op\<close>, the bath correlation function \<open>bath_corr_t\<close> and its
  one-sided Fourier-Laplace transform \<open>ft_bath_corr\<close>, both scalar valued.
\<close>

record bath =
  c_op :: "complex ndarray"
  bath_corr_t :: "real \<Rightarrow> complex"
  ft_bath_corr :: "real \<Rightarrow> complex"

text \<open>
  The attributes of a Hamiltonian object.  \<open>is_md\<close> tells the MDHamiltonian subclass
  (whose \<open>repr\<close> is "Multidimensional Hamiltonian class") from the base class.
\<close>

record hamiltonian =
  nstates :: nat
  ham :: "complex ndarray"
  ev :: "real list"
  ek :: "complex ndarray"
  omegas :: "real ndarray"
  baths :: "bath list option"
  nbaths :: "nat option"
  is_md :: bool

text \<open>
  \<open>compute_frequencies\<close>.  The argument \<open>hbar\<close> is the value of the module-level
  \<open>const.hbar\<close> at the time of the call.
\<close>

definition compute_frequencies :: "real \<Rightarrow> hamiltonian \<Rightarrow> error + hamiltonian" where
  "compute_frequencies hbar h =
     bind_err
       (for_each [0..<nstates h] (\<lambda>i.
          for_each [0..<nstates h] (\<lambda>j om.
            bind_err (get_item (ev h) i) (\<lambda>ei.
            bind_err (get_item (ev h) j) (\<lambda>ej.
              set_entry om i j ((ei - ej) / hbar)))))
          (np_zeros (nstates h) (nstates h)))
       (\<lambda>om. Inr (h\<lparr>omegas := om\<rparr>))"

text \<open>\<open>eigensystem\<close>; \<open>np.linalg.eigh\<close> is a parameter.\<close>

definition eigensystem ::
  "(complex ndarray \<Rightarrow> real list \<times> complex ndarray) \<Rightarrow> real \<Rightarrow> hamiltonian
     \<Rightarrow> error + hamiltonian" where
  "eigensystem eigh hbar h =
     (case eigh (ham h) of (w, v) \<Rightarrow> compute_frequencies hbar (h\<lparr>ev := w, ek := v\<rparr>))"

definition check_hermiticity ::
  "(complex ndarray \<Rightarrow> complex ndarray \<Rightarrow> bool) \<Rightarrow> complex ndarray \<Rightarrow> error + unit" where
  "check_hermiticity allclose H =
     bind_err (is_hermitian allclose H)
       (\<lambda>ok. if ok then Inr () else Inl ValueError)"

text \<open>
  \<open>Hamiltonian.__init__(H, baths, hbar)\<close>.  It first stores \<open>hbar\<close> in \<open>const.hbar\<close>,
  so the frequencies are computed with the \<open>hbar\<close> of the call.  \<open>nbaths\<close> is assigned
  only when \<open>baths\<close> is not None; \<open>None\<close> stands for the unassigned attribute.
\<close>

definition Hamiltonian_init ::
  "(complex ndarray \<Rightarrow> complex ndarray \<Rightarrow> bool)
     \<Rightarrow> (complex ndarray \<Rightarrow> real list \<times> complex ndarray)
     \<Rightarrow> complex ndarray \<Rightarrow> bath list option \<Rightarrow> real \<Rightarrow> error + hamiltonian" where
  "Hamiltonian_init allclose eigh H bs hbar =
     bind_err (check_hermiticity allclose H) (\<lambda>_.
     bind_err
       (eigensystem eigh hbar
          \<lparr>nstates = shape0 H, ham = H, ev = [], ek = NDArray 0 0 [],
           omegas = NDArray 0 0 [], baths = None, nbaths = None, is_md = False\<rparr>)
       (\<lambda>h. Inr (case bs of None \<Rightarrow> h\<lparr>baths := None\<rparr>
                  | Some l \<Rightarrow> h\<lparr>baths := Some l, nbaths := Some (length l)\<rparr>)))"

definition to_eigenbasis :: "hamiltonian \<Rightarrow> complex ndarray \<Rightarrow> error + complex ndarray" where
  "to_eigenbasis h op =
     (if is_vector op then np_dot (dag (ek h)) op
      else if is_matrix op then bind_err (np_dot op (ek h)) (np_dot (dag (ek h)))
      else Inl AttributeError)"

definition from_eigenbasis :: "hamiltonian \<Rightarrow> complex ndarray \<Rightarrow> error + complex ndarray" where
  "from_eigenbasis h op =
     (if is_vector op then np_dot (ek h) op
      else if is_matrix op then bind_err (np_dot op (dag (ek h))) (np_dot (ek h))
      else Inl AttributeError)"

text \<open>\<open>Hamiltonian.commutator(op, eig)\<close>.\<close>

definition ham_commutator ::
  "hamiltonian \<Rightarrow> complex ndarray \<Rightarrow> bool \<Rightarrow> error + complex ndarray" where
  "ham_commutator h op eig =
     (if eig
      then bind_err (np_dot (np_diag (ev h)) op) (\<lambda>P.
           bind_err (np_dot op (np_diag (ev h))) (\<lambda>Q.
             elementwise (-) P Q))
      else bind_err (np_dot (ham h) op) (\<lambda>P.
           bind_err (np_dot op (ham h)) (\<lambda>Q.
             elementwise (-) P Q)))"

section \<open>redfield.py\<close>

subsection \<open>Collaborators of the engine\<close>

text \<open>
  Modelled from the spec: the Options class is not part of the sources.  The engine
  reads its fields \<open>method\<close>, \<open>markov_time\<close> and \<open>progress\<close>.
\<close>

record options =
  opt_method :: string
  markov_time :: real
  progress :: bool

text \<open>
  Modelled from the spec: the Results class is not part of the sources.  The engine
  reads \<open>every\<close> (a Python integer) and \<open>map_ops\<close>, assigns \<open>map_function\<close>, and calls
  \<open>analyze_state(index, time, state)\<close>, which records the state it is given;
  \<open>samples\<close> is the sequence of recorded calls.
\<close>

record results =
  every :: int
  map_ops :: bool
  map_function_set :: bool
  samples :: "(nat \<times> real \<times> complex ndarray) list"

definition analyze_state :: "results \<Rightarrow> nat \<Rightarrow> real \<Rightarrow> complex ndarray \<Rightarrow> results" where
  "analyze_state r i time state = r\<lparr>samples := samples r @ [(i, time, state)]\<rparr>"

text \<open>
  Modelled from the spec: the Integrator class is not part of the sources.  It exposes
  the stage count \<open>order\<close>, the stage abscissae \<open>b\<close> and the current state \<open>y\<close>, and
  keeps the step size and the current time.  The state is an array in the store of
  arrays (see \<open>solve\<close>); \<open>ode_y\<close> is its reference.
\<close>

record integrator =
  ode_dt :: real
  ode_order :: nat
  ode_b :: "real list"
  ode_y :: nat
  ode_t :: real

definition set_y_value :: "integrator \<Rightarrow> nat \<Rightarrow> real \<Rightarrow> integrator" where
  "set_y_value ode r t0 = ode\<lparr>ode_y := r, ode_t := t0\<rparr>"

type_synonym rhs = "complex ndarray \<Rightarrow> nat \<Rightarrow> error + complex ndarray"

text \<open>
  What the engine is given from outside: the current value of the module-level constant
  \<open>const.hbar\<close>, the default constructors \<open>Options()\<close> and \<open>Results()\<close>, the constructor
  \<open>Integrator(dt, eom, options)\<close>, and \<open>Integrator.integrate()\<close>.  One call of
  \<open>integrate\<close> is given the right-hand side, the integrator and the contents of its state
  array, and returns the new time and the new contents of that array, which the
  integrator overwrites in place.
\<close>

record env =
  hbar_const :: real
  new_Options :: options
  new_Results :: results
  new_Integrator :: "real \<Rightarrow> options \<Rightarrow> error + integrator"
  integrate :: "rhs \<Rightarrow> integrator \<Rightarrow> complex ndarray \<Rightarrow> error + real \<times> complex ndarray"

subsection \<open>The Redfield class\<close>

datatype eom_kind = RF_EOM | TD_RF_EOM

text \<open>
  The attributes of a Redfield object: \<open>rf_ham\<close> is \<open>self.ham\<close>, \<open>rf_dt\<close> is \<open>self.dt\<close>,
  \<open>rf_options\<close>, \<open>rf_results\<close> and \<open>rf_ode\<close> are \<open>self.options\<close>, \<open>self.results\<close> and
  \<open>self.ode\<close>, \<open>rf_C\<close> is \<open>self.C\<close>.  The attribute \<open>self.E\<close> holds one array per bath in
  the time-independent mode (\<open>rf_E\<close>) and one list of arrays per bath, indexed by the
  integrator stage, in the time-dependent mode (\<open>rf_E_td\<close>).
\<close>

record redfield =
  rf_ham :: hamiltonian
  time_dep :: bool
  is_secular :: bool
  rf_dt :: real
  rf_options :: options
  rf_results :: results
  rf_ode :: integrator
  rf_C :: "complex ndarray list"
  rf_E :: "complex ndarray list"
  rf_E_td :: "complex ndarray list list"
  gamma_n :: "complex ndarray list list"
  gamma_n_1 :: "complex ndarray list list"
  equation_of_motion :: "eom_kind option"

text \<open>
  \<open>Redfield.__init__\<close> assigns \<open>ham\<close>, \<open>time_dep\<close> and \<open>is_secular\<close>.  The other
  attributes do not exist before \<open>solve\<close> and \<open>setup\<close> assign them; here they start
  with placeholders.
\<close>

definition Redfield_init :: "env \<Rightarrow> hamiltonian \<Rightarrow> bool \<Rightarrow> bool \<Rightarrow> redfield" where
  "Redfield_init env h time_dependent secular =
     \<lparr>rf_ham = h, time_dep = time_dependent, is_secular = secular, rf_dt = 0,
      rf_options = new_Options env, rf_results = new_Results env,
      rf_ode = \<lparr>ode_dt = 0, ode_order = 0, ode_b = [], ode_y = 0, ode_t = 0\<rparr>,
      rf_C = [], rf_E = [], rf_E_td = [], gamma_n = [], gamma_n_1 = [],
      equation_of_motion = None\<rparr>"

text \<open>\<open>xs[op].append(v)\<close> and \<open>xs[op][k] = v\<close> on a list of lists.\<close>

definition append_at :: "'a list list \<Rightarrow> nat \<Rightarrow> 'a \<Rightarrow> error + 'a list list" where
  "append_at xs op v = bind_err (get_item xs op) (\<lambda>l. set_item xs op (l @ [v]))"

definition set_at :: "'a list list \<Rightarrow> nat \<Rightarrow> nat \<Rightarrow> 'a \<Rightarrow> error + 'a list list" where
  "set_at xs op k v =
     bind_err (get_item xs op) (\<lambda>l. bind_err (set_item l k v) (\<lambda>l'. set_item xs op l'))"

subsection \<open>Time-independent setup\<close>

text \<open>The two nested loops that fill \<open>theta_plus\<close> in \<open>make_redfield_operators\<close>.\<close>

definition make_theta_plus :: "hamiltonian \<Rightarrow> bath \<Rightarrow> error + complex ndarray" where
  "make_theta_plus h bth =
     for_each [0..<nstates h] (\<lambda>i.
       for_each [0..<nstates h] (\<lambda>j th.
         bind_err (get_entry (omegas h) i j) (\<lambda>w.
           set_entry th i j (ft_bath_corr bth (- w)))))
       (np_zeros (nstates h) (nstates h))"

definition make_redfield_operators :: "redfield \<Rightarrow> error + redfield" where
  "make_redfield_operators eng =
     (case baths (rf_ham eng) of
        None \<Rightarrow> Inl TypeError
      | Some bs \<Rightarrow>
          for_each bs (\<lambda>bth s.
            bind_err (to_eigenbasis (rf_ham eng) (c_op bth)) (\<lambda>Ga.
            bind_err (make_theta_plus (rf_ham eng) bth) (\<lambda>theta_plus.
            bind_err (elementwise (*) Ga theta_plus) (\<lambda>Ga_plus.
              Inr (s\<lparr>rf_C := rf_C s @ [Ga], rf_E := rf_E s @ [Ga_plus]\<rparr>)))))
            (eng\<lparr>rf_C := [], rf_E := []\<rparr>))"

subsection \<open>Time-dependent setup and update\<close>

text \<open>\<open>np.exp(-1.j*self.ham.omegas*t)*bath.bath_corr_t(t)\<close>.\<close>

definition theta_plus_t :: "hamiltonian \<Rightarrow> bath \<Rightarrow> real \<Rightarrow> complex ndarray" where
  "theta_plus_t h bth t =
     map_array (\<lambda>w. exp (- \<i> * complex_of_real w * complex_of_real t) * bath_corr_t bth t)
       (omegas h)"

text \<open>
  The trapezoid update \<open>g + c*(theta_plus + g1)\<close>, where \<open>c\<close> is
  \<open>0.5*(b[k]-b[k-1])*self.dt\<close> in \<open>coupling_operators_setup\<close> and
  \<open>0.5*self.dt*(b[k]-b[k-1])\<close> in \<open>make_tcl2_operators\<close>.
\<close>

definition trapezoid ::
  "complex ndarray \<Rightarrow> real \<Rightarrow> complex ndarray \<Rightarrow> complex ndarray \<Rightarrow> error + complex ndarray" where
  "trapezoid g c theta_plus g1 =
     bind_err (elementwise (+) theta_plus g1) (\<lambda>s.
       elementwise (+) g (scale (complex_of_real c) s))"

text \<open>The body of the stage loop of \<open>coupling_operators_setup\<close>, for bath \<open>op\<close>, stage \<open>k\<close>.\<close>

definition setup_stage :: "bath \<Rightarrow> nat \<Rightarrow> nat \<Rightarrow> redfield \<Rightarrow> error + redfield" where
  "setup_stage bth op k s =
     bind_err (get_item (ode_b (rf_ode s)) k) (\<lambda>bk.
       if k = 0 then
         bind_err (append_at (gamma_n s) op
                     (np_zeros (nstates (rf_ham s)) (nstates (rf_ham s)))) (\<lambda>g.
         bind_err (append_at (gamma_n_1 s) op (theta_plus_t (rf_ham s) bth 0)) (\<lambda>g1.
           Inr (s\<lparr>gamma_n := g, gamma_n_1 := g1\<rparr>)))
       else
         bind_err (get_item (gamma_n s) op) (\<lambda>go.
         bind_err (get_item go (k - 1)) (\<lambda>gprev.
         bind_err (get_item (ode_b (rf_ode s)) (k - 1)) (\<lambda>bk1.
         bind_err (get_item (gamma_n_1 s) op) (\<lambda>g1o.
         bind_err (get_item g1o (k - 1)) (\<lambda>g1prev.
         bind_err (trapezoid gprev (0.5 * (bk - bk1) * rf_dt s)
                     (theta_plus_t (rf_ham s) bth (bk * rf_dt s)) g1prev) (\<lambda>gnew.
         bind_err (append_at (gamma_n s) op gnew) (\<lambda>g.
         bind_err (append_at (gamma_n_1 s) op
                     (theta_plus_t (rf_ham s) bth (bk * rf_dt s))) (\<lambda>g1.
           Inr (s\<lparr>gamma_n := g, gamma_n_1 := g1\<rparr>))))))))))"

definition coupling_operators_setup :: "redfield \<Rightarrow> error + redfield" where
  "coupling_operators_setup eng =
     (case nbaths (rf_ham eng) of
        None \<Rightarrow> Inl AttributeError
      | Some nb \<Rightarrow>
         (case baths (rf_ham eng) of
            None \<Rightarrow> Inl TypeError
          | Some bs \<Rightarrow>
              bind_err
                (for_each (enumerate 0 bs) (\<lambda>(op, bth) s.
                   bind_err (to_eigenbasis (rf_ham eng) (c_op bth)) (\<lambda>Ga.
                   bind_err (set_item (gamma_n s) op []) (\<lambda>g.
                   bind_err (set_item (gamma_n_1 s) op []) (\<lambda>g1.
                     Inr (s\<lparr>rf_C := rf_C s @ [Ga], gamma_n := g, gamma_n_1 := g1\<rparr>)))))
                   (eng\<lparr>rf_C := [], gamma_n := replicate nb [],
                        gamma_n_1 := replicate nb []\<rparr>))
                (for_each (enumerate 0 bs) (\<lambda>(op, bth).
                   for_each [0..<ode_order (rf_ode eng)] (setup_stage bth op)))))"

text \<open>The body of the stage loop of \<open>make_tcl2_operators\<close>.\<close>

definition tcl2_stage :: "real \<Rightarrow> bath \<Rightarrow> nat \<Rightarrow> nat \<Rightarrow> redfield \<Rightarrow> error + redfield" where
  "tcl2_stage time bth op k s =
     bind_err (get_item (ode_b (rf_ode s)) k) (\<lambda>bk.
       if k = 0 then
         bind_err (get_item (gamma_n s) op) (\<lambda>go.
         bind_err (get_last go) (\<lambda>glast.
         bind_err (set_at (gamma_n s) op k glast) (\<lambda>g.
         bind_err (set_at (gamma_n_1 s) op k
                     (theta_plus_t (rf_ham s) bth (time + bk * rf_dt s))) (\<lambda>g1.
           Inr (s\<lparr>gamma_n := g, gamma_n_1 := g1\<rparr>)))))
       else
         bind_err (get_item (gamma_n s) op) (\<lambda>go.
         bind_err (get_item go (k - 1)) (\<lambda>gprev.
         bind_err (get_item (ode_b (rf_ode s)) (k - 1)) (\<lambda>bk1.
         bind_err (get_item (gamma_n_1 s) op) (\<lambda>g1o.
         bind_err (get_item g1o (k - 1)) (\<lambda>g1prev.
         bind_err (trapezoid gprev (0.5 * rf_dt s * (bk - bk1))
                     (theta_plus_t (rf_ham s) bth (time + bk * rf_dt s)) g1prev) (\<lambda>gnew.
         bind_err (set_at (gamma_n s) op k gnew) (\<lambda>g.
         bind_err (set_at (gamma_n_1 s) op k
                     (theta_plus_t (rf_ham s) bth (time + bk * rf_dt s))) (\<lambda>g1.
           Inr (s\<lparr>gamma_n := g, gamma_n_1 := g1\<rparr>))))))))))"

definition make_tcl2_operators :: "redfield \<Rightarrow> real \<Rightarrow> error + redfield" where
  "make_tcl2_operators eng time =
     (case baths (rf_ham eng) of
        None \<Rightarrow> Inl TypeError
      | Some bs \<Rightarrow>
          for_each (enumerate 0 bs) (\<lambda>(op, bth).
            for_each [0..<ode_order (rf_ode eng)] (tcl2_stage time bth op)) eng)"

definition update_ops :: "redfield \<Rightarrow> real \<Rightarrow> error + redfield" where
  "update_ops eng time =
     (case nbaths (rf_ham eng) of
        None \<Rightarrow> Inl AttributeError
      | Some nb \<Rightarrow>
          bind_err
            (for_each [0..<length (rf_C eng)] (\<lambda>i s.
               bind_err (set_item (rf_E_td s) i []) (\<lambda>E0.
                 for_each [0..<ode_order (rf_ode eng)] (\<lambda>j s'.
                   bind_err (get_item (gamma_n s') i) (\<lambda>gi.
                   bind_err (get_item gi j) (\<lambda>gij.
                   bind_err (get_item (rf_C s') i) (\<lambda>Ci.
                   bind_err (elementwise (*) gij Ci) (\<lambda>v.
                   bind_err (append_at (rf_E_td s') i v) (\<lambda>E'.
                     Inr (s'\<lparr>rf_E_td := E'\<rparr>)))))))
                   (s\<lparr>rf_E_td := E0\<rparr>)))
               (eng\<lparr>rf_E_td := replicate nb []\<rparr>))
            (\<lambda>s. if time < markov_time (rf_options s)
                 then make_tcl2_operators s time else Inr s))"

subsection \<open>Equations of motion\<close>

text \<open>
  The summand of bath \<open>j\<close>:
  \<open>(commutator(np.dot(E, state), C) + commutator(C, np.dot(state, dag(E))))/const.hbar**2.\<close>
\<close>

definition rf_term ::
  "real \<Rightarrow> complex ndarray \<Rightarrow> complex ndarray \<Rightarrow> complex ndarray \<Rightarrow> error + complex ndarray" where
  "rf_term hbar Ej Cj state =
     bind_err (np_dot Ej state) (\<lambda>a.
     bind_err (commutator a Cj) (\<lambda>t1.
     bind_err (np_dot state (dag Ej)) (\<lambda>b.
     bind_err (commutator Cj b) (\<lambda>t2.
     bind_err (elementwise (+) t1 t2) (\<lambda>s.
       Inr (map_array (\<lambda>x. x / complex_of_real (hbar ^ 2)) s))))))"

text \<open>
  \<open>rf_eom\<close>.  The factor \<open>-1.j/const.hbar\<close> is a division of Python numbers and raises
  ZeroDivisionError for \<open>hbar = 0\<close>.
\<close>

definition rf_eom :: "env \<Rightarrow> redfield \<Rightarrow> rhs" where
  "rf_eom env eng state stage =
     (if hbar_const env = 0 then Inl ZeroDivisionError
      else
        bind_err (ham_commutator (rf_ham eng) state True) (\<lambda>c.
          case baths (rf_ham eng) of
            None \<Rightarrow> Inl TypeError
          | Some bs \<Rightarrow>
              for_each [0..<length bs] (\<lambda>j dy.
                bind_err (get_item (rf_E eng) j) (\<lambda>Ej.
                bind_err (get_item (rf_C eng) j) (\<lambda>Cj.
                bind_err (rf_term (hbar_const env) Ej Cj state) (iadd dy))))
                (scale (- \<i> / complex_of_real (hbar_const env)) c)))"

definition td_rf_eom :: "env \<Rightarrow> redfield \<Rightarrow> rhs" where
  "td_rf_eom env eng state stage =
     (if hbar_const env = 0 then Inl ZeroDivisionError
      else
        bind_err (ham_commutator (rf_ham eng) state True) (\<lambda>c.
          case baths (rf_ham eng) of
            None \<Rightarrow> Inl TypeError
          | Some bs \<Rightarrow>
              for_each [0..<length bs] (\<lambda>j dy.
                bind_err (get_item (rf_E_td eng) j) (\<lambda>Es.
                bind_err (get_item Es stage) (\<lambda>Ej.
                bind_err (get_item (rf_C eng) j) (\<lambda>Cj.
                bind_err (rf_term (hbar_const env) Ej Cj state) (iadd dy)))))
                (scale (- \<i> / complex_of_real (hbar_const env)) c)))"

definition eom :: "env \<Rightarrow> redfield \<Rightarrow> rhs" where
  "eom env eng state stage =
     (case equation_of_motion eng of
        None \<Rightarrow> Inl AttributeError
      | Some RF_EOM \<Rightarrow> rf_eom env eng state stage
      | Some TD_RF_EOM \<Rightarrow> td_rf_eom env eng state stage)"

subsection \<open>setup and solve\<close>

text \<open>\<open>Redfield.setup\<close>.\<close>

definition Redfield_setup :: "env \<Rightarrow> redfield \<Rightarrow> options option \<Rightarrow> results option \<Rightarrow> error + redfield" where
  "Redfield_setup env eng opts res =
     bind_err
       (case opts of
          None \<Rightarrow> Inr (eng\<lparr>rf_options := new_Options env\<rparr>)
        | Some opt \<Rightarrow>
            if opt_method opt = ''exact'' then Inl NotImplementedError
            else Inr (eng\<lparr>rf_options := opt\<rparr>)) (\<lambda>e1.
     bind_err
       (case res of
          None \<Rightarrow> Inr (e1\<lparr>rf_results := new_Results env\<rparr>)
        | Some r \<Rightarrow>
            if map_ops r
            then (if is_md (rf_ham e1)
                  then Inr (e1\<lparr>rf_results := r\<lparr>map_function_set := True\<rparr>\<rparr>)
                  else Inl AssertionError)
            else Inr (e1\<lparr>rf_results := r\<rparr>)) (\<lambda>e2.
     bind_err (new_Integrator env (rf_dt e2) (rf_options e2)) (\<lambda>ode.
       if opt_method (rf_options e2) \<noteq> ''exact''
       then (if time_dep e2
             then bind_err (coupling_operators_setup (e2\<lparr>rf_ode := ode\<rparr>))
                    (\<lambda>e3. Inr (e3\<lparr>equation_of_motion := Some TD_RF_EOM\<rparr>))
             else bind_err (make_redfield_operators (e2\<lparr>rf_ode := ode\<rparr>))
                    (\<lambda>e3. Inr (e3\<lparr>equation_of_motion := Some RF_EOM\<rparr>)))
       else Inr (e2\<lparr>rf_ode := ode\<rparr>))))"

text \<open>
  The store of arrays: an array object is a cell of the store, a reference is its
  position, and a new array is allocated at the end.  \<open>solve\<close> receives the reference
  \<open>rho0\<close> of the caller's array and the time points \<open>tms\<close> (the argument \<open>times\<close>).
  An exception leaves the store as it is at that moment.
\<close>

type_synonym heap = "complex ndarray list"

definition raise_in :: "heap \<Rightarrow> error + 'a \<Rightarrow> (error \<times> heap) + 'a" where
  "raise_in hp m = (case m of Inl e \<Rightarrow> Inl (e, hp) | Inr x \<Rightarrow> Inr x)"

text \<open>
  One iteration of the time loop of \<open>solve\<close>, for index \<open>i\<close> and time \<open>time\<close>.  The
  printing of the index under \<open>options.progress\<close> is not modelled.
\<close>

definition solve_step ::
  "env \<Rightarrow> nat \<times> real \<Rightarrow> redfield \<times> heap \<Rightarrow> (error \<times> heap) + redfield \<times> heap" where
  "solve_step env = (\<lambda>(i, time) (eng, hp).
     bind_err (raise_in hp (if time_dep eng then update_ops eng time else Inr eng)) (\<lambda>e1.
     bind_err (raise_in hp
        (if every (rf_results e1) = 0 then Inl ZeroDivisionError
         else if int i mod every (rf_results e1) = 0
         then bind_err (from_eigenbasis (rf_ham e1) (hp ! ode_y (rf_ode e1))) (\<lambda>st.
                Inr (e1\<lparr>rf_results := analyze_state (rf_results e1) i time st\<rparr>))
         else Inr e1)) (\<lambda>e2.
     bind_err (raise_in hp
        (integrate env (eom env e2) (rf_ode e2) (hp ! ode_y (rf_ode e2)))) (\<lambda>(t', y').
       Inr (e2\<lparr>rf_ode := (rf_ode e2)\<lparr>ode_t := t'\<rparr>\<rparr>, hp[ode_y (rf_ode e2) := y'])))))"

definition solve ::
  "env \<Rightarrow> redfield \<Rightarrow> heap \<Rightarrow> nat \<Rightarrow> real list \<Rightarrow> options option \<Rightarrow> results option
     \<Rightarrow> (error \<times> heap) + results \<times> redfield \<times> heap" where
  "solve env eng hp rho0 tms opts res =
     bind_err (raise_in hp
        (bind_err (get_item tms 1) (\<lambda>t1.
         bind_err (get_item tms 0) (\<lambda>t0. Inr (t1 - t0))))) (\<lambda>dt.
     bind_err (raise_in hp (Redfield_setup env (eng\<lparr>rf_dt := dt\<rparr>) opts res)) (\<lambda>e1.
     bind_err (raise_in (hp @ [hp ! rho0])
        (to_eigenbasis (rf_ham e1) ((hp @ [hp ! rho0]) ! length hp))) (\<lambda>rho.
       if opt_method (rf_options e1) = ''exact''
       then Inl (NotImplementedError, hp @ [hp ! rho0, rho])
       else
         bind_err (raise_in (hp @ [hp ! rho0, rho]) (get_item tms 0)) (\<lambda>t0.
         bind_err (for_each (enumerate 0 tms) (solve_step env)
                     (e1\<lparr>rf_ode := set_y_value (rf_ode e1) (Suc (length hp)) t0\<rparr>,
                      hp @ [hp ! rho0, rho])) (\<lambda>(e2, hp').
           Inr (rf_results e2, e2, hp'))))))"

section \<open>Auxiliary definitions for the proofs\<close>

text \<open>
  The invariant of two nested loops that fill an \<open>n \<times> n\<close> array row by row with the
  elements \<open>f i j\<close>, starting from zeros: the elements before position \<open>(i, k)\<close> in
  row-major order are set, the others are still zero.
\<close>

definition fill_inv :: "nat \<Rightarrow> (nat \<Rightarrow> nat \<Rightarrow> 'a::zero) \<Rightarrow> nat \<Rightarrow> nat \<Rightarrow> 'a ndarray \<Rightarrow> bool" where
  "fill_inv n f i k A \<longleftrightarrow>
     wf_array A \<and> shape0 A = n \<and> shape1 A = n \<and>
     (\<forall>i' j'. i' < n \<longrightarrow> j' < n \<longrightarrow>
        entry A i' j' = (if i' < i \<or> (i' = i \<and> j' < k) then f i' j' else 0))"

section \<open>Matrix algebra used in the statements\<close>

text \<open>
  The mathematical product of two arrays whose inner dimensions agree, the identity
  matrix, and the elementwise combination of two arrays of the same shape.
\<close>

definition mat_mul :: "complex ndarray \<Rightarrow> complex ndarray \<Rightarrow> complex ndarray" where
  "mat_mul A B = tabulate (shape0 A) (shape1 B)
                   (\<lambda>i j. \<Sum>k<shape1 A. entry A i k * entry B k j)"

definition np_eye :: "nat \<Rightarrow> complex ndarray" where
  "np_eye n = tabulate n n (\<lambda>i j. if i = j then 1 else 0)"

definition zip_array :: "('a \<Rightarrow> 'b \<Rightarrow> 'c) \<Rightarrow> 'a ndarray \<Rightarrow> 'b ndarray \<Rightarrow> 'c ndarray" where
  "zip_array f A B = tabulate (shape0 A) (shape1 A) (\<lambda>i j. f (entry A i j) (entry B i j))"

section \<open>Outcomes\<close>

text \<open>A computation that does not raise NotImplementedError.\<close>

definition no_nie :: "error + 'a \<Rightarrow> bool" where
  "no_nie m \<longleftrightarrow> m \<noteq> Inl NotImplementedError"

text \<open>An array of shape \<open>(n, n)\<close>.\<close>

definition square :: "nat \<Rightarrow> 'a ndarray \<Rightarrow> bool" where
  "square n A \<longleftrightarrow> shape0 A = n \<and> shape1 A = n"

section \<open>The Redfield equation as the specification writes it\<close>

text \<open>
  The commutator \<open>[A, B] = A B - B A\<close>, the commutator \<open>[H, \<rho>]\<close> with the diagonal matrix
  of the eigenvalues, the term \<open>[E \<rho>, C] + [C, \<rho> E\<^sup>\<dagger>]\<close> of one bath, and
  \<open>d\<rho>/dt = -(i/hbar) [H, \<rho>] + (\<Sum>k. [E\<^sub>k \<rho>, C\<^sub>k] + [C\<^sub>k, \<rho> E\<^sub>k\<^sup>\<dagger>]) / hbar\<^sup>2\<close>, element by element.
\<close>

definition comm :: "complex ndarray \<Rightarrow> complex ndarray \<Rightarrow> complex ndarray" where
  "comm A B = zip_array (-) (mat_mul A B) (mat_mul B A)"

definition eig_comm :: "real list \<Rightarrow> complex ndarray \<Rightarrow> complex ndarray" where
  "eig_comm evs rho = comm (np_diag evs) rho"

definition bath_term :: "complex ndarray \<Rightarrow> complex ndarray \<Rightarrow> complex ndarray \<Rightarrow> complex ndarray" where
  "bath_term Ek Ck rho = zip_array (+) (comm (mat_mul Ek rho) Ck) (comm Ck (mat_mul rho (dag Ek)))"

definition redfield_rhs ::
  "real \<Rightarrow> real list \<Rightarrow> complex ndarray list \<Rightarrow> complex ndarray list \<Rightarrow> complex ndarray
     \<Rightarrow> complex ndarray" where
  "redfield_rhs hbar evs Cs Es rho =
     tabulate (length evs) (length evs) (\<lambda>a b.
       - (\<i> / complex_of_real hbar) * entry (eig_comm evs rho) a b
       + (\<Sum>k<length Cs. entry (bath_term (Es ! k) (Cs ! k) rho) a b)
           / (complex_of_real hbar)\<^sup>2)"

section \<open>The operators of the time-independent setup\<close>

text \<open>
  The coupling operator of a bath in the eigenbasis, \<open>ek\<^sup>\<dagger> c_op ek\<close>, and the array
  \<open>theta_plus[i,j] = ft_bath_corr(-omegas[i,j])\<close>.
\<close>

definition coupling_eig :: "hamiltonian \<Rightarrow> bath \<Rightarrow> complex ndarray" where
  "coupling_eig h bth = mat_mul (dag (ek h)) (mat_mul (c_op bth) (ek h))"

definition theta_plus_ft :: "hamiltonian \<Rightarrow> bath \<Rightarrow> complex ndarray" where
  "theta_plus_ft h bth =
     tabulate (nstates h) (nstates h) (\<lambda>i j. ft_bath_corr bth (- entry (omegas h) i j))"

section \<open>The trapezoid recurrence of the dressing\<close>

text \<open>
  The accumulated values of the recurrence: the value \<open>g0\<close> at stage 0, and at stage
  \<open>k > 0\<close> the value of stage \<open>k - 1\<close> plus \<open>c k * (th k + th (k - 1))\<close>, where \<open>th k\<close> is the
  instantaneous sample of stage \<open>k\<close> (the entry \<open>gamma_n_1[k]\<close>) and \<open>c k\<close> the weight
  \<open>0.5 * (b[k] - b[k-1]) * dt\<close>.
\<close>

primrec trap_gamma ::
  "complex ndarray \<Rightarrow> (nat \<Rightarrow> complex ndarray) \<Rightarrow> (nat \<Rightarrow> real) \<Rightarrow> nat \<Rightarrow> complex ndarray" where
  "trap_gamma g0 th c 0 = g0"
| "trap_gamma g0 th c (Suc k) =
     zip_array (+) (trap_gamma g0 th c k)
       (scale (complex_of_real (c (Suc k))) (zip_array (+) (th (Suc k)) (th k)))"

definition trap_weight :: "real list \<Rightarrow> real \<Rightarrow> nat \<Rightarrow> real" where
  "trap_weight b dt k = 0.5 * (b ! k - b ! (k - 1)) * dt"

text \<open>
  The seed of \<open>coupling_operators_setup\<close>: the sample of stage 0 is taken at time 0, the
  sample of stage \<open>k > 0\<close> at \<open>t = b[k] * dt\<close>, and the accumulated value starts from zero.
\<close>

definition seed_theta :: "hamiltonian \<Rightarrow> bath \<Rightarrow> real list \<Rightarrow> real \<Rightarrow> nat \<Rightarrow> complex ndarray" where
  "seed_theta h bth b dt k =
     (if k = 0 then theta_plus_t h bth 0 else theta_plus_t h bth (b ! k * dt))"

definition seed_gamma :: "hamiltonian \<Rightarrow> bath \<Rightarrow> real list \<Rightarrow> real \<Rightarrow> nat \<Rightarrow> complex ndarray" where
  "seed_gamma h bth b dt =
     trap_gamma (np_zeros (nstates h) (nstates h)) (seed_theta h bth b dt) (trap_weight b dt)"

text \<open>
  The lists of a per-bath, per-stage attribute while the two loops over baths and stages
  run: complete for the baths before \<open>op\<close>, the first \<open>k\<close> stages for bath \<open>op\<close>, and
  empty for the later baths.
\<close>

definition partial_stages :: "('b \<Rightarrow> nat \<Rightarrow> 'a) \<Rightarrow> 'b list \<Rightarrow> nat \<Rightarrow> nat \<Rightarrow> nat \<Rightarrow> 'a list list" where
  "partial_stages G bs m op k =
     map (\<lambda>i. map (G (bs ! i)) [0..<(if i < op then m else if i = op then k else 0)])
       [0..<length bs]"

section \<open>The state of the time-dependent engine\<close>

text \<open>
  What \<open>coupling_operators_setup\<close> establishes and \<open>update_ops\<close> keeps: one coupling
  operator and one list of \<open>m\<close> accumulated values and \<open>m\<close> samples per bath, all of shape
  \<open>(n, n)\<close>, with \<open>m\<close> the number of stages of the integrator.
\<close>

definition td_ready :: "nat \<Rightarrow> bath list \<Rightarrow> nat \<Rightarrow> redfield \<Rightarrow> bool" where
  "td_ready n bs m eng \<longleftrightarrow>
     baths (rf_ham eng) = Some bs \<and> nbaths (rf_ham eng) = Some (length bs) \<and>
     square n (omegas (rf_ham eng)) \<and>
     ode_order (rf_ode eng) = m \<and> m \<le> length (ode_b (rf_ode eng)) \<and>
     length (rf_C eng) = length bs \<and> length (gamma_n eng) = length bs \<and>
     length (gamma_n_1 eng) = length bs \<and>
     (\<forall>i<length bs. square n (rf_C eng ! i) \<and>
        length (gamma_n eng ! i) = m \<and> length (gamma_n_1 eng ! i) = m \<and>
        (\<forall>j<m. square n (gamma_n eng ! i ! j) \<and> square n (gamma_n_1 eng ! i ! j)))"

text \<open>The dressed operators \<open>E[i][j] = gamma_n[i][j] * C[i]\<close> (elementwise).\<close>

definition dressed_ops :: "redfield \<Rightarrow> complex ndarray list list" where
  "dressed_ops eng =
     map (\<lambda>i. map (\<lambda>j. zip_array (*) (gamma_n eng ! i ! j) (rf_C eng ! i))
                 [0..<ode_order (rf_ode eng)])
       [0..<length (rf_C eng)]"

text \<open>
  One pass of \<open>make_tcl2_operators\<close> at time \<open>time\<close>: the sample of stage \<open>k\<close> is taken at
  \<open>time + b[k] * dt\<close>, and the accumulated value starts from the last accumulated value
  \<open>glast\<close> of the previous pass.
\<close>

definition adv_theta :: "hamiltonian \<Rightarrow> bath \<Rightarrow> real list \<Rightarrow> real \<Rightarrow> real \<Rightarrow> nat \<Rightarrow> complex ndarray" where
  "adv_theta h bth b dt time k = theta_plus_t h bth (time + b ! k * dt)"

definition adv_gamma ::
  "hamiltonian \<Rightarrow> bath \<Rightarrow> real list \<Rightarrow> real \<Rightarrow> real \<Rightarrow> complex ndarray \<Rightarrow> nat \<Rightarrow> complex ndarray" where
  "adv_gamma h bth b dt time glast = trap_gamma glast (adv_theta h bth b dt time) (trap_weight b dt)"

definition advanced_gamma_n :: "redfield \<Rightarrow> bath list \<Rightarrow> real \<Rightarrow> complex ndarray list list" where
  "advanced_gamma_n eng bs time =
     map (\<lambda>i. map (adv_gamma (rf_ham eng) (bs ! i) (ode_b (rf_ode eng)) (rf_dt eng) time
                      (last (gamma_n eng ! i)))
                 [0..<ode_order (rf_ode eng)])
       [0..<length bs]"

definition advanced_gamma_n_1 :: "redfield \<Rightarrow> bath list \<Rightarrow> real \<Rightarrow> complex ndarray list list" where
  "advanced_gamma_n_1 eng bs time =
     map (\<lambda>i. map (adv_theta (rf_ham eng) (bs ! i) (ode_b (rf_ode eng)) (rf_dt eng) time)
                 [0..<ode_order (rf_ode eng)])
       [0..<length bs]"

text \<open>
  The lists of a per-bath, per-stage attribute while the loops of \<open>make_tcl2_operators\<close>
  overwrite them in place: new values for the baths before \<open>op\<close> and for the first \<open>k\<close>
  stages of bath \<open>op\<close>, old values elsewhere.
\<close>

definition mixed_stages ::
  "(nat \<Rightarrow> nat \<Rightarrow> 'a) \<Rightarrow> 'a list list \<Rightarrow> nat \<Rightarrow> nat \<Rightarrow> nat \<Rightarrow> 'a list list" where
  "mixed_stages New old m op k =
     map (\<lambda>i. map (\<lambda>j. if i < op \<or> (i = op \<and> j < k) then New i j else old ! i ! j) [0..<m])
       [0..<length old]"

text \<open>
  The part of the engine outside the operator tables \<open>C\<close>, \<open>E\<close>, \<open>gamma_n\<close> and \<open>gamma_n_1\<close>:
  the Hamiltonian, the flags, the step size, the options, the results, the integrator
  and the selected equation of motion.
\<close>

definition static_part :: "redfield \<Rightarrow> redfield" where
  "static_part eng = eng\<lparr>rf_C := [], rf_E := [], rf_E_td := [], gamma_n := [], gamma_n_1 := []\<rparr>"

text \<open>
  The state that a sample of index \<open>i\<close> has to record: the contents of the integrator's
  state after the iterations of the time loop for the indices below \<open>i\<close>, starting from
  the loop's initial state \<open>init\<close>, transformed back from the eigenbasis.
\<close>

definition state_before ::
  "env \<Rightarrow> real list \<Rightarrow> redfield \<times> heap \<Rightarrow> nat \<Rightarrow> (error \<times> heap) + complex ndarray" where
  "state_before env tms init i =
     bind_err (for_each (take i (enumerate 0 tms)) (solve_step env) init) (\<lambda>(e, hp).
       raise_in hp (from_eigenbasis (rf_ham e) (hp ! ode_y (rf_ode e))))"

text \<open>The indices at which a run over \<open>n\<close> time points with stride \<open>k\<close> has to sample.\<close>

definition sample_indices :: "int \<Rightarrow> nat \<Rightarrow> nat list" where
  "sample_indices k n = filter (\<lambda>i. int i mod k = 0) [0..<n]"

text \<open>The store of arrays at the end of a call of \<open>solve\<close>, returned or raised.\<close>

definition heap_after :: "(error \<times> heap) + results \<times> redfield \<times> heap \<Rightarrow> heap" where
  "heap_after out = (case out of Inl (e, hp) \<Rightarrow> hp | Inr (r, eng, hp) \<Rightarrow> hp)"

text \<open>The results object that \<open>setup\<close> installs: the caller's, or a new one.\<close>

definition results_arg :: "env \<Rightarrow> results option \<Rightarrow> results" where
  "results_arg env res = (case res of None \<Rightarrow> new_Results env | Some r \<Rightarrow> r)"

section \<open>Concrete inputs\<close>

text \<open>A two-level Hamiltonian with eigenvalues 1 and 3, already in its eigenbasis.\<close>

definition ex_ham0 :: hamiltonian where
  "ex_ham0 = \<lparr>nstates = 2, ham = NDArray 2 2 [1, 0, 0, 3], ev = [1, 3],
      ek = NDArray 2 2 [1, 0, 0, 1], omegas = NDArray 0 0 [], baths = None, nbaths = None, is_md = False\<rparr>"

text \<open>The Hamiltonian \<open>diag(3, 1)\<close>: its eigenvalues in ascending order are 1 and 3, with
  the eigenvectors \<open>(0, i)\<close> and \<open>(i, 0)\<close> as the columns of \<open>ek\<close>.\<close>

definition ex_ham1 :: hamiltonian where
  "ex_ham1 = \<lparr>nstates = 2, ham = NDArray 2 2 [3, 0, 0, 1], ev = [1, 3],
      ek = NDArray 2 2 [0, \<i>, \<i>, 0], omegas = NDArray 2 2 [0, -2, 2, 0],
      baths = None, nbaths = None, is_md = False\<rparr>"

text \<open>
  An environment with \<open>hbar = 1\<close> and the explicit Euler method as integrator: one stage
  with abscissa 0, and a step \<open>y + dt * f(y, 0)\<close>.
\<close>

definition ex_options :: options where
  "ex_options = \<lparr>opt_method = ''euler'', markov_time = 1, progress = False\<rparr>"

definition ex_exact :: options where
  "ex_exact = \<lparr>opt_method = ''exact'', markov_time = 1, progress = False\<rparr>"

definition ex_results :: results where
  "ex_results = \<lparr>every = 2, map_ops = False, map_function_set = False, samples = []\<rparr>"

definition euler_step :: "rhs \<Rightarrow> integrator \<Rightarrow> complex ndarray \<Rightarrow> error + real \<times> complex ndarray" where
  "euler_step f ode y =
     bind_err (f y 0) (\<lambda>dy.
     bind_err (elementwise (+) y (scale (complex_of_real (ode_dt ode)) dy)) (\<lambda>y'.
       Inr (ode_t ode + ode_dt ode, y')))"

definition ex_env :: env where
  "ex_env = \<lparr>hbar_const = 1, new_Options = ex_options, new_Results = ex_results,
      new_Integrator = (\<lambda>dt opt. Inr \<lparr>ode_dt = dt, ode_order = 1, ode_b = [0], ode_y = 0, ode_t = 0\<rparr>),
      integrate = euler_step\<rparr>"

text \<open>
  A bath that couples through \<open>\<sigma>\<^sub>x\<close>, with the constant correlation function 1 and the
  transform \<open>\<omega> \<mapsto> \<omega>\<close>, and the Hamiltonian \<open>diag(3, 1)\<close> with this bath.
\<close>

definition ex_bath :: bath where
  "ex_bath = \<lparr>c_op = NDArray 2 2 [0, 1, 1, 0], bath_corr_t = (\<lambda>t. 1),
      ft_bath_corr = (\<lambda>w. complex_of_real w)\<rparr>"

definition ex_ham2 :: hamiltonian where
  "ex_ham2 = ex_ham1\<lparr>baths := Some [ex_bath], nbaths := Some 1\<rparr>"

text \<open>The engine for \<open>ex_ham2\<close> after the time-independent setup with step size 1.\<close>

definition ex_engine :: redfield where
  "ex_engine = \<lparr>rf_ham = ex_ham2, time_dep = False, is_secular = False, rf_dt = 1,
      rf_options = ex_options, rf_results = ex_results,
      rf_ode = \<lparr>ode_dt = 1, ode_order = 1, ode_b = [0], ode_y = 0, ode_t = 0\<rparr>,
      rf_C = [NDArray 2 2 [0, 1, 1, 0]], rf_E = [NDArray 2 2 [0, 2, - 2, 0]],
      rf_E_td = [], gamma_n = [], gamma_n_1 = [], equation_of_motion = Some RF_EOM\<rparr>"

text \<open>
  A time-dependent engine: the Hamiltonian is the identity on two states (so all
  transition frequencies are zero), the bath couples through \<open>\<sigma>\<^sub>x\<close> and has the
  correlation function \<open>t \<mapsto> 1 + t\<close>, and the integrator has the two stages 0 and 1.
  \<open>ex_td0\<close> is the engine before \<open>coupling_operators_setup\<close>, \<open>ex_td1\<close> after it, and
  \<open>ex_td2\<close> after the call \<open>update_ops(0)\<close> that follows.
\<close>

definition ex_bath3 :: bath where
  "ex_bath3 = \<lparr>c_op = NDArray 2 2 [0, 1, 1, 0], bath_corr_t = (\<lambda>t. complex_of_real (1 + t)),
      ft_bath_corr = (\<lambda>w. 1)\<rparr>"

definition ex_ham3 :: hamiltonian where
  "ex_ham3 = \<lparr>nstates = 2, ham = NDArray 2 2 [1, 0, 0, 1], ev = [1, 1],
      ek = NDArray 2 2 [1, 0, 0, 1], omegas = NDArray 2 2 [0, 0, 0, 0],
      baths = Some [ex_bath3], nbaths = Some 1, is_md = False\<rparr>"

definition ex_td0 :: redfield where
  "ex_td0 = \<lparr>rf_ham = ex_ham3, time_dep = True, is_secular = False, rf_dt = 1,
      rf_options = ex_options, rf_results = ex_results,
      rf_ode = \<lparr>ode_dt = 1, ode_order = 2, ode_b = [0, 1], ode_y = 0, ode_t = 0\<rparr>,
      rf_C = [], rf_E = [], rf_E_td = [], gamma_n = [], gamma_n_1 = [],
      equation_of_motion = None\<rparr>"

definition ex_td1 :: redfield where
  "ex_td1 = ex_td0\<lparr>rf_C := [NDArray 2 2 [0, 1, 1, 0]],
      gamma_n := [[NDArray 2 2 [0, 0, 0, 0], NDArray 2 2 [3/2, 3/2, 3/2, 3/2]]],
      gamma_n_1 := [[NDArray 2 2 [1, 1, 1, 1], NDArray 2 2 [2, 2, 2, 2]]]\<rparr>"

definition ex_td2 :: redfield where
  "ex_td2 = ex_td1\<lparr>rf_E_td := [[NDArray 2 2 [0, 0, 0, 0], NDArray 2 2 [0, 3/2, 3/2, 0]]],
      gamma_n := [[NDArray 2 2 [3/2, 3/2, 3/2, 3/2], NDArray 2 2 [3, 3, 3, 3]]],
      gamma_n_1 := [[NDArray 2 2 [1, 1, 1, 1], NDArray 2 2 [2, 2, 2, 2]]]\<rparr>"

text \<open>
  The same time-dependent engine on the Hamiltonian \<open>diag(3, 1)\<close>, whose transition
  frequencies are \<open>-2\<close> and \<open>2\<close>: \<open>ex_td4\<close> before \<open>coupling_operators_setup\<close>, \<open>ex_td5\<close> after
  it, and \<open>ex_td6\<close> after the call \<open>update_ops(1/2)\<close> that follows.
\<close>

definition ex_ham4 :: hamiltonian where
  "ex_ham4 = ex_ham1\<lparr>baths := Some [ex_bath3], nbaths := Some 1\<rparr>"

definition ex_td4 :: redfield where
  "ex_td4 = ex_td0\<lparr>rf_ham := ex_ham4\<rparr>"

definition ex_td5 :: redfield where
  "ex_td5 = ex_td4\<lparr>rf_C := [NDArray 2 2 [0, 1, 1, 0]],
      gamma_n := [[NDArray 2 2 [0, 0, 0, 0],
                   NDArray 2 2 [3 / 2, (exp (\<i> * 2) * 2 + 1) / 2,
                                (exp (- (\<i> * 2)) * 2 + 1) / 2, 3 / 2]]],
      gamma_n_1 := [[NDArray 2 2 [1, 1, 1, 1],
                     NDArray 2 2 [2, exp (\<i> * 2) * 2, exp (- (\<i> * 2)) * 2, 2]]]\<rparr>"

definition ex_td6 :: redfield where
  "ex_td6 = ex_td5\<lparr>
      rf_E_td := [[NDArray 2 2 [0, 0, 0, 0],
                   NDArray 2 2 [0, (exp (\<i> * 2) * 2 + 1) / 2, (exp (- (\<i> * 2)) * 2 + 1) / 2, 0]]],
      gamma_n := [[NDArray 2 2 [3 / 2, (exp (\<i> * 2) * 2 + 1) / 2,
                                (exp (- (\<i> * 2)) * 2 + 1) / 2, 3 / 2],
                   NDArray 2 2 [7 / 2,
                                (exp (\<i> * 2) * 2 + 1) / 2
                                  + (exp (3 * \<i>) * 5 / 2 + exp \<i> * 3 / 2) / 2,
                                (exp (- (\<i> * 2)) * 2 + 1) / 2
                                  + (exp (- (3 * \<i>)) * 5 / 2 + exp (- \<i>) * 3 / 2) / 2,
                                7 / 2]]],
      gamma_n_1 := [[NDArray 2 2 [3 / 2, exp \<i> * 3 / 2, exp (- \<i>) * 3 / 2, 3 / 2],
                     NDArray 2 2 [5 / 2, exp (3 * \<i>) * 5 / 2, exp (- (3 * \<i>)) * 5 / 2,
                                  5 / 2]]]\<rparr>"

section \<open>Sequencing, loops and arrays\<close>

lemma bind_err_Inl [simp]: "bind_err (Inl e) f = Inl e"
  by (simp add: bind_err_def)

lemma bind_err_Inr [simp]: "bind_err (Inr x) f = f x"
  by (simp add: bind_err_def)

lemma bind_err_eq_Inr:
  "bind_err m f = Inr y \<longleftrightarrow> (\<exists>x. m = Inr x \<and> f x = Inr y)"
  by (cases m) simp_all

lemma index_lt: "i < r \<Longrightarrow> j < c \<Longrightarrow> i * c + j < r * (c::nat)"
proof -
  assume a: "i < r" "j < c"
  then have "i * c + j < i * c + c" by simp
  also have "\<dots> = Suc i * c" by simp
  also have "\<dots> \<le> r * c" using a(1) by (intro mult_le_mono1) simp
  finally show ?thesis .
qed

lemma shape0_tabulate [simp]: "shape0 (tabulate r c f) = r"
  and shape1_tabulate [simp]: "shape1 (tabulate r c f) = c"
  and wf_tabulate [simp]: "wf_array (tabulate r c f)"
  by (simp_all add: tabulate_def wf_array_def)

lemma entry_tabulate [simp]:
  "i < r \<Longrightarrow> j < c \<Longrightarrow> entry (tabulate r c f) i j = f i j"
  using index_lt [of i r j c] by (simp add: tabulate_def entry_def)

lemma array_eqI:
  assumes "wf_array A" "wf_array B"
    and "shape0 A = shape0 B" "shape1 A = shape1 B"
    and "\<And>i j. i < shape0 A \<Longrightarrow> j < shape1 A \<Longrightarrow> entry A i j = entry B i j"
  shows "A = B"
proof -
  have len: "length (data A) = length (data B)"
    using assms(1-4) by (simp add: wf_array_def)
  have "data A ! p = data B ! p" if "p < length (data A)" for p
  proof -
    let ?c = "shape1 A"
    from that assms(1) have p: "p < shape0 A * ?c" by (simp add: wf_array_def)
    then have c: "0 < ?c" by (cases "?c = 0") auto
    have i: "p div ?c < shape0 A" using p c by (simp add: less_mult_imp_div_less)
    have j: "p mod ?c < ?c" using c by simp
    from assms(5) [OF i j] show ?thesis
      using assms(4) by (simp add: entry_def)
  qed
  then have "data A = data B" using len by (intro nth_equalityI) auto
  then show ?thesis using assms(3,4) by (simp add: ndarray.expand)
qed

lemma tabulate_eqI:
  assumes "wf_array A" "shape0 A = r" "shape1 A = c"
    and "\<And>i j. i < r \<Longrightarrow> j < c \<Longrightarrow> entry A i j = f i j"
  shows "A = tabulate r c f"
  using assms by (intro array_eqI) auto

lemma for_each_append:
  "for_each (xs @ ys) body s = bind_err (for_each xs body s) (for_each ys body)"
  by (induction xs arbitrary: s) (auto simp: bind_err_def split: sum.splits)

lemma bind_err_Inr_right [simp]: "bind_err m Inr = m"
  by (cases m) simp_all

lemma for_each_Nil_fun [simp]: "for_each [] body = Inr"
  by (rule ext) simp

lemma for_each_single: "for_each [x] body s = body x s"
  by simp

lemma for_each_upt_Suc:
  "for_each [0..<Suc n] body s = bind_err (for_each [0..<n] body s) (body n)"
  by (cases "for_each [0..<n] body s") (simp_all add: for_each_append)

text \<open>Invariant rule for a counting loop that cannot fail while the invariant holds.\<close>
lemma for_each_upt_total:
  assumes "I 0 s"
    and "\<And>k t. k < n \<Longrightarrow> I k t \<Longrightarrow> \<exists>t'. body k t = Inr t' \<and> I (Suc k) t'"
  shows "\<exists>t. for_each [0..<n] body s = Inr t \<and> I n t"
  using assms(2)
proof (induction n)
  case 0
  then show ?case using assms(1) by simp
next
  case (Suc n)
  then obtain t where t: "for_each [0..<n] body s = Inr t" "I n t"
    by (metis less_Suc_eq)
  from Suc.prems [of n t] t(2) obtain t' where "body n t = Inr t'" "I (Suc n) t'"
    by auto
  then show ?case using t(1) by (simp add: for_each_upt_Suc del: upt_Suc)
qed

text \<open>Invariant rule for a counting loop that has returned.\<close>
lemma for_each_upt_partial:
  assumes "for_each [0..<n] body s = Inr t" "I 0 s"
    and "\<And>k u u'. k < n \<Longrightarrow> I k u \<Longrightarrow> body k u = Inr u' \<Longrightarrow> I (Suc k) u'"
  shows "I n t"
  using assms(1,3)
proof (induction n arbitrary: t)
  case 0
  then show ?case using assms(2) by simp
next
  case (Suc n)
  from Suc.prems(1) obtain u where u: "for_each [0..<n] body s = Inr u" "body n u = Inr t"
    by (auto simp: for_each_upt_Suc bind_err_eq_Inr simp del: upt_Suc)
  have "I n u" using Suc.IH [OF u(1)] Suc.prems(2) by (metis less_Suc_eq)
  then show ?case using Suc.prems(2) [of n u t] u(2) by simp
qed

lemma index_inj:
  assumes "j < c" "j' < c"
  shows "i * c + j = i' * c + j' \<longleftrightarrow> i = i' \<and> j = (j'::nat)"
proof
  assume eq: "i * c + j = i' * c + j'"
  have "(i * c + j) div c = i" "(i' * c + j') div c = i'" using assms by simp_all
  with eq have "i = i'" by simp
  with eq show "i = i' \<and> j = j'" by simp
qed simp

lemma set_entry_Inr:
  assumes "i < shape0 A" "j < shape1 A"
  shows "\<exists>B. set_entry A i j v = Inr B \<and> shape0 B = shape0 A \<and> shape1 B = shape1 A
           \<and> (wf_array A \<longrightarrow> wf_array B)
           \<and> (\<forall>i' j'. i' < shape0 A \<longrightarrow> j' < shape1 A \<longrightarrow> wf_array A \<longrightarrow>
                 entry B i' j' = (if i' = i \<and> j' = j then v else entry A i' j'))"
proof -
  let ?B = "NDArray (shape0 A) (shape1 A) ((data A)[i * shape1 A + j := v])"
  have "entry ?B i' j' = (if i' = i \<and> j' = j then v else entry A i' j')"
    if "i' < shape0 A" "j' < shape1 A" "wf_array A" for i' j'
    using that assms index_lt [of i' "shape0 A" j' "shape1 A"] index_inj [of j "shape1 A" j' i i']
    by (auto simp: entry_def wf_array_def nth_list_update)
  then show ?thesis using assms by (simp add: set_entry_def wf_array_def)
qed

lemma fill_inv_row: "fill_inv n f i n A \<longleftrightarrow> fill_inv n f (Suc i) 0 A"
  unfolding fill_inv_def by (auto simp: less_Suc_eq)

lemma fill_step:
  assumes "fill_inv n f i k A" "i < n" "k < n"
  shows "\<exists>A'. set_entry A i k (f i k) = Inr A' \<and> fill_inv n f i (Suc k) A'"
proof -
  from assms have sh: "i < shape0 A" "k < shape1 A" "wf_array A"
    by (simp_all add: fill_inv_def)
  from set_entry_Inr [OF sh(1,2), of "f i k"] obtain B where
    B: "set_entry A i k (f i k) = Inr B"
       "shape0 B = shape0 A" "shape1 B = shape1 A" "wf_array B"
       "\<And>i' j'. i' < shape0 A \<Longrightarrow> j' < shape1 A \<Longrightarrow>
           entry B i' j' = (if i' = i \<and> j' = k then f i k else entry A i' j')"
    using sh(3) by blast
  have "fill_inv n f i (Suc k) B"
    using assms(1) B(2-5) unfolding fill_inv_def by (auto simp: less_Suc_eq)
  then show ?thesis using B(1) by simp
qed

text \<open>Two nested loops whose body assigns \<open>A[i, j] = f i j\<close> build \<open>tabulate n n f\<close>.\<close>

lemma fill_loops:
  assumes "\<And>i j A. i < n \<Longrightarrow> j < n \<Longrightarrow> body i j A = set_entry A i j (f i j)"
  shows "for_each [0..<n] (\<lambda>i. for_each [0..<n] (body i)) (np_zeros n n) = Inr (tabulate n n f)"
proof -
  have inner: "\<exists>A'. for_each [0..<n] (body i) A = Inr A' \<and> fill_inv n f (Suc i) 0 A'"
    if "fill_inv n f i 0 A" "i < n" for i A
  proof -
    have "\<exists>A'. for_each [0..<n] (body i) A = Inr A' \<and> fill_inv n f i n A'"
      using that(1) fill_step [OF _ that(2)] assms [OF that(2)]
      by (intro for_each_upt_total [where I = "fill_inv n f i"]) auto
    then show ?thesis by (simp add: fill_inv_row)
  qed
  have z: "fill_inv n f 0 0 (np_zeros n n)"
    by (simp add: fill_inv_def np_zeros_def)
  have "\<exists>A. for_each [0..<n] (\<lambda>i. for_each [0..<n] (body i)) (np_zeros n n) = Inr A
          \<and> fill_inv n f n 0 A"
    using z inner by (intro for_each_upt_total [where I = "\<lambda>i. fill_inv n f i 0"]) auto
  then obtain A where A:
    "for_each [0..<n] (\<lambda>i. for_each [0..<n] (body i)) (np_zeros n n) = Inr A"
    "fill_inv n f n 0 A" by blast
  from A(2) have "A = tabulate n n f"
    by (intro tabulate_eqI) (auto simp: fill_inv_def)
  then show ?thesis using A(1) by simp
qed

lemma compute_frequencies_total:
  assumes "nstates h \<le> length (ev h)"
  shows "compute_frequencies hbar h =
           Inr (h\<lparr>omegas := tabulate (nstates h) (nstates h)
                               (\<lambda>i j. (ev h ! i - ev h ! j) / hbar)\<rparr>)"
proof -
  have "for_each [0..<nstates h] (\<lambda>i.
          for_each [0..<nstates h] (\<lambda>j om.
            bind_err (get_item (ev h) i) (\<lambda>ei.
            bind_err (get_item (ev h) j) (\<lambda>ej.
              set_entry om i j ((ei - ej) / hbar)))))
          (np_zeros (nstates h) (nstates h))
        = Inr (tabulate (nstates h) (nstates h) (\<lambda>i j. (ev h ! i - ev h ! j) / hbar))"
    using assms by (intro fill_loops) (simp add: get_item_def)
  then show ?thesis by (simp add: compute_frequencies_def)
qed

lemma for_each_Cons_Inr:
  "for_each (x # xs) body s = Inr t \<Longrightarrow> \<exists>u. body x s = Inr u"
  by (cases "body x s") simp_all

lemma compute_frequencies_Inr_length:
  assumes "compute_frequencies hbar h = Inr h'"
  shows "nstates h \<le> length (ev h)"
proof -
  let ?n = "nstates h"
  let ?inner = "\<lambda>i j om. bind_err (get_item (ev h) i) (\<lambda>ei.
            bind_err (get_item (ev h) j) (\<lambda>ej. set_entry om i j ((ei - ej) / hbar)))"
  from assms obtain om where
    om: "for_each [0..<?n] (\<lambda>i. for_each [0..<?n] (?inner i)) (np_zeros ?n ?n) = Inr (om::real ndarray)"
    by (auto simp: compute_frequencies_def bind_err_eq_Inr)
  have "(\<lambda>k (u::real ndarray). k \<le> length (ev h)) ?n om"
  proof (rule for_each_upt_partial [OF om])
    fix k and u u' :: "real ndarray"
    assume k: "k < ?n" and b: "for_each [0..<?n] (?inner k) u = Inr u'"
    from k have "[0..<?n] = 0 # [1..<?n]" by (simp add: upt_rec)
    with b obtain v where "?inner k 0 u = Inr v"
      using for_each_Cons_Inr [of 0 "[1..<?n]" "?inner k" u u'] by auto
    then show "Suc k \<le> length (ev h)"
      by (auto simp: get_item_def bind_err_eq_Inr split: if_splits)
  qed simp
  then show ?thesis .
qed

lemma compute_frequencies_Inr:
  assumes "compute_frequencies hbar h = Inr h'"
  shows "h' = h\<lparr>omegas := tabulate (nstates h) (nstates h)
                               (\<lambda>i j. (ev h ! i - ev h ! j) / hbar)\<rparr>"
  using compute_frequencies_total [OF compute_frequencies_Inr_length [OF assms], of hbar] assms
  by simp

section \<open>The transition frequencies are antisymmetric\<close>

lemma eigensystem_Inr:
  assumes "eigensystem eigh hbar h0 = Inr h"
  shows "\<exists>h1. nstates h1 = nstates h0 \<and> compute_frequencies hbar h1 = Inr h"
proof -
  obtain w v where "eigh (ham h0) = (w, v)" by (cases "eigh (ham h0)")
  with assms have "compute_frequencies hbar (h0\<lparr>ev := w, ek := v\<rparr>) = Inr h"
    by (simp add: eigensystem_def)
  moreover have "nstates (h0\<lparr>ev := w, ek := v\<rparr>) = nstates h0" by simp
  ultimately show ?thesis by blast
qed

lemma Hamiltonian_init_Inr:
  assumes "Hamiltonian_init allclose eigh H bs hbar = Inr h"
  shows "\<exists>h1 h2. compute_frequencies hbar h1 = Inr h2 \<and> nstates h = nstates h2
           \<and> ev h = ev h2 \<and> omegas h = omegas h2"
proof -
  from assms obtain h0 h2 where "eigensystem eigh hbar h0 = Inr h2"
    and h: "h = (case bs of None \<Rightarrow> h2\<lparr>baths := None\<rparr>
                  | Some l \<Rightarrow> h2\<lparr>baths := Some l, nbaths := Some (length l)\<rparr>)"
    by (auto simp: Hamiltonian_init_def bind_err_eq_Inr)
  then obtain h1 where "compute_frequencies hbar h1 = Inr h2"
    using eigensystem_Inr by blast
  moreover have "nstates h = nstates h2 \<and> ev h = ev h2 \<and> omegas h = omegas h2"
    using h by (cases bs) simp_all
  ultimately show ?thesis by blast
qed

lemma frequencies_after_compute:
  assumes "compute_frequencies hbar h1 = Inr h" "i < nstates h" "j < nstates h"
  shows "entry (omegas h) i j = (ev h ! i - ev h ! j) / hbar"
  using compute_frequencies_Inr [OF assms(1)] assms(2,3) by simp

text \<open>
  Claim C6.  After \<open>compute_frequencies\<close> has run, which is the case after the
  construction of a Hamiltonian and after every recomputation of its eigensystem, the
  frequency matrix satisfies \<open>omegas[i,j] = (ev[i] - ev[j])/hbar\<close>,
  \<open>omegas[i,j] = -omegas[j,i]\<close> and \<open>omegas[i,i] = 0\<close> for all states \<open>i\<close>, \<open>j\<close>.
  Here \<open>hbar\<close> is not zero: a division of floats by zero gives infinities and NaN,
  which the real numbers of this model do not have.
\<close>

theorem omegas_antisymmetric:
  assumes "hbar \<noteq> 0"
    and "compute_frequencies hbar h0 = Inr h \<or> eigensystem eigh hbar h0 = Inr h
         \<or> Hamiltonian_init allclose eigh H bs hbar = Inr h"
    and "i < nstates h" "j < nstates h"
  shows "entry (omegas h) i j = (ev h ! i - ev h ! j) / hbar
       \<and> entry (omegas h) i j = - entry (omegas h) j i
       \<and> entry (omegas h) i i = 0"
proof -
  from assms(2) obtain h1 h2 where c: "compute_frequencies hbar h1 = Inr h2"
    and eq: "nstates h = nstates h2" "ev h = ev h2" "omegas h = omegas h2"
    using eigensystem_Inr [of eigh hbar h0 h] Hamiltonian_init_Inr [of allclose eigh H bs hbar h]
    by blast
  have f: "entry (omegas h) a b = (ev h ! a - ev h ! b) / hbar"
    if "a < nstates h" "b < nstates h" for a b
    using frequencies_after_compute [OF c, of a b] that eq by simp
  show ?thesis using f [OF assms(3,4)] f [OF assms(4,3)] f [OF assms(3,3)]
    by (simp add: diff_divide_distrib)
qed

theorem omegas_antisymmetric_witness:
  "(2::real) \<noteq> 0
   \<and> compute_frequencies 2 ex_ham0 = Inr (ex_ham0\<lparr>omegas := NDArray 2 2 [0, -1, 1, 0]\<rparr>)
   \<and> (0::nat) < nstates (ex_ham0\<lparr>omegas := NDArray 2 2 [0, -1, 1, 0]\<rparr>)
   \<and> (1::nat) < nstates (ex_ham0\<lparr>omegas := NDArray 2 2 [0, -1, 1, 0]\<rparr>)
   \<and> entry (NDArray 2 2 [0, -1, 1, 0::real]) 0 1 = (1 - 3) / 2
   \<and> entry (NDArray 2 2 [0, -1, 1, 0::real]) 0 1 = - entry (NDArray 2 2 [0, -1, 1, 0::real]) 1 0
   \<and> entry (NDArray 2 2 [0, -1, 1, 0::real]) 0 0 = 0"
proof -
  have c: "compute_frequencies 2 ex_ham0 = Inr (ex_ham0\<lparr>omegas := NDArray 2 2 [0, -1, 1, 0]\<rparr>)"
    by (simp add: compute_frequencies_def ex_ham0_def np_zeros_def tabulate_def get_item_def
        set_entry_def upt_rec)
  have n: "nstates (ex_ham0\<lparr>omegas := NDArray 2 2 [0, -1, 1, 0]\<rparr>) = 2"
    by (simp add: ex_ham0_def)
  show ?thesis
    using omegas_antisymmetric [where hbar = 2 and ?h0.0 = ex_ham0
        and h = "ex_ham0\<lparr>omegas := NDArray 2 2 [0, -1, 1, 0]\<rparr>" and i = 0 and j = 1]
      c n by (simp add: ex_ham0_def)
qed

section \<open>Matrix products and basis changes\<close>

lemma sum_list_upt: "sum_list (map f [0..<n]) = (\<Sum>k<n. f k)"
  by (induction n) simp_all

lemma np_dot_mat_mul:
  "shape1 A = shape0 B \<Longrightarrow> np_dot A B = Inr (mat_mul A B)"
  by (simp add: np_dot_def mat_mul_def sum_list_upt)

lemma np_dot_ValueError:
  "shape1 A \<noteq> shape0 B \<Longrightarrow> np_dot A B = Inl ValueError"
  by (simp add: np_dot_def)

lemma shape_mat_mul [simp]:
  "shape0 (mat_mul A B) = shape0 A" "shape1 (mat_mul A B) = shape1 B" "wf_array (mat_mul A B)"
  by (simp_all add: mat_mul_def)

lemma entry_mat_mul:
  "i < shape0 A \<Longrightarrow> j < shape1 B \<Longrightarrow>
     entry (mat_mul A B) i j = (\<Sum>k<shape1 A. entry A i k * entry B k j)"
  by (simp add: mat_mul_def)

lemma shape_dag [simp]:
  "shape0 (dag A) = shape1 A" "shape1 (dag A) = shape0 A" "wf_array (dag A)"
  by (simp_all add: dag_def)

lemma entry_dag: "i < shape1 A \<Longrightarrow> j < shape0 A \<Longrightarrow> entry (dag A) i j = cnj (entry A j i)"
  by (simp add: dag_def)

lemma shape_np_eye [simp]:
  "shape0 (np_eye n) = n" "shape1 (np_eye n) = n" "wf_array (np_eye n)"
  by (simp_all add: np_eye_def)

lemma entry_np_eye: "i < n \<Longrightarrow> j < n \<Longrightarrow> entry (np_eye n) i j = (if i = j then 1 else 0)"
  by (simp add: np_eye_def)

lemma mat_mul_assoc:
  assumes "shape1 A = shape0 B" "shape1 B = shape0 C"
  shows "mat_mul (mat_mul A B) C = mat_mul A (mat_mul B C)"
proof (rule array_eqI)
  fix i j
  assume "i < shape0 (mat_mul (mat_mul A B) C)" "j < shape1 (mat_mul (mat_mul A B) C)"
  then have ij: "i < shape0 A" "j < shape1 C" by simp_all
  have "entry (mat_mul (mat_mul A B) C) i j
      = (\<Sum>k<shape1 B. (\<Sum>l<shape1 A. entry A i l * entry B l k) * entry C k j)"
    using ij assms by (simp add: entry_mat_mul)
  also have "\<dots> = (\<Sum>k<shape1 B. \<Sum>l<shape1 A. entry A i l * (entry B l k * entry C k j))"
    by (simp add: sum_distrib_right mult.assoc)
  also have "\<dots> = (\<Sum>l<shape1 A. \<Sum>k<shape1 B. entry A i l * (entry B l k * entry C k j))"
    by (rule sum.swap)
  also have "\<dots> = (\<Sum>l<shape1 A. entry A i l * (\<Sum>k<shape1 B. entry B l k * entry C k j))"
    by (simp add: sum_distrib_left)
  also have "\<dots> = entry (mat_mul A (mat_mul B C)) i j"
    using ij assms by (simp add: entry_mat_mul)
  finally show "entry (mat_mul (mat_mul A B) C) i j = entry (mat_mul A (mat_mul B C)) i j" .
qed simp_all

lemma mat_mul_eye_left:
  assumes "wf_array A" "shape0 A = n"
  shows "mat_mul (np_eye n) A = A"
proof (rule array_eqI)
  fix i j
  assume "i < shape0 (mat_mul (np_eye n) A)" "j < shape1 (mat_mul (np_eye n) A)"
  then have ij: "i < n" "j < shape1 A" by simp_all
  have "entry (mat_mul (np_eye n) A) i j = (\<Sum>k<n. (if i = k then 1 else 0) * entry A k j)"
    using ij by (simp add: entry_mat_mul entry_np_eye)
  also have "\<dots> = (\<Sum>k<n. if k = i then entry A k j else 0)"
    by (intro sum.cong) auto
  also have "\<dots> = entry A i j" using ij by simp
  finally show "entry (mat_mul (np_eye n) A) i j = entry A i j" .
qed (use assms in simp_all)

lemma mat_mul_eye_right:
  assumes "wf_array A" "shape1 A = n"
  shows "mat_mul A (np_eye n) = A"
proof (rule array_eqI)
  fix i j
  assume "i < shape0 (mat_mul A (np_eye n))" "j < shape1 (mat_mul A (np_eye n))"
  then have ij: "i < shape0 A" "j < n" by simp_all
  have "entry (mat_mul A (np_eye n)) i j = (\<Sum>k<n. entry A i k * (if k = j then 1 else 0))"
    using ij assms by (simp add: entry_mat_mul entry_np_eye)
  also have "\<dots> = (\<Sum>k<n. if k = j then entry A i k else 0)"
    by (intro sum.cong) auto
  also have "\<dots> = entry A i j" using ij by simp
  finally show "entry (mat_mul A (np_eye n)) i j = entry A i j" .
qed (use assms in simp_all)

lemma classified: "is_vector op \<longleftrightarrow> \<not> is_matrix op"
  by (simp add: is_vector_def is_matrix_def)

lemma to_eigenbasis_vector:
  "is_vector op \<Longrightarrow> shape0 op = shape0 (ek h) \<Longrightarrow>
     to_eigenbasis h op = Inr (mat_mul (dag (ek h)) op)"
  by (simp add: to_eigenbasis_def np_dot_mat_mul)

lemma to_eigenbasis_matrix:
  "is_matrix op \<Longrightarrow> shape0 op = shape0 (ek h) \<Longrightarrow> shape1 (ek h) = shape0 (ek h) \<Longrightarrow>
     to_eigenbasis h op = Inr (mat_mul (dag (ek h)) (mat_mul op (ek h)))"
  by (simp add: to_eigenbasis_def np_dot_mat_mul is_matrix_def is_vector_def)

lemma from_eigenbasis_vector:
  "is_vector op \<Longrightarrow> shape0 op = shape1 (ek h) \<Longrightarrow>
     from_eigenbasis h op = Inr (mat_mul (ek h) op)"
  by (simp add: from_eigenbasis_def np_dot_mat_mul)

lemma from_eigenbasis_matrix:
  "is_matrix op \<Longrightarrow> shape0 op = shape1 (ek h) \<Longrightarrow> shape1 (ek h) = shape0 (ek h) \<Longrightarrow>
     from_eigenbasis h op = Inr (mat_mul (ek h) (mat_mul op (dag (ek h))))"
  by (simp add: from_eigenbasis_def np_dot_mat_mul is_matrix_def is_vector_def)

lemma eigenbasis_mismatch:
  assumes "shape0 (ek h) = n" "shape1 (ek h) = n" "shape0 op \<noteq> n"
  shows "to_eigenbasis h op = Inl ValueError" "from_eigenbasis h op = Inl ValueError"
  using assms
  by (auto simp: to_eigenbasis_def from_eigenbasis_def np_dot_def is_vector_def is_matrix_def)

section \<open>Shapes accepted by the basis changes\<close>

lemma ex_ham0_ek: "ek ex_ham0 = NDArray 2 2 [1, 0, 0, 1]"
  by (simp add: ex_ham0_def)

lemma sum_lessThan_2: "(\<Sum>k<2. f k) = f 0 + (f (Suc 0) :: complex)"
  by (simp add: numeral_2_eq_2)


text \<open>
  Claim C9, as stated, fails: an operand that is classified as a square matrix (or as a
  vector) but whose dimension is not the number of states makes \<open>to_eigenbasis\<close> and
  \<open>from_eigenbasis\<close> fail with the ValueError of \<open>np.dot\<close>.  Here the operand is the
  identity on three states, for a Hamiltonian of two states.
\<close>

theorem eigenbasis_shape_counterexample:
  "is_matrix (NDArray 3 3 [1, 0, 0, 0, 1, 0, 0, 0, 1 :: complex])
   \<and> to_eigenbasis ex_ham0 (NDArray 3 3 [1, 0, 0, 0, 1, 0, 0, 0, 1]) = Inl ValueError
   \<and> from_eigenbasis ex_ham0 (NDArray 3 3 [1, 0, 0, 0, 1, 0, 0, 0, 1]) = Inl ValueError"
  by (simp add: is_matrix_def is_vector_def to_eigenbasis_def from_eigenbasis_def np_dot_def
      ex_ham0_def dag_def tabulate_def)


text \<open>
  Claim C9, amended.  Every two-dimensional operand is classified as a vector or as a
  square matrix, so \<open>to_eigenbasis\<close> and \<open>from_eigenbasis\<close> never raise their
  "Not a valid operator" error for one.  With an \<open>N \<times> N\<close> eigenvector matrix, an operand
  classified as a vector with \<open>N\<close> rows gives \<open>ek\<^sup>\<dagger> op\<close> and \<open>ek op\<close>, an operand
  classified as a matrix with \<open>N\<close> rows gives \<open>ek\<^sup>\<dagger> op ek\<close> and \<open>ek op ek\<^sup>\<dagger>\<close>, both
  without error, and an operand whose first dimension is not \<open>N\<close> fails with ValueError.
\<close>

theorem eigenbasis_shapes:
  assumes "shape0 (ek h) = n" "shape1 (ek h) = n"
  shows "(is_vector op \<or> is_matrix op)
       \<and> to_eigenbasis h op \<noteq> Inl AttributeError
       \<and> from_eigenbasis h op \<noteq> Inl AttributeError
       \<and> (is_vector op \<and> shape0 op = n \<longrightarrow>
            to_eigenbasis h op = Inr (mat_mul (dag (ek h)) op)
          \<and> from_eigenbasis h op = Inr (mat_mul (ek h) op))
       \<and> (is_matrix op \<and> shape0 op = n \<longrightarrow>
            to_eigenbasis h op = Inr (mat_mul (dag (ek h)) (mat_mul op (ek h)))
          \<and> from_eigenbasis h op = Inr (mat_mul (ek h) (mat_mul op (dag (ek h)))))
       \<and> (shape0 op \<noteq> n \<longrightarrow>
            to_eigenbasis h op = Inl ValueError \<and> from_eigenbasis h op = Inl ValueError)"
proof -
  have c: "is_vector op \<or> is_matrix op" by (simp add: classified)
  have a: "to_eigenbasis h op \<noteq> Inl AttributeError" "from_eigenbasis h op \<noteq> Inl AttributeError"
    using c by (auto simp: to_eigenbasis_def from_eigenbasis_def np_dot_def bind_err_def
        split: sum.splits)
  have v: "to_eigenbasis h op = Inr (mat_mul (dag (ek h)) op)
          \<and> from_eigenbasis h op = Inr (mat_mul (ek h) op)"
    if "is_vector op" "shape0 op = n"
    using that assms by (simp add: to_eigenbasis_vector from_eigenbasis_vector)
  have m: "to_eigenbasis h op = Inr (mat_mul (dag (ek h)) (mat_mul op (ek h)))
          \<and> from_eigenbasis h op = Inr (mat_mul (ek h) (mat_mul op (dag (ek h))))"
    if "is_matrix op" "shape0 op = n"
    using that assms by (simp add: to_eigenbasis_matrix from_eigenbasis_matrix)
  have e: "to_eigenbasis h op = Inl ValueError \<and> from_eigenbasis h op = Inl ValueError"
    if "shape0 op \<noteq> n"
    using eigenbasis_mismatch [OF assms that] by simp
  show ?thesis using c a v m e by blast
qed


theorem eigenbasis_shapes_witness:
  "shape0 (ek ex_ham0) = 2 \<and> shape1 (ek ex_ham0) = 2
   \<and> is_vector (NDArray 2 1 [3, 4 :: complex]) \<and> shape0 (NDArray 2 1 [3, 4 :: complex]) = 2
   \<and> to_eigenbasis ex_ham0 (NDArray 2 1 [3, 4]) = Inr (NDArray 2 1 [3, 4])
   \<and> from_eigenbasis ex_ham0 (NDArray 2 1 [3, 4]) = Inr (NDArray 2 1 [3, 4])
   \<and> is_matrix (NDArray 2 2 [1, 2, 3, 4 :: complex]) \<and> shape0 (NDArray 2 2 [1, 2, 3, 4 :: complex]) = 2
   \<and> to_eigenbasis ex_ham0 (NDArray 2 2 [1, 2, 3, 4]) = Inr (NDArray 2 2 [1, 2, 3, 4])
   \<and> from_eigenbasis ex_ham0 (NDArray 2 2 [1, 2, 3, 4]) = Inr (NDArray 2 2 [1, 2, 3, 4])
   \<and> shape0 (NDArray 3 1 [1, 0, 0 :: complex]) \<noteq> 2
   \<and> to_eigenbasis ex_ham0 (NDArray 3 1 [1, 0, 0]) = Inl ValueError
   \<and> from_eigenbasis ex_ham0 (NDArray 3 1 [1, 0, 0]) = Inl ValueError"
proof -
  have s: "shape0 (ek ex_ham0) = 2" "shape1 (ek ex_ham0) = 2" by (simp_all add: ex_ham0_ek)
  have d: "dag (NDArray 2 2 [1, 0, 0, 1]) = NDArray 2 2 [1, 0, 0, 1]"
    by (simp add: dag_def tabulate_def entry_def upt_rec)
  have v: "mat_mul (NDArray 2 2 [1, 0, 0, 1]) (NDArray 2 1 [3, 4]) = NDArray 2 1 [3, 4]"
    by (simp add: mat_mul_def tabulate_def entry_def upt_rec sum_lessThan_2)
  have m: "mat_mul (NDArray 2 2 [1, 2, 3, 4]) (NDArray 2 2 [1, 0, 0, 1]) = NDArray 2 2 [1, 2, 3, 4]"
    "mat_mul (NDArray 2 2 [1, 0, 0, 1]) (NDArray 2 2 [1, 2, 3, 4]) = NDArray 2 2 [1, 2, 3, 4]"
    by (simp_all add: mat_mul_def tabulate_def entry_def upt_rec sum_lessThan_2)
  show ?thesis
    using eigenbasis_shapes [OF s, of "NDArray 2 1 [3, 4]"]
      eigenbasis_shapes [OF s, of "NDArray 2 2 [1, 2, 3, 4]"]
      eigenbasis_shapes [OF s, of "NDArray 3 1 [1, 0, 0]"]
    by (simp add: s is_vector_def is_matrix_def ex_ham0_ek d v m del: One_nat_def)
qed

section \<open>The round trip through the eigenbasis\<close>

text \<open>
  Claim C5.  When the eigenvector matrix is unitary (\<open>ek\<^sup>\<dagger> ek = I\<close>),
  \<open>to_eigenbasis(from_eigenbasis(op))\<close> returns \<open>op\<close>, for an operand classified as a
  vector and for one classified as a square matrix.  The operand has as many rows as the
  Hamiltonian has states, so that the products are defined.
\<close>

theorem eigenbasis_round_trip:
  assumes "wf_array (ek h)" "shape0 (ek h) = n" "shape1 (ek h) = n"
    and "np_dot (dag (ek h)) (ek h) = Inr (np_eye n)"
    and "wf_array op" "shape0 op = n"
  shows "bind_err (from_eigenbasis h op) (to_eigenbasis h) = Inr op"
proof -
  let ?U = "ek h"
  have u: "mat_mul (dag ?U) ?U = np_eye n"
    using assms(2,4) by (simp add: np_dot_mat_mul)
  show ?thesis
  proof (cases "is_vector op")
    case True
    have f: "from_eigenbasis h op = Inr (mat_mul ?U op)"
      using True assms by (simp add: from_eigenbasis_vector)
    have "is_vector (mat_mul ?U op)" using True assms by (simp add: is_vector_def)
    then have "to_eigenbasis h (mat_mul ?U op) = Inr (mat_mul (dag ?U) (mat_mul ?U op))"
      using assms by (simp add: to_eigenbasis_vector)
    also have "mat_mul (dag ?U) (mat_mul ?U op) = mat_mul (mat_mul (dag ?U) ?U) op"
      using assms by (simp add: mat_mul_assoc)
    also have "\<dots> = op" using assms by (simp add: u mat_mul_eye_left)
    finally show ?thesis using f by simp
  next
    case False
    then have mt: "is_matrix op" by (simp add: classified)
    then have c: "shape1 op = n" using assms by (simp add: is_matrix_def)
    let ?X = "mat_mul ?U (mat_mul op (dag ?U))"
    have f: "from_eigenbasis h op = Inr ?X"
      using mt assms by (simp add: from_eigenbasis_matrix)
    have "is_matrix ?X" using assms by (simp add: is_matrix_def)
    then have "to_eigenbasis h ?X = Inr (mat_mul (dag ?U) (mat_mul ?X ?U))"
      using assms by (simp add: to_eigenbasis_matrix)
    also have "mat_mul ?X ?U = mat_mul ?U (mat_mul (mat_mul op (dag ?U)) ?U)"
      using assms c by (simp add: mat_mul_assoc)
    also have "mat_mul (mat_mul op (dag ?U)) ?U = mat_mul op (mat_mul (dag ?U) ?U)"
      using assms c by (simp add: mat_mul_assoc)
    also have "\<dots> = op" using assms c by (simp add: u mat_mul_eye_right)
    also have "mat_mul (dag ?U) (mat_mul ?U op) = mat_mul (mat_mul (dag ?U) ?U) op"
      using assms by (simp add: mat_mul_assoc)
    also have "\<dots> = op" using assms by (simp add: u mat_mul_eye_left)
    finally show ?thesis using f by simp
  qed
qed

theorem eigenbasis_round_trip_witness:
  "wf_array (ek ex_ham1) \<and> shape0 (ek ex_ham1) = 2 \<and> shape1 (ek ex_ham1) = 2
   \<and> np_dot (dag (ek ex_ham1)) (ek ex_ham1) = Inr (np_eye 2)
   \<and> wf_array (NDArray 2 2 [1, 2, 3, 4 :: complex]) \<and> shape0 (NDArray 2 2 [1, 2, 3, 4 :: complex]) = 2
   \<and> from_eigenbasis ex_ham1 (NDArray 2 2 [1, 2, 3, 4]) = Inr (NDArray 2 2 [4, 3, 2, 1])
   \<and> bind_err (from_eigenbasis ex_ham1 (NDArray 2 2 [1, 2, 3, 4])) (to_eigenbasis ex_ham1)
       = Inr (NDArray 2 2 [1, 2, 3, 4])"
proof -
  have e: "ek ex_ham1 = NDArray 2 2 [0, \<i>, \<i>, 0]" by (simp add: ex_ham1_def)
  have d: "dag (NDArray 2 2 [0, \<i>, \<i>, 0]) = NDArray 2 2 [0, - \<i>, - \<i>, 0]"
    by (simp add: dag_def tabulate_def entry_def upt_rec)
  have h1: "wf_array (ek ex_ham1)" "shape0 (ek ex_ham1) = 2" "shape1 (ek ex_ham1) = 2"
    by (simp_all add: e wf_array_def)
  have h2: "np_dot (dag (ek ex_ham1)) (ek ex_ham1) = Inr (np_eye 2)"
    by (simp add: e d np_dot_def np_eye_def tabulate_def entry_def upt_rec)
  have h3: "wf_array (NDArray 2 2 [1, 2, 3, 4 :: complex])"
    "shape0 (NDArray 2 2 [1, 2, 3, 4 :: complex]) = 2"
    by (simp_all add: wf_array_def)
  have f: "from_eigenbasis ex_ham1 (NDArray 2 2 [1, 2, 3, 4]) = Inr (NDArray 2 2 [4, 3, 2, 1])"
    by (simp add: from_eigenbasis_def is_vector_def is_matrix_def e d np_dot_def tabulate_def
        entry_def upt_rec mult.left_commute [of \<i>])
  show ?thesis
    using eigenbasis_round_trip [OF h1 h2 h3] h1 h2 h3 f by simp
qed

section \<open>The method "exact" is not implemented\<close>

lemma no_nie_Inr [simp]: "no_nie (Inr x)"
  by (simp add: no_nie_def)

lemma no_nie_Inl [simp]: "no_nie (Inl e) \<longleftrightarrow> e \<noteq> NotImplementedError"
  by (simp add: no_nie_def)

lemma no_nie_bind: "no_nie m \<Longrightarrow> (\<And>x. no_nie (f x)) \<Longrightarrow> no_nie (bind_err m f)"
  by (cases m) (simp_all add: no_nie_def)

lemma no_nie_for_each: "(\<And>x s. no_nie (body x s)) \<Longrightarrow> no_nie (for_each xs body s)"
  by (induction xs arbitrary: s) (auto intro: no_nie_bind)

lemma no_nie_if: "no_nie a \<Longrightarrow> no_nie b \<Longrightarrow> no_nie (if c then a else b)"
  by simp

lemma no_nie_basic [simp]:
  "no_nie (get_item xs i)" "no_nie (set_item xs i v)" "no_nie (get_last xs)"
  "no_nie (get_entry A i j)" "no_nie (set_entry A i j w)"
  "no_nie (np_dot P Q)" "no_nie (elementwise f P' Q')"
  by (simp_all add: get_item_def set_item_def get_last_def get_entry_def set_entry_def
      np_dot_def elementwise_def split: option.splits)

lemma no_nie_append_at [simp]: "no_nie (append_at xs op v)"
  by (auto simp: append_at_def intro!: no_nie_bind)

lemma no_nie_to_eigenbasis [simp]: "no_nie (to_eigenbasis h op)"
  by (auto simp: to_eigenbasis_def intro!: no_nie_bind)

lemma no_nie_trapezoid [simp]: "no_nie (trapezoid g c th g1)"
  by (auto simp: trapezoid_def intro!: no_nie_bind)

lemma no_nie_make_theta_plus [simp]: "no_nie (make_theta_plus h bth)"
  unfolding make_theta_plus_def by (intro no_nie_for_each no_nie_bind) simp_all

lemma no_nie_make_redfield_operators: "no_nie (make_redfield_operators eng)"
  unfolding make_redfield_operators_def
  by (cases "baths (rf_ham eng)") (auto intro!: no_nie_for_each no_nie_bind)

lemma no_nie_setup_stage [simp]: "no_nie (setup_stage bth op k s)"
  unfolding setup_stage_def by (intro no_nie_bind no_nie_if) simp_all

lemma no_nie_coupling_operators_setup: "no_nie (coupling_operators_setup eng)"
proof (cases "nbaths (rf_ham eng)")
  case None
  then show ?thesis by (simp add: coupling_operators_setup_def)
next
  case (Some nb)
  show ?thesis
  proof (cases "baths (rf_ham eng)")
    case None
    then show ?thesis using Some by (simp add: coupling_operators_setup_def)
  next
    case (Some bs)
    have 1: "no_nie (for_each (enumerate 0 bs) (\<lambda>(op, bth) s.
                   bind_err (to_eigenbasis (rf_ham eng) (c_op bth)) (\<lambda>Ga.
                   bind_err (set_item (gamma_n s) op []) (\<lambda>g.
                   bind_err (set_item (gamma_n_1 s) op []) (\<lambda>g1.
                     Inr (s\<lparr>rf_C := rf_C s @ [Ga], gamma_n := g, gamma_n_1 := g1\<rparr>))))) s0)" for s0
      by (rule no_nie_for_each) (auto intro!: no_nie_bind)
    have 2: "no_nie (for_each (enumerate 0 bs) (\<lambda>(op, bth).
                   for_each [0..<ode_order (rf_ode eng)] (setup_stage bth op)) s0)" for s0
      by (rule no_nie_for_each) (auto intro!: no_nie_for_each)
    show ?thesis using Some \<open>nbaths (rf_ham eng) = Some nb\<close>
      by (auto simp: coupling_operators_setup_def intro!: no_nie_bind 1 2)
  qed
qed

lemma setup_exact:
  "opt_method opt = ''exact'' \<Longrightarrow> Redfield_setup env eng (Some opt) res = Inl NotImplementedError"
  by (simp add: Redfield_setup_def)

lemma raise_in_simps [simp]:
  "raise_in hp (Inl e) = Inl (e, hp)" "raise_in hp (Inr x) = Inr x"
  by (simp_all add: raise_in_def)

lemma get_item_simps [simp]:
  "i < length xs \<Longrightarrow> get_item xs i = Inr (xs ! i)"
  "\<not> i < length xs \<Longrightarrow> get_item xs i = Inl IndexError"
  by (simp_all add: get_item_def)

lemma solve_exact:
  assumes "opt_method opt = ''exact''" "2 \<le> length tms"
  shows "solve env eng hp rho0 tms (Some opt) res = Inl (NotImplementedError, hp)"
proof -
  from assms(2) have "0 < length tms" "1 < length tms" by auto
  then show ?thesis using assms(1) by (simp add: solve_def setup_exact)
qed

lemma no_nie_bind_Inr:
  "no_nie m \<Longrightarrow> (\<And>x. m = Inr x \<Longrightarrow> no_nie (f x)) \<Longrightarrow> no_nie (bind_err m f)"
  by (cases m) (simp_all add: no_nie_def)

lemma setup_not_exact:
  assumes "opt_method opt \<noteq> ''exact''" "no_nie (new_Integrator env (rf_dt eng) opt)"
  shows "no_nie (Redfield_setup env eng (Some opt) res)"
proof -
  let ?e1 = "eng\<lparr>rf_options := opt\<rparr>"
  let ?r = "case res of
          None \<Rightarrow> Inr (?e1\<lparr>rf_results := new_Results env\<rparr>)
        | Some r \<Rightarrow>
            if map_ops r
            then (if is_md (rf_ham ?e1)
                  then Inr (?e1\<lparr>rf_results := r\<lparr>map_function_set := True\<rparr>\<rparr>)
                  else Inl AssertionError)
            else Inr (?e1\<lparr>rf_results := r\<rparr>)"
  have r: "no_nie ?r" by (cases res) simp_all
  have e2: "rf_dt e2 = rf_dt eng \<and> rf_options e2 = opt" if "?r = Inr e2" for e2
    using that by (cases res) (auto split: if_splits)
  have rest: "no_nie (bind_err (new_Integrator env (rf_dt e2) (rf_options e2)) (\<lambda>ode.
       if opt_method (rf_options e2) \<noteq> ''exact''
       then (if time_dep e2
             then bind_err (coupling_operators_setup (e2\<lparr>rf_ode := ode\<rparr>))
                    (\<lambda>e3. Inr (e3\<lparr>equation_of_motion := Some TD_RF_EOM\<rparr>))
             else bind_err (make_redfield_operators (e2\<lparr>rf_ode := ode\<rparr>))
                    (\<lambda>e3. Inr (e3\<lparr>equation_of_motion := Some RF_EOM\<rparr>)))
       else Inr (e2\<lparr>rf_ode := ode\<rparr>)))" if "?r = Inr e2" for e2
    using e2 [OF that] assms(2)
    by (auto intro!: no_nie_bind no_nie_coupling_operators_setup no_nie_make_redfield_operators)
  show ?thesis
    using assms(1) no_nie_bind_Inr [OF r rest] by (simp add: Redfield_setup_def)
qed

section \<open>Evaluation on concrete arrays\<close>

text \<open>The elements of \<open>tabulate r c f\<close> row by row, for evaluation by rewriting, and weak
  congruence rules that evaluate a sequence of operations in program order.\<close>

lemma map_div_mod_block:
  "map (\<lambda>p. f (p div c) (p mod c)) [r * c..<r * c + c] = map (f r) [0..<c]"
proof -
  have "[r * c..<r * c + c] = map (\<lambda>j. j + r * c) [0..<c]"
    using map_add_upt [of "r * c" c] by (simp only: add.commute)
  then have "map (\<lambda>p. f (p div c) (p mod c)) [r * c..<r * c + c]
           = map (\<lambda>j. f ((j + r * c) div c) ((j + r * c) mod c)) [0..<c]"
    by (simp only: map_map comp_def)
  also have "\<dots> = map (f r) [0..<c]"
    by (rule map_cong) auto
  finally show ?thesis .
qed

lemma tabulate_rows:
  "tabulate r c f = NDArray r c (concat (map (\<lambda>i. map (f i) [0..<c]) [0..<r]))"
proof -
  have "map (\<lambda>p. f (p div c) (p mod c)) [0..<r * c]
        = concat (map (\<lambda>i. map (f i) [0..<c]) [0..<r])"
  proof (induction r)
    case 0
    show ?case by simp
  next
    case (Suc r)
    have "[0..<Suc r * c] = [0..<r * c] @ [r * c..<r * c + c]"
      using upt_add_eq_append [of 0 "r * c" c] by (simp add: add.commute)
    then have "map (\<lambda>p. f (p div c) (p mod c)) [0..<Suc r * c]
             = map (\<lambda>p. f (p div c) (p mod c)) [0..<r * c] @ map (f r) [0..<c]"
      by (simp only: map_append map_div_mod_block)
    then show ?case using Suc by simp
  qed
  then show ?thesis by (simp add: tabulate_def)
qed

lemma entry_NDArray: "entry (NDArray r c xs) i j = xs ! (i * c + j)"
  by (simp add: entry_def)

lemmas array_eval = tabulate_rows entry_NDArray upt_conv_Cons
  np_dot_def elementwise_def bdim_def bidx_def dag_def np_zeros_def np_diag_def
  map_array_def scale_def iadd_def commutator_def get_item_def set_item_def
  get_entry_def set_entry_def is_vector_def is_matrix_def

lemma bind_err_weak_cong: "m = m' \<Longrightarrow> bind_err m f = bind_err m' f"
  by simp

lemma for_each_weak_cong: "xs = xs' \<Longrightarrow> s = s' \<Longrightarrow> for_each xs body s = for_each xs' body s'"
  by simp

section \<open>The equation of motion\<close>

lemma tabulate_cong:
  "(\<And>i j. i < r \<Longrightarrow> j < c \<Longrightarrow> f i j = g i j) \<Longrightarrow> tabulate r c f = tabulate r c g"
  by (rule array_eqI) simp_all

lemma shape_zip_array [simp]:
  "shape0 (zip_array f A B) = shape0 A" "shape1 (zip_array f A B) = shape1 A"
  "wf_array (zip_array f A B)"
  by (simp_all add: zip_array_def)

lemma entry_zip_array:
  "i < shape0 A \<Longrightarrow> j < shape1 A \<Longrightarrow>
     entry (zip_array f A B) i j = f (entry A i j) (entry B i j)"
  by (simp add: zip_array_def)

lemma elementwise_same_shape:
  assumes "shape0 A = shape0 B" "shape1 A = shape1 B"
  shows "elementwise f A B = Inr (zip_array f A B)"
proof -
  have "tabulate (shape0 B) (shape1 B)
          (\<lambda>i j. f (entry A (bidx (shape0 B) i) (bidx (shape1 B) j))
                   (entry B (bidx (shape0 B) i) (bidx (shape1 B) j)))
        = tabulate (shape0 B) (shape1 B) (\<lambda>i j. f (entry A i j) (entry B i j))"
    by (rule tabulate_cong) (auto simp: bidx_def)
  then show ?thesis using assms by (simp add: elementwise_def bdim_def zip_array_def)
qed

lemma iadd_same_shape:
  "shape0 A = shape0 B \<Longrightarrow> shape1 A = shape1 B \<Longrightarrow> iadd A B = Inr (zip_array (+) A B)"
  by (simp add: iadd_def elementwise_same_shape)

lemma shape_map_array [simp]:
  "shape0 (map_array f A) = shape0 A" "shape1 (map_array f A) = shape1 A"
  "wf_array (map_array f A) = wf_array A"
  by (simp_all add: map_array_def wf_array_def)

lemma entry_map_array:
  "wf_array A \<Longrightarrow> i < shape0 A \<Longrightarrow> j < shape1 A \<Longrightarrow>
     entry (map_array f A) i j = f (entry A i j)"
  using index_lt [of i "shape0 A" j "shape1 A"]
  by (simp add: map_array_def entry_def wf_array_def)

lemma shape_scale [simp]:
  "shape0 (scale z A) = shape0 A" "shape1 (scale z A) = shape1 A"
  "wf_array (scale z A) = wf_array A"
  by (simp_all add: scale_def)

lemma entry_scale:
  "wf_array A \<Longrightarrow> i < shape0 A \<Longrightarrow> j < shape1 A \<Longrightarrow> entry (scale z A) i j = z * entry A i j"
  by (simp add: scale_def entry_map_array)

lemma shape_comm [simp]:
  "shape0 (comm A B) = shape0 A" "shape1 (comm A B) = shape1 B" "wf_array (comm A B)"
  by (simp_all add: comm_def)

lemma square_simps [simp]:
  "square n (mat_mul A B) \<longleftrightarrow> shape0 A = n \<and> shape1 B = n"
  "square n (dag A) \<longleftrightarrow> shape1 A = n \<and> shape0 A = n"
  "square n (zip_array f A' B') \<longleftrightarrow> square n A'"
  "square n (map_array g A'') \<longleftrightarrow> square n A''"
  "square n (scale z A''') \<longleftrightarrow> square n A'''"
  "square n (comm A B) \<longleftrightarrow> shape0 A = n \<and> shape1 B = n"
  "square n (tabulate r c h) \<longleftrightarrow> r = n \<and> c = n"
  by (auto simp: square_def)

lemma square_np_diag [simp]: "square n (np_diag v) \<longleftrightarrow> length v = n"
  by (auto simp: np_diag_def)

lemma commutator_square:
  assumes "square n A" "square n B"
  shows "commutator A B = Inr (comm A B)"
  using assms
  by (simp add: commutator_def comm_def square_def np_dot_mat_mul elementwise_same_shape)

lemma ham_commutator_eig:
  assumes "length (ev h) = n" "square n rho"
  shows "ham_commutator h rho True = Inr (eig_comm (ev h) rho)"
proof -
  have d: "square n (np_diag (ev h))" using assms(1) by simp
  then show ?thesis using assms(2)
    by (simp add: ham_commutator_def eig_comm_def comm_def square_def np_dot_mat_mul
        elementwise_same_shape)
qed

lemma rf_term_square:
  assumes "square n Ej" "square n Cj" "square n rho"
  shows "rf_term hbar Ej Cj rho
         = Inr (map_array (\<lambda>x. x / complex_of_real (hbar ^ 2)) (bath_term Ej Cj rho))"
proof -
  have 1: "np_dot Ej rho = Inr (mat_mul Ej rho)" "np_dot rho (dag Ej) = Inr (mat_mul rho (dag Ej))"
    using assms by (simp_all add: square_def np_dot_mat_mul)
  have 2: "commutator (mat_mul Ej rho) Cj = Inr (comm (mat_mul Ej rho) Cj)"
    "commutator Cj (mat_mul rho (dag Ej)) = Inr (comm Cj (mat_mul rho (dag Ej)))"
    using assms by (simp_all add: commutator_square [of n] square_def)
  have 3: "elementwise (+) (comm (mat_mul Ej rho) Cj) (comm Cj (mat_mul rho (dag Ej)))
           = Inr (bath_term Ej Cj rho)"
    using assms by (simp add: elementwise_same_shape bath_term_def square_def)
  show ?thesis by (simp add: rf_term_def 1 2 3)
qed

lemma square_bath_term [simp]:
  "square n (bath_term Ej Cj rho) \<longleftrightarrow> shape0 Ej = n \<and> shape1 Cj = n"
  by (simp add: bath_term_def)

lemma shape_bath_term [simp]:
  "shape0 (bath_term Ej Cj rho) = shape0 Ej" "shape1 (bath_term Ej Cj rho) = shape1 Cj"
  "wf_array (bath_term Ej Cj rho)"
  by (simp_all add: bath_term_def)

lemma shape_np_diag [simp]:
  "shape0 (np_diag v) = length v" "shape1 (np_diag v) = length v" "wf_array (np_diag v)"
  by (simp_all add: np_diag_def)

lemma sum_loop:
  fixes T :: "nat \<Rightarrow> complex ndarray"
  assumes body: "\<And>j dy. j < m \<Longrightarrow> square n dy \<Longrightarrow> wf_array dy
                  \<Longrightarrow> body j dy = Inr (zip_array (+) dy (T j))"
    and D: "square n D" "wf_array D"
  shows "for_each [0..<m] body D
         = Inr (tabulate n n (\<lambda>a b. entry D a b + (\<Sum>k<m. entry (T k) a b)))"
proof -
  let ?I = "\<lambda>j dy. dy = tabulate n n (\<lambda>a b. entry D a b + (\<Sum>k<j. entry (T k) a b))"
  have "\<exists>t. for_each [0..<m] body D = Inr t \<and> ?I m t"
  proof (rule for_each_upt_total [where I = ?I])
    show "?I 0 D" using D by (intro tabulate_eqI) (simp_all add: square_def)
  next
    fix j dy
    assume j: "j < m" and dy: "?I j dy"
    then have sq: "square n dy" "wf_array dy" by simp_all
    have "zip_array (+) dy (T j) = tabulate n n (\<lambda>a b. entry D a b + (\<Sum>k<Suc j. entry (T k) a b))"
      using sq(1) by (intro tabulate_eqI) (simp_all add: square_def entry_zip_array dy)
    then show "\<exists>t'. body j dy = Inr t' \<and> ?I (Suc j) t'"
      using body [OF j sq] by simp
  qed
  then show ?thesis by auto
qed

lemma rhs_loop:
  assumes body: "\<And>j dy. j < length Cs \<Longrightarrow> square n dy \<Longrightarrow> wf_array dy
                  \<Longrightarrow> body j dy = bind_err (rf_term hb (Es ! j) (Cs ! j) rho) (iadd dy)"
    and sq: "\<And>j. j < length Cs \<Longrightarrow> square n (Es ! j) \<and> square n (Cs ! j)"
    and rho: "square n rho" and n: "length evs = n"
  shows "for_each [0..<length Cs] body (scale (- \<i> / complex_of_real hb) (eig_comm evs rho))
         = Inr (redfield_rhs hb evs Cs Es rho)"
proof -
  let ?T = "\<lambda>j. map_array (\<lambda>x. x / complex_of_real (hb ^ 2)) (bath_term (Es ! j) (Cs ! j) rho)"
  let ?D = "scale (- \<i> / complex_of_real hb) (eig_comm evs rho)"
  have D: "square n ?D" "wf_array ?D"
    using rho n by (simp_all add: eig_comm_def square_def)
  have T: "square n (?T j)" if "j < length Cs" for j
    using sq [OF that] by (simp add: square_def)
  have b: "body j dy = Inr (zip_array (+) dy (?T j))"
    if "j < length Cs" "square n dy" "wf_array dy" for j dy
    using body [OF that] sq [OF that(1)] rho T [OF that(1)] that(2)
    by (simp add: rf_term_square [of n] iadd_same_shape square_def)
  have "for_each [0..<length Cs] body ?D
        = Inr (tabulate n n (\<lambda>a b. entry ?D a b + (\<Sum>k<length Cs. entry (?T k) a b)))"
    by (rule sum_loop [OF b D])
  also have "tabulate n n (\<lambda>a b. entry ?D a b + (\<Sum>k<length Cs. entry (?T k) a b))
           = redfield_rhs hb evs Cs Es rho"
    unfolding redfield_rhs_def n
  proof (rule tabulate_cong)
    fix a b assume ab: "a < n" "b < n"
    have 1: "entry (scale z (eig_comm evs rho)) a b = z * entry (eig_comm evs rho) a b" for z
      using ab rho n by (simp add: entry_scale eig_comm_def square_def)
    have 2: "entry (?T k) a b = entry (bath_term (Es ! k) (Cs ! k) rho) a b / (complex_of_real hb)\<^sup>2"
      if "k < length Cs" for k
      using sq [OF that] ab by (simp add: entry_map_array bath_term_def square_def)
    show "entry ?D a b + (\<Sum>k<length Cs. entry (?T k) a b)
        = - (\<i> / complex_of_real hb) * entry (eig_comm evs rho) a b
          + (\<Sum>k<length Cs. entry (bath_term (Es ! k) (Cs ! k) rho) a b) / (complex_of_real hb)\<^sup>2"
      using 2 by (simp add: 1 sum_divide_distrib)
  qed
  finally show ?thesis .
qed

lemma rf_eom_rhs:
  assumes "hbar_const env \<noteq> 0"
    and "baths (rf_ham eng) = Some bs" "length (rf_C eng) = length bs"
    and "length (ev (rf_ham eng)) = n" "square n rho"
    and "\<forall>k<length bs. square n (rf_C eng ! k)"
    and "length (rf_E eng) = length bs" "\<forall>k<length bs. square n (rf_E eng ! k)"
  shows "rf_eom env eng rho stage
         = Inr (redfield_rhs (hbar_const env) (ev (rf_ham eng)) (rf_C eng) (rf_E eng) rho)"
proof -
  let ?body = "\<lambda>j dy.
                bind_err (get_item (rf_E eng) j) (\<lambda>Ej.
                bind_err (get_item (rf_C eng) j) (\<lambda>Cj.
                bind_err (rf_term (hbar_const env) Ej Cj rho) (iadd dy)))"
  have "for_each [0..<length (rf_C eng)] ?body
          (scale (- \<i> / complex_of_real (hbar_const env)) (eig_comm (ev (rf_ham eng)) rho))
        = Inr (redfield_rhs (hbar_const env) (ev (rf_ham eng)) (rf_C eng) (rf_E eng) rho)"
    using assms by (intro rhs_loop [where n = n]) simp_all
  then show ?thesis
    using assms by (simp add: rf_eom_def ham_commutator_eig [of _ n])
qed

lemma td_rf_eom_rhs:
  assumes "hbar_const env \<noteq> 0"
    and "baths (rf_ham eng) = Some bs" "length (rf_C eng) = length bs"
    and "length (ev (rf_ham eng)) = n" "square n rho"
    and "\<forall>k<length bs. square n (rf_C eng ! k)"
    and "length (rf_E_td eng) = length bs"
    and "\<forall>k<length bs. stage < length (rf_E_td eng ! k) \<and> square n (rf_E_td eng ! k ! stage)"
  shows "td_rf_eom env eng rho stage
         = Inr (redfield_rhs (hbar_const env) (ev (rf_ham eng)) (rf_C eng)
                  (map (\<lambda>Es. Es ! stage) (rf_E_td eng)) rho)"
proof -
  let ?body = "\<lambda>j dy.
                bind_err (get_item (rf_E_td eng) j) (\<lambda>Es.
                bind_err (get_item Es stage) (\<lambda>Ej.
                bind_err (get_item (rf_C eng) j) (\<lambda>Cj.
                bind_err (rf_term (hbar_const env) Ej Cj rho) (iadd dy))))"
  have "for_each [0..<length (rf_C eng)] ?body
          (scale (- \<i> / complex_of_real (hbar_const env)) (eig_comm (ev (rf_ham eng)) rho))
        = Inr (redfield_rhs (hbar_const env) (ev (rf_ham eng)) (rf_C eng)
                 (map (\<lambda>Es. Es ! stage) (rf_E_td eng)) rho)"
    using assms by (intro rhs_loop [where n = n]) simp_all
  then show ?thesis
    using assms by (simp add: td_rf_eom_def ham_commutator_eig [of _ n])
qed

text \<open>
  Claim C1.  For a state \<open>\<rho>\<close> of shape \<open>N \<times> N\<close>, coupling and dressed operators of shape
  \<open>N \<times> N\<close>, one of each per bath, and \<open>hbar \<noteq> 0\<close>, \<open>rf_eom\<close> returns
  \<open>-(i/hbar) [H, \<rho>] + (\<Sum>k. [E\<^sub>k \<rho>, C\<^sub>k] + [C\<^sub>k, \<rho> E\<^sub>k\<^sup>\<dagger>]) / hbar\<^sup>2\<close> with the commutator
  \<open>[H, \<rho>]\<close> taken with the diagonal matrix of the eigenvalues, and \<open>td_rf_eom\<close> returns
  the same expression with the dressed operator of each bath selected by the stage index.
\<close>

theorem redfield_equation_of_motion:
  assumes "hbar_const env \<noteq> 0"
    and "baths (rf_ham eng) = Some bs" "length (rf_C eng) = length bs"
    and "length (ev (rf_ham eng)) = n" "square n rho"
    and "\<forall>k<length bs. square n (rf_C eng ! k)"
  shows "(length (rf_E eng) = length bs \<and> (\<forall>k<length bs. square n (rf_E eng ! k)) \<longrightarrow>
            rf_eom env eng rho stage
            = Inr (redfield_rhs (hbar_const env) (ev (rf_ham eng)) (rf_C eng) (rf_E eng) rho))
       \<and> (length (rf_E_td eng) = length bs
          \<and> (\<forall>k<length bs. stage < length (rf_E_td eng ! k)
                \<and> square n (rf_E_td eng ! k ! stage)) \<longrightarrow>
            td_rf_eom env eng rho stage
            = Inr (redfield_rhs (hbar_const env) (ev (rf_ham eng)) (rf_C eng)
                     (map (\<lambda>Es. Es ! stage) (rf_E_td eng)) rho))"
  using rf_eom_rhs [OF assms] td_rf_eom_rhs [OF assms] by blast

theorem redfield_equation_of_motion_witness:
  "hbar_const ex_env \<noteq> 0
   \<and> baths (rf_ham ex_engine) = Some [ex_bath] \<and> length (rf_C ex_engine) = length [ex_bath]
   \<and> length (ev (rf_ham ex_engine)) = 2 \<and> square 2 (NDArray 2 2 [1, 0, 0, 0 :: complex])
   \<and> square 2 (rf_C ex_engine ! 0)
   \<and> length (rf_E ex_engine) = length [ex_bath]
   \<and> square 2 (rf_E ex_engine ! 0)
   \<and> rf_eom ex_env ex_engine (NDArray 2 2 [1, 0, 0, 0]) 0 = Inr (NDArray 2 2 [4, 0, 0, - 4])
   \<and> redfield_rhs (hbar_const ex_env) (ev (rf_ham ex_engine)) (rf_C ex_engine) (rf_E ex_engine)
        (NDArray 2 2 [1, 0, 0, 0]) = NDArray 2 2 [4, 0, 0, - 4]
   \<and> baths (rf_ham ex_td2) = Some [ex_bath3] \<and> length (rf_C ex_td2) = length [ex_bath3]
   \<and> length (ev (rf_ham ex_td2)) = 2
   \<and> square 2 (rf_C ex_td2 ! 0)
   \<and> length (rf_E_td ex_td2) = length [ex_bath3]
   \<and> 1 < length (rf_E_td ex_td2 ! 0) \<and> square 2 (rf_E_td ex_td2 ! 0 ! 1)
   \<and> td_rf_eom ex_env ex_td2 (NDArray 2 2 [1, 0, 0, 0]) 1 = Inr (NDArray 2 2 [- 3, 0, 0, 3])
   \<and> redfield_rhs (hbar_const ex_env) (ev (rf_ham ex_td2)) (rf_C ex_td2)
        (map (\<lambda>Es. Es ! 1) (rf_E_td ex_td2)) (NDArray 2 2 [1, 0, 0, 0])
       = NDArray 2 2 [- 3, 0, 0, 3]"
proof -
  have h: "hbar_const ex_env \<noteq> 0" by (simp add: ex_env_def)
  have rho: "square 2 (NDArray 2 2 [1, 0, 0, 0 :: complex])" by (simp add: square_def)
  have a: "baths (rf_ham ex_engine) = Some [ex_bath]" "length (rf_C ex_engine) = length [ex_bath]"
    "length (ev (rf_ham ex_engine)) = 2" "\<forall>k<length [ex_bath]. square 2 (rf_C ex_engine ! k)"
    "length (rf_E ex_engine) = length [ex_bath]" "\<forall>k<length [ex_bath]. square 2 (rf_E ex_engine ! k)"
    by (simp_all add: ex_engine_def ex_ham2_def ex_ham1_def square_def)
  have b: "baths (rf_ham ex_td2) = Some [ex_bath3]" "length (rf_C ex_td2) = length [ex_bath3]"
    "length (ev (rf_ham ex_td2)) = 2" "\<forall>k<length [ex_bath3]. square 2 (rf_C ex_td2 ! k)"
    "length (rf_E_td ex_td2) = length [ex_bath3]"
    "\<forall>k<length [ex_bath3]. 1 < length (rf_E_td ex_td2 ! k) \<and> square 2 (rf_E_td ex_td2 ! k ! 1)"
    by (simp_all add: ex_td2_def ex_td1_def ex_td0_def ex_ham3_def square_def)
  have v1: "rf_eom ex_env ex_engine (NDArray 2 2 [1, 0, 0, 0]) 0 = Inr (NDArray 2 2 [4, 0, 0, - 4])"
    by (simp add: rf_eom_def ex_env_def ex_engine_def ex_ham2_def ex_ham1_def ex_bath_def
        ham_commutator_def rf_term_def array_eval cong: bind_err_weak_cong for_each_weak_cong)
  have v2: "td_rf_eom ex_env ex_td2 (NDArray 2 2 [1, 0, 0, 0]) 1 = Inr (NDArray 2 2 [- 3, 0, 0, 3])"
    by (simp add: td_rf_eom_def ex_env_def ex_td0_def ex_td1_def ex_td2_def ex_ham3_def
        ex_bath3_def ham_commutator_def rf_term_def array_eval
        cong: bind_err_weak_cong for_each_weak_cong)
  from redfield_equation_of_motion [OF h a(1-3) rho a(4), of 0] a(5,6) v1
  have r1: "redfield_rhs (hbar_const ex_env) (ev (rf_ham ex_engine)) (rf_C ex_engine)
              (rf_E ex_engine) (NDArray 2 2 [1, 0, 0, 0]) = NDArray 2 2 [4, 0, 0, - 4]"
    by simp
  from redfield_equation_of_motion [OF h b(1-3) rho b(4), of 1] b(5,6) v2
  have r2: "redfield_rhs (hbar_const ex_env) (ev (rf_ham ex_td2)) (rf_C ex_td2)
              (map (\<lambda>Es. Es ! 1) (rf_E_td ex_td2)) (NDArray 2 2 [1, 0, 0, 0])
            = NDArray 2 2 [- 3, 0, 0, 3]"
    by simp
  show ?thesis using h rho a b v1 v2 r1 r2 by simp
qed

section \<open>The time-independent setup\<close>

lemma for_each_fold:
  "(\<And>x s. x \<in> set xs \<Longrightarrow> body x s = Inr (g x s)) \<Longrightarrow> for_each xs body s = Inr (fold g xs s)"
  by (induction xs arbitrary: s) simp_all

lemma make_theta_plus_eq:
  assumes "nstates h \<le> shape0 (omegas h)" "nstates h \<le> shape1 (omegas h)"
  shows "make_theta_plus h bth = Inr (theta_plus_ft h bth)"
  unfolding make_theta_plus_def theta_plus_ft_def
  using assms by (intro fill_loops) (simp add: get_entry_def)

lemma shape_theta_plus_ft [simp]:
  "shape0 (theta_plus_ft h bth) = nstates h" "shape1 (theta_plus_ft h bth) = nstates h"
  by (simp_all add: theta_plus_ft_def)

lemma shape_coupling_eig [simp]:
  "shape0 (coupling_eig h bth) = shape1 (ek h)" "shape1 (coupling_eig h bth) = shape1 (ek h)"
  by (simp_all add: coupling_eig_def)

lemma to_eigenbasis_coupling:
  assumes "square n (ek h)" "square n (c_op bth)"
  shows "to_eigenbasis h (c_op bth) = Inr (coupling_eig h bth)"
  using assms by (simp add: to_eigenbasis_matrix coupling_eig_def square_def is_matrix_def)

lemma fold_append_operators:
  "fold (\<lambda>bth s. s\<lparr>rf_C := rf_C s @ [c bth], rf_E := rf_E s @ [e bth]\<rparr>) bs s0
   = s0\<lparr>rf_C := rf_C s0 @ map c bs, rf_E := rf_E s0 @ map e bs\<rparr>"
  by (induction bs arbitrary: s0) simp_all

text \<open>
  Claim C4.  With coupling operators, eigenvectors and frequencies of shape \<open>N \<times> N\<close>,
  \<open>make_redfield_operators\<close> stores for every bath, in the order of the baths, the
  coupling operator in the eigenbasis \<open>C\<^sub>k = to_eigenbasis(c_op)\<close> and the dressed operator
  \<open>E\<^sub>k = C\<^sub>k * theta_plus\<close> (elementwise) with
  \<open>theta_plus[i,j] = ft_bath_corr(-omegas[i,j])\<close>, and changes no other attribute.
\<close>

theorem make_redfield_operators_correct:
  assumes "baths (rf_ham eng) = Some bs" "nstates (rf_ham eng) = n"
    and "square n (omegas (rf_ham eng))" "square n (ek (rf_ham eng))"
    and "\<forall>bth\<in>set bs. square n (c_op bth)"
  shows "make_redfield_operators eng
         = Inr (eng\<lparr>rf_C := map (coupling_eig (rf_ham eng)) bs,
                    rf_E := map (\<lambda>bth. zip_array (*) (coupling_eig (rf_ham eng) bth)
                                          (theta_plus_ft (rf_ham eng) bth)) bs\<rparr>)
       \<and> (\<forall>bth\<in>set bs. to_eigenbasis (rf_ham eng) (c_op bth) = Inr (coupling_eig (rf_ham eng) bth)
            \<and> elementwise (*) (coupling_eig (rf_ham eng) bth) (theta_plus_ft (rf_ham eng) bth)
              = Inr (zip_array (*) (coupling_eig (rf_ham eng) bth)
                       (theta_plus_ft (rf_ham eng) bth)))"
proof -
  let ?h = "rf_ham eng"
  let ?c = "coupling_eig ?h"
  let ?e = "\<lambda>bth. zip_array (*) (?c bth) (theta_plus_ft ?h bth)"
  have th: "make_theta_plus ?h bth = Inr (theta_plus_ft ?h bth)" for bth
    using assms(2,3) by (intro make_theta_plus_eq) (simp_all add: square_def)
  have c: "to_eigenbasis ?h (c_op bth) = Inr (?c bth)" if "bth \<in> set bs" for bth
    using that assms(4,5) by (intro to_eigenbasis_coupling [of n]) auto
  have e: "elementwise (*) (?c bth) (theta_plus_ft ?h bth) = Inr (?e bth)" for bth
    using assms(2,4) by (intro elementwise_same_shape) (simp_all add: square_def)
  have "for_each bs (\<lambda>bth s.
            bind_err (to_eigenbasis ?h (c_op bth)) (\<lambda>Ga.
            bind_err (make_theta_plus ?h bth) (\<lambda>theta_plus.
            bind_err (elementwise (*) Ga theta_plus) (\<lambda>Ga_plus.
              Inr (s\<lparr>rf_C := rf_C s @ [Ga], rf_E := rf_E s @ [Ga_plus]\<rparr>)))))
            (eng\<lparr>rf_C := [], rf_E := []\<rparr>)
        = Inr (fold (\<lambda>bth s. s\<lparr>rf_C := rf_C s @ [?c bth], rf_E := rf_E s @ [?e bth]\<rparr>) bs
                 (eng\<lparr>rf_C := [], rf_E := []\<rparr>))"
    by (rule for_each_fold) (simp add: c th e)
  then have "make_redfield_operators eng = Inr (eng\<lparr>rf_C := map ?c bs, rf_E := map ?e bs\<rparr>)"
    using assms(1) by (simp add: make_redfield_operators_def fold_append_operators)
  then show ?thesis using c e by simp
qed

theorem make_redfield_operators_correct_witness:
  "baths (rf_ham (Redfield_init ex_env ex_ham2 False False)) = Some [ex_bath]
   \<and> nstates (rf_ham (Redfield_init ex_env ex_ham2 False False)) = 2
   \<and> square 2 (omegas (rf_ham (Redfield_init ex_env ex_ham2 False False)))
   \<and> square 2 (ek (rf_ham (Redfield_init ex_env ex_ham2 False False)))
   \<and> square 2 (c_op ex_bath)
   \<and> make_redfield_operators (Redfield_init ex_env ex_ham2 False False)
       = Inr ((Redfield_init ex_env ex_ham2 False False)
                \<lparr>rf_C := [NDArray 2 2 [0, 1, 1, 0]], rf_E := [NDArray 2 2 [0, 2, - 2, 0]]\<rparr>)
   \<and> coupling_eig ex_ham2 ex_bath = NDArray 2 2 [0, 1, 1, 0]
   \<and> theta_plus_ft ex_ham2 ex_bath = NDArray 2 2 [0, 2, - 2, 0]
   \<and> to_eigenbasis ex_ham2 (c_op ex_bath) = Inr (NDArray 2 2 [0, 1, 1, 0])"
proof -
  let ?e = "Redfield_init ex_env ex_ham2 False False"
  have h: "baths (rf_ham ?e) = Some [ex_bath]" "nstates (rf_ham ?e) = 2"
    "square 2 (omegas (rf_ham ?e))" "square 2 (ek (rf_ham ?e))"
    by (simp_all add: Redfield_init_def ex_ham2_def ex_ham1_def square_def)
  have b: "square 2 (c_op ex_bath)" by (simp add: ex_bath_def square_def)
  then have b': "\<forall>bth\<in>set [ex_bath]. square 2 (c_op bth)" by simp
  have r: "rf_ham ?e = ex_ham2" by (simp add: Redfield_init_def)
  have c: "coupling_eig ex_ham2 ex_bath = NDArray 2 2 [0, 1, 1, 0]"
    by (simp add: coupling_eig_def mat_mul_def ex_ham2_def ex_ham1_def ex_bath_def array_eval
        mult.left_commute [of \<i>] sum.lessThan_Suc numeral_2_eq_2)
  have t: "theta_plus_ft ex_ham2 ex_bath = NDArray 2 2 [0, 2, - 2, 0]"
    by (simp add: theta_plus_ft_def ex_ham2_def ex_ham1_def ex_bath_def array_eval)
  have z: "zip_array (*) (NDArray 2 2 [0, 1, 1, 0]) (NDArray 2 2 [0, 2, - 2, 0 :: complex])
           = NDArray 2 2 [0, 2, - 2, 0]"
    by (simp add: zip_array_def array_eval)
  show ?thesis
    using make_redfield_operators_correct [OF h b'] h b by (simp add: r c t z)
qed

section \<open>The time-dependent setup\<close>

lemma for_each_map: "for_each (map f ks) body s = for_each ks (\<lambda>k. body (f k)) s"
proof (induction ks arbitrary: s)
  case Nil
  show ?case by simp
next
  case (Cons a ks)
  show ?case by (cases "body (f a) s") (simp_all add: Cons.IH)
qed

lemma for_each_nth: "for_each xs body s = for_each [0..<length xs] (\<lambda>k. body (xs ! k)) s"
  using for_each_map [of "(!) xs" "[0..<length xs]" body s] by (simp add: map_nth)

lemma for_each_enumerate:
  "for_each (enumerate 0 bs) body s = for_each [0..<length bs] (\<lambda>k. body (k, bs ! k)) s"
proof -
  have "enumerate 0 bs = map (\<lambda>k. (k, bs ! k)) [0..<length bs]"
    by (rule nth_equalityI) (simp_all add: nth_enumerate_eq)
  then show ?thesis by (simp add: for_each_map)
qed

lemma partial_stages_length [simp]: "length (partial_stages G bs m op k) = length bs"
  by (simp add: partial_stages_def)

lemma partial_stages_nth:
  "i < length bs \<Longrightarrow> partial_stages G bs m op k ! i
     = map (G (bs ! i)) [0..<(if i < op then m else if i = op then k else 0)]"
  by (simp add: partial_stages_def)

lemma partial_stages_start: "partial_stages G bs m 0 0 = replicate (length bs) []"
  by (rule nth_equalityI) (simp_all add: partial_stages_nth)

lemma partial_stages_next: "partial_stages G bs m op m = partial_stages G bs m (Suc op) 0"
  by (rule nth_equalityI) (auto simp: partial_stages_nth less_Suc_eq)

lemma partial_stages_full:
  "partial_stages G bs m (length bs) k = map (\<lambda>bth. map (G bth) [0..<m]) bs"
  by (rule nth_equalityI) (simp_all add: partial_stages_nth)

lemma partial_stages_append:
  assumes "op < length bs"
  shows "append_at (partial_stages G bs m op k) op (G (bs ! op) k)
         = Inr (partial_stages G bs m op (Suc k))"
proof -
  have "(partial_stages G bs m op k)[op := map (G (bs ! op)) [0..<k] @ [G (bs ! op) k]]
        = partial_stages G bs m op (Suc k)"
    by (rule nth_equalityI) (auto simp: partial_stages_nth nth_list_update)
  then show ?thesis
    using assms by (simp add: append_at_def get_item_def set_item_def partial_stages_nth)
qed

lemma partial_stages_get:
  assumes "op < length bs" "j < k"
  shows "get_item (partial_stages G bs m op k) op = Inr (map (G (bs ! op)) [0..<k])"
    and "get_item (map (G (bs ! op)) [0..<k]) j = Inr (G (bs ! op) j)"
  using assms by (simp_all add: get_item_def partial_stages_nth)

lemma shape_theta_plus_t [simp]:
  "shape0 (theta_plus_t h bth t) = shape0 (omegas h)"
  "shape1 (theta_plus_t h bth t) = shape1 (omegas h)"
  by (simp_all add: theta_plus_t_def)

lemma shape_np_zeros [simp]: "shape0 (np_zeros r c) = r" "shape1 (np_zeros r c) = c"
  "wf_array (np_zeros r c)"
  by (simp_all add: np_zeros_def)

lemma shape_trap_gamma [simp]:
  "shape0 (trap_gamma g0 th c k) = shape0 g0" "shape1 (trap_gamma g0 th c k) = shape1 g0"
  by (induction k) simp_all

lemma trapezoid_same_shape:
  assumes "square n g" "square n th" "square n g1"
  shows "trapezoid g c th g1
         = Inr (zip_array (+) g (scale (complex_of_real c) (zip_array (+) th g1)))"
  using assms by (simp add: trapezoid_def elementwise_same_shape square_def)

lemma square_seed [simp]:
  "square n (omegas h) \<Longrightarrow> square n (seed_theta h bth b dt k)"
  "nstates h = n \<Longrightarrow> square n (seed_gamma h bth b dt k)"
  by (simp_all add: seed_theta_def seed_gamma_def square_def)

lemma seed_gamma_simps:
  "seed_gamma h bth b dt 0 = np_zeros (nstates h) (nstates h)"
  "seed_gamma h bth b dt (Suc k)
   = zip_array (+) (seed_gamma h bth b dt k)
       (scale (complex_of_real (0.5 * (b ! Suc k - b ! k) * dt))
          (zip_array (+) (theta_plus_t h bth (b ! Suc k * dt)) (seed_theta h bth b dt k)))"
  by (simp_all add: seed_gamma_def seed_theta_def trap_weight_def)

lemma replicate_update_same: "(replicate n x)[k := x] = replicate n x"
  by (induction n arbitrary: k) (simp_all split: nat.split)

lemma square_theta_plus_t [simp]:
  "square n (omegas h) \<Longrightarrow> square n (theta_plus_t h bth t)"
  by (simp add: square_def)

lemma setup_stage_step:
  assumes s: "rf_ham s = h" "rf_dt s = dt" "ode_b (rf_ode s) = b"
    and g: "gamma_n s = partial_stages (\<lambda>bth. seed_gamma h bth b dt) bs m op k"
           "gamma_n_1 s = partial_stages (\<lambda>bth. seed_theta h bth b dt) bs m op k"
    and op: "op < length bs" and k: "k < m" "m \<le> length b"
    and n: "nstates h = n" "square n (omegas h)"
  shows "setup_stage (bs ! op) op k s
         = Inr (s\<lparr>gamma_n := partial_stages (\<lambda>bth. seed_gamma h bth b dt) bs m op (Suc k),
                  gamma_n_1 := partial_stages (\<lambda>bth. seed_theta h bth b dt) bs m op (Suc k)\<rparr>)"
proof -
  let ?G = "\<lambda>bth. seed_gamma h bth b dt" and ?T = "\<lambda>bth. seed_theta h bth b dt"
  have bk: "get_item b k = Inr (b ! k)" using k by (simp add: get_item_def)
  have ag: "append_at (partial_stages ?G bs m op k) op (?G (bs ! op) k)
            = Inr (partial_stages ?G bs m op (Suc k))"
    using op by (rule partial_stages_append)
  have at: "append_at (partial_stages ?T bs m op k) op (?T (bs ! op) k)
            = Inr (partial_stages ?T bs m op (Suc k))"
    using op by (rule partial_stages_append)
  show ?thesis
  proof (cases k)
    case 0
    have "?G (bs ! op) 0 = np_zeros (nstates h) (nstates h)"
      "?T (bs ! op) 0 = theta_plus_t h (bs ! op) 0"
      by (simp_all add: seed_gamma_simps seed_theta_def)
    moreover have "get_item b 0 = Inr (b ! 0)" using bk 0 by simp
    ultimately show ?thesis using ag at 0 by (simp add: setup_stage_def s g)
  next
    case (Suc j)
    have j: "j < k" "j < length b" using Suc k by simp_all
    have 1: "get_item (partial_stages ?G bs m op k) op = Inr (map (?G (bs ! op)) [0..<k])"
      "get_item (map (?G (bs ! op)) [0..<k]) j = Inr (?G (bs ! op) j)"
      "get_item (partial_stages ?T bs m op k) op = Inr (map (?T (bs ! op)) [0..<k])"
      "get_item (map (?T (bs ! op)) [0..<k]) j = Inr (?T (bs ! op) j)"
      using op j(1) by (simp_all add: get_item_def partial_stages_nth)
    have 2: "get_item b j = Inr (b ! j)" using j by (simp add: get_item_def)
    have th: "?T (bs ! op) k = theta_plus_t h (bs ! op) (b ! k * dt)"
      using Suc by (simp add: seed_theta_def)
    have 3: "trapezoid (?G (bs ! op) j) c (theta_plus_t h (bs ! op) (b ! k * dt)) (?T (bs ! op) j)
             = Inr (zip_array (+) (?G (bs ! op) j)
                     (scale (complex_of_real c)
                        (zip_array (+) (theta_plus_t h (bs ! op) (b ! k * dt))
                           (?T (bs ! op) j))))" for c
      by (rule trapezoid_same_shape [of n]) (use n in simp_all)
    have G: "?G (bs ! op) k
            = zip_array (+) (?G (bs ! op) j)
                     (scale (complex_of_real (0.5 * (b ! k - b ! j) * dt))
                        (zip_array (+) (theta_plus_t h (bs ! op) (b ! k * dt))
                           (?T (bs ! op) j)))"
      unfolding Suc by (rule seed_gamma_simps(2))
    have km: "k - Suc 0 = j" "k \<noteq> 0" using Suc by simp_all
    show ?thesis
      using ag at by (simp add: setup_stage_def s g bk km 1 2 3 th G)
  qed
qed

lemma setup_stage_loop:
  assumes s: "rf_ham s = h" "rf_dt s = dt" "ode_b (rf_ode s) = b"
    and g: "gamma_n s = partial_stages (\<lambda>bth. seed_gamma h bth b dt) bs m op 0"
           "gamma_n_1 s = partial_stages (\<lambda>bth. seed_theta h bth b dt) bs m op 0"
    and op: "op < length bs" and m: "m \<le> length b"
    and n: "nstates h = n" "square n (omegas h)"
  shows "for_each [0..<m] (setup_stage (bs ! op) op) s
         = Inr (s\<lparr>gamma_n := partial_stages (\<lambda>bth. seed_gamma h bth b dt) bs m (Suc op) 0,
                  gamma_n_1 := partial_stages (\<lambda>bth. seed_theta h bth b dt) bs m (Suc op) 0\<rparr>)"
proof -
  let ?st = "\<lambda>k. s\<lparr>gamma_n := partial_stages (\<lambda>bth. seed_gamma h bth b dt) bs m op k,
                  gamma_n_1 := partial_stages (\<lambda>bth. seed_theta h bth b dt) bs m op k\<rparr>"
  have "\<exists>t. for_each [0..<m] (setup_stage (bs ! op) op) s = Inr t \<and> t = ?st m"
  proof (rule for_each_upt_total [where I = "\<lambda>k t. t = ?st k"])
    show "s = ?st 0" using g by simp
  next
    fix k t assume k: "k < m" and t: "t = ?st k"
    have "setup_stage (bs ! op) op k (?st k) = Inr (?st (Suc k))"
      using setup_stage_step [of "?st k" h dt b bs m op k n] s op k m n by simp
    then show "\<exists>t'. setup_stage (bs ! op) op k t = Inr t' \<and> t' = ?st (Suc k)"
      using t by simp
  qed
  then show ?thesis by (simp add: partial_stages_next)
qed

lemma coupling_first_loop:
  assumes "square n (ek h)" "\<forall>bth\<in>set bs. square n (c_op bth)"
  shows "for_each (enumerate 0 bs) (\<lambda>(op, bth) s.
           bind_err (to_eigenbasis h (c_op bth)) (\<lambda>Ga.
           bind_err (set_item (gamma_n s) op []) (\<lambda>g.
           bind_err (set_item (gamma_n_1 s) op []) (\<lambda>g1.
             Inr (s\<lparr>rf_C := rf_C s @ [Ga], gamma_n := g, gamma_n_1 := g1\<rparr>)))))
           (eng\<lparr>rf_C := [], gamma_n := replicate (length bs) [],
                gamma_n_1 := replicate (length bs) []\<rparr>)
         = Inr (eng\<lparr>rf_C := map (coupling_eig h) bs, gamma_n := replicate (length bs) [],
                    gamma_n_1 := replicate (length bs) []\<rparr>)"
proof -
  let ?st = "\<lambda>k. eng\<lparr>rf_C := map (coupling_eig h) (take k bs),
                     gamma_n := replicate (length bs) [], gamma_n_1 := replicate (length bs) []\<rparr>"
  let ?body = "\<lambda>k s.
           bind_err (to_eigenbasis h (c_op (bs ! k))) (\<lambda>Ga.
           bind_err (set_item (gamma_n s) k []) (\<lambda>g.
           bind_err (set_item (gamma_n_1 s) k []) (\<lambda>g1.
             Inr (s\<lparr>rf_C := rf_C s @ [Ga], gamma_n := g, gamma_n_1 := g1\<rparr>))))"
  have "\<exists>t. for_each [0..<length bs] ?body (?st 0) = Inr t \<and> t = ?st (length bs)"
  proof (rule for_each_upt_total [where I = "\<lambda>k t. t = ?st k"])
    fix k t assume k: "k < length bs" and t: "t = ?st k"
    have c: "to_eigenbasis h (c_op (bs ! k)) = Inr (coupling_eig h (bs ! k))"
      using assms k by (intro to_eigenbasis_coupling [of n]) auto
    have "?body k (?st k) = Inr (?st (Suc k))"
      using k by (simp add: c set_item_def replicate_update_same take_Suc_conv_app_nth)
    then show "\<exists>t'. ?body k t = Inr t' \<and> t' = ?st (Suc k)" using t by simp
  qed simp
  then show ?thesis by (simp add: for_each_enumerate)
qed

lemma coupling_second_loop:
  assumes s: "rf_ham s = h" "rf_dt s = dt" "ode_b (rf_ode s) = b"
    and g: "gamma_n s = replicate (length bs) []" "gamma_n_1 s = replicate (length bs) []"
    and m: "m \<le> length b" and n: "nstates h = n" "square n (omegas h)"
  shows "for_each (enumerate 0 bs) (\<lambda>(op, bth). for_each [0..<m] (setup_stage bth op)) s
         = Inr (s\<lparr>gamma_n := map (\<lambda>bth. map (seed_gamma h bth b dt) [0..<m]) bs,
                  gamma_n_1 := map (\<lambda>bth. map (seed_theta h bth b dt) [0..<m]) bs\<rparr>)"
proof -
  let ?st = "\<lambda>op. s\<lparr>gamma_n := partial_stages (\<lambda>bth. seed_gamma h bth b dt) bs m op 0,
                  gamma_n_1 := partial_stages (\<lambda>bth. seed_theta h bth b dt) bs m op 0\<rparr>"
  let ?body = "\<lambda>op. for_each [0..<m] (setup_stage (bs ! op) op)"
  have "\<exists>t. for_each [0..<length bs] ?body s = Inr t \<and> t = ?st (length bs)"
  proof (rule for_each_upt_total [where I = "\<lambda>op t. t = ?st op"])
    show "s = ?st 0" using g by (simp add: partial_stages_start)
  next
    fix op t assume op: "op < length bs" and t: "t = ?st op"
    have "?body op (?st op) = Inr (?st (Suc op))"
      using setup_stage_loop [of "?st op" h dt b bs m op n] s op m n by simp
    then show "\<exists>t'. ?body op t = Inr t' \<and> t' = ?st (Suc op)" using t by simp
  qed
  then show ?thesis by (simp add: for_each_enumerate partial_stages_full)
qed

lemma entry_theta_plus_t:
  assumes "wf_array (omegas h)" "a < shape0 (omegas h)" "c < shape1 (omegas h)"
  shows "entry (theta_plus_t h bth t) a c
         = exp (- \<i> * complex_of_real (entry (omegas h) a c) * complex_of_real t)
           * bath_corr_t bth t"
  using assms by (simp add: theta_plus_t_def entry_map_array)

lemma coupling_operators_setup_eq:
  assumes "baths (rf_ham eng) = Some bs" "nbaths (rf_ham eng) = Some (length bs)"
    and "nstates (rf_ham eng) = n" "square n (omegas (rf_ham eng))" "square n (ek (rf_ham eng))"
    and "\<forall>bth\<in>set bs. square n (c_op bth)"
    and "ode_order (rf_ode eng) \<le> length (ode_b (rf_ode eng))"
  shows "coupling_operators_setup eng
         = Inr (eng\<lparr>rf_C := map (coupling_eig (rf_ham eng)) bs,
              gamma_n := map (\<lambda>bth. map (seed_gamma (rf_ham eng) bth (ode_b (rf_ode eng)) (rf_dt eng))
                                      [0..<ode_order (rf_ode eng)]) bs,
              gamma_n_1 := map (\<lambda>bth. map (seed_theta (rf_ham eng) bth (ode_b (rf_ode eng)) (rf_dt eng))
                                      [0..<ode_order (rf_ode eng)]) bs\<rparr>)"
proof -
  let ?h = "rf_ham eng" and ?b = "ode_b (rf_ode eng)" and ?dt = "rf_dt eng"
  let ?m = "ode_order (rf_ode eng)"
  let ?e1 = "eng\<lparr>rf_C := map (coupling_eig ?h) bs, gamma_n := replicate (length bs) [],
                    gamma_n_1 := replicate (length bs) []\<rparr>"
  have 1: "for_each (enumerate 0 bs) (\<lambda>(op, bth) s.
           bind_err (to_eigenbasis ?h (c_op bth)) (\<lambda>Ga.
           bind_err (set_item (gamma_n s) op []) (\<lambda>g.
           bind_err (set_item (gamma_n_1 s) op []) (\<lambda>g1.
             Inr (s\<lparr>rf_C := rf_C s @ [Ga], gamma_n := g, gamma_n_1 := g1\<rparr>)))))
           (eng\<lparr>rf_C := [], gamma_n := replicate (length bs) [],
                gamma_n_1 := replicate (length bs) []\<rparr>) = Inr ?e1"
    using assms(5,6) by (rule coupling_first_loop)
  have 2: "for_each (enumerate 0 bs) (\<lambda>(op, bth). for_each [0..<?m] (setup_stage bth op)) ?e1
         = Inr (?e1\<lparr>gamma_n := map (\<lambda>bth. map (seed_gamma ?h bth ?b ?dt) [0..<?m]) bs,
                  gamma_n_1 := map (\<lambda>bth. map (seed_theta ?h bth ?b ?dt) [0..<?m]) bs\<rparr>)"
    using assms(3,4,7) by (intro coupling_second_loop [where n = n]) simp_all
  show ?thesis
    using assms(1,2) by (simp add: coupling_operators_setup_def 1 2)
qed

lemma seed_recurrence:
  assumes "0 < k"
  shows "seed_gamma h bth b dt k
           = zip_array (+) (seed_gamma h bth b dt (k - 1))
               (scale (complex_of_real (0.5 * (b ! k - b ! (k - 1)) * dt))
                  (zip_array (+) (theta_plus_t h bth (b ! k * dt))
                     (seed_theta h bth b dt (k - 1))))"
    and "seed_theta h bth b dt k = theta_plus_t h bth (b ! k * dt)"
proof -
  from assms obtain j where j: "k = Suc j" by (cases k) simp_all
  show "seed_gamma h bth b dt k
           = zip_array (+) (seed_gamma h bth b dt (k - 1))
               (scale (complex_of_real (0.5 * (b ! k - b ! (k - 1)) * dt))
                  (zip_array (+) (theta_plus_t h bth (b ! k * dt))
                     (seed_theta h bth b dt (k - 1))))"
    unfolding j using seed_gamma_simps(2) [of h bth b dt j] by simp
  show "seed_theta h bth b dt k = theta_plus_t h bth (b ! k * dt)"
    using assms by (simp add: seed_theta_def)
qed

lemma entry_seed:
  assumes w: "wf_array (omegas h)" and sq: "square n (omegas h)" and n: "nstates h = n"
    and a: "a < n" and c: "c < n"
  shows "entry (seed_gamma h bth b dt 0) a c = 0"
    and "entry (seed_theta h bth b dt 0) a c
         = exp (- \<i> * complex_of_real (entry (omegas h) a c) * complex_of_real 0)
           * bath_corr_t bth 0"
    and "0 < k \<Longrightarrow> entry (seed_theta h bth b dt k) a c
         = exp (- \<i> * complex_of_real (entry (omegas h) a c) * complex_of_real (b ! k * dt))
           * bath_corr_t bth (b ! k * dt)"
    and "0 < k \<Longrightarrow> entry (seed_gamma h bth b dt k) a c
         = entry (seed_gamma h bth b dt (k - 1)) a c
           + complex_of_real (0.5 * (b ! k - b ! (k - 1)) * dt)
             * (exp (- \<i> * complex_of_real (entry (omegas h) a c) * complex_of_real (b ! k * dt))
                  * bath_corr_t bth (b ! k * dt)
                + entry (seed_theta h bth b dt (k - 1)) a c)"
proof -
  have ac: "a < shape0 (omegas h)" "c < shape1 (omegas h)"
    using sq a c by (simp_all add: square_def)
  note th = entry_theta_plus_t [OF w ac]
  show "entry (seed_gamma h bth b dt 0) a c = 0"
    using a c n by (simp add: seed_gamma_simps np_zeros_def)
  show "entry (seed_theta h bth b dt 0) a c
         = exp (- \<i> * complex_of_real (entry (omegas h) a c) * complex_of_real 0)
           * bath_corr_t bth 0"
    unfolding seed_theta_def using th [of bth 0] by simp
  show "entry (seed_theta h bth b dt k) a c
         = exp (- \<i> * complex_of_real (entry (omegas h) a c) * complex_of_real (b ! k * dt))
           * bath_corr_t bth (b ! k * dt)" if "0 < k"
    unfolding seed_recurrence(2) [OF that] by (rule th)
  show "entry (seed_gamma h bth b dt k) a c
         = entry (seed_gamma h bth b dt (k - 1)) a c
           + complex_of_real (0.5 * (b ! k - b ! (k - 1)) * dt)
             * (exp (- \<i> * complex_of_real (entry (omegas h) a c) * complex_of_real (b ! k * dt))
                  * bath_corr_t bth (b ! k * dt)
                + entry (seed_theta h bth b dt (k - 1)) a c)" if "0 < k"
  proof -
    have sg: "square n (seed_gamma h bth b dt (k - 1))" using n by simp
    have st: "square n (theta_plus_t h bth (b ! k * dt))" using sq by simp
    show ?thesis
      unfolding seed_recurrence(1) [OF that]
      using sg st a c th [of bth "b ! k * dt"]
      by (simp add: entry_zip_array entry_scale square_def)
  qed
qed

text \<open>
  Claim C2.  With operators and frequencies of shape \<open>N \<times> N\<close> and at least \<open>order\<close> stage
  abscissae, \<open>coupling_operators_setup\<close> stores the coupling operators in the eigenbasis
  and, for every bath and every stage \<open>k < order\<close>, the seed of the recurrence:
  \<open>gamma_n[0]\<close> is the zero matrix and \<open>gamma_n_1[0] = exp(-i omegas 0) bath_corr_t(0)\<close>;
  for \<open>k > 0\<close> and \<open>t = b[k] dt\<close>,
  \<open>gamma_n[k] = gamma_n[k-1] + 0.5 (b[k] - b[k-1]) dt (theta_plus(t) + gamma_n_1[k-1])\<close> and
  \<open>gamma_n_1[k] = theta_plus(t)\<close>, with \<open>theta_plus(t) = exp(-i omegas t) bath_corr_t(t)\<close>
  elementwise.  The last conjunct states the seed element by element: the element
  \<open>[a, c]\<close> of \<open>theta_plus(t)\<close> is \<open>exp(-i omegas[a, c] t) bath_corr_t(t)\<close>.
\<close>

theorem coupling_operators_setup_correct:
  assumes "baths (rf_ham eng) = Some bs" "nbaths (rf_ham eng) = Some (length bs)"
    and "nstates (rf_ham eng) = n" "square n (omegas (rf_ham eng))" "square n (ek (rf_ham eng))"
    and "\<forall>bth\<in>set bs. square n (c_op bth)"
    and "ode_order (rf_ode eng) \<le> length (ode_b (rf_ode eng))"
  shows "coupling_operators_setup eng
         = Inr (eng\<lparr>rf_C := map (coupling_eig (rf_ham eng)) bs,
              gamma_n := map (\<lambda>bth. map (seed_gamma (rf_ham eng) bth (ode_b (rf_ode eng)) (rf_dt eng))
                                      [0..<ode_order (rf_ode eng)]) bs,
              gamma_n_1 := map (\<lambda>bth. map (seed_theta (rf_ham eng) bth (ode_b (rf_ode eng)) (rf_dt eng))
                                      [0..<ode_order (rf_ode eng)]) bs\<rparr>)
       \<and> (\<forall>bth\<in>set bs.
            seed_gamma (rf_ham eng) bth (ode_b (rf_ode eng)) (rf_dt eng) 0 = np_zeros n n
          \<and> seed_theta (rf_ham eng) bth (ode_b (rf_ode eng)) (rf_dt eng) 0
              = theta_plus_t (rf_ham eng) bth 0
          \<and> (\<forall>k. 0 < k \<longrightarrow>
               seed_gamma (rf_ham eng) bth (ode_b (rf_ode eng)) (rf_dt eng) k
               = zip_array (+) (seed_gamma (rf_ham eng) bth (ode_b (rf_ode eng)) (rf_dt eng) (k - 1))
                   (scale (complex_of_real
                      (0.5 * (ode_b (rf_ode eng) ! k - ode_b (rf_ode eng) ! (k - 1)) * rf_dt eng))
                      (zip_array (+)
                         (theta_plus_t (rf_ham eng) bth (ode_b (rf_ode eng) ! k * rf_dt eng))
                         (seed_theta (rf_ham eng) bth (ode_b (rf_ode eng)) (rf_dt eng) (k - 1))))
             \<and> seed_theta (rf_ham eng) bth (ode_b (rf_ode eng)) (rf_dt eng) k
               = theta_plus_t (rf_ham eng) bth (ode_b (rf_ode eng) ! k * rf_dt eng)))
       \<and> (wf_array (omegas (rf_ham eng)) \<longrightarrow>
            (\<forall>bth\<in>set bs. \<forall>a<n. \<forall>c<n.
               (\<forall>t. entry (theta_plus_t (rf_ham eng) bth t) a c
                     = exp (- \<i> * complex_of_real (entry (omegas (rf_ham eng)) a c)
                              * complex_of_real t)
                       * bath_corr_t bth t)
             \<and> entry (seed_gamma (rf_ham eng) bth (ode_b (rf_ode eng)) (rf_dt eng) 0) a c = 0
             \<and> entry (seed_theta (rf_ham eng) bth (ode_b (rf_ode eng)) (rf_dt eng) 0) a c
                 = exp (- \<i> * complex_of_real (entry (omegas (rf_ham eng)) a c)
                          * complex_of_real 0)
                   * bath_corr_t bth 0
             \<and> (\<forall>k. 0 < k \<longrightarrow>
                  entry (seed_gamma (rf_ham eng) bth (ode_b (rf_ode eng)) (rf_dt eng) k) a c
                  = entry (seed_gamma (rf_ham eng) bth (ode_b (rf_ode eng)) (rf_dt eng) (k - 1)) a c
                    + complex_of_real
                        (0.5 * (ode_b (rf_ode eng) ! k - ode_b (rf_ode eng) ! (k - 1)) * rf_dt eng)
                      * (exp (- \<i> * complex_of_real (entry (omegas (rf_ham eng)) a c)
                                * complex_of_real (ode_b (rf_ode eng) ! k * rf_dt eng))
                           * bath_corr_t bth (ode_b (rf_ode eng) ! k * rf_dt eng)
                         + entry (seed_theta (rf_ham eng) bth (ode_b (rf_ode eng)) (rf_dt eng)
                                    (k - 1)) a c)
                \<and> entry (seed_theta (rf_ham eng) bth (ode_b (rf_ode eng)) (rf_dt eng) k) a c
                  = exp (- \<i> * complex_of_real (entry (omegas (rf_ham eng)) a c)
                           * complex_of_real (ode_b (rf_ode eng) ! k * rf_dt eng))
                    * bath_corr_t bth (ode_b (rf_ode eng) ! k * rf_dt eng))))"
proof -
  let ?h = "rf_ham eng" and ?b = "ode_b (rf_ode eng)" and ?dt = "rf_dt eng"
  note main = coupling_operators_setup_eq [OF assms]
  have z: "seed_gamma ?h bth ?b ?dt 0 = np_zeros n n"
    "seed_theta ?h bth ?b ?dt 0 = theta_plus_t ?h bth 0" for bth
    using assms(3) by (simp_all add: seed_gamma_simps seed_theta_def)
  have ac: "a < shape0 (omegas ?h)" "c < shape1 (omegas ?h)" if "a < n" "c < n" for a c
    using assms(4) that by (simp_all add: square_def)
  have second: "\<forall>bth\<in>set bs.
            seed_gamma ?h bth ?b ?dt 0 = np_zeros n n
          \<and> seed_theta ?h bth ?b ?dt 0 = theta_plus_t ?h bth 0
          \<and> (\<forall>k. 0 < k \<longrightarrow>
               seed_gamma ?h bth ?b ?dt k
               = zip_array (+) (seed_gamma ?h bth ?b ?dt (k - 1))
                   (scale (complex_of_real (0.5 * (?b ! k - ?b ! (k - 1)) * ?dt))
                      (zip_array (+) (theta_plus_t ?h bth (?b ! k * ?dt))
                         (seed_theta ?h bth ?b ?dt (k - 1))))
             \<and> seed_theta ?h bth ?b ?dt k = theta_plus_t ?h bth (?b ! k * ?dt))"
    using z seed_recurrence [of _ ?h _ ?b ?dt] by blast
  have third: "\<forall>bth\<in>set bs. \<forall>a<n. \<forall>c<n.
               (\<forall>t. entry (theta_plus_t ?h bth t) a c
                     = exp (- \<i> * complex_of_real (entry (omegas ?h) a c) * complex_of_real t)
                       * bath_corr_t bth t)
             \<and> entry (seed_gamma ?h bth ?b ?dt 0) a c = 0
             \<and> entry (seed_theta ?h bth ?b ?dt 0) a c
                 = exp (- \<i> * complex_of_real (entry (omegas ?h) a c) * complex_of_real 0)
                   * bath_corr_t bth 0
             \<and> (\<forall>k. 0 < k \<longrightarrow>
                  entry (seed_gamma ?h bth ?b ?dt k) a c
                  = entry (seed_gamma ?h bth ?b ?dt (k - 1)) a c
                    + complex_of_real (0.5 * (?b ! k - ?b ! (k - 1)) * ?dt)
                      * (exp (- \<i> * complex_of_real (entry (omegas ?h) a c)
                                * complex_of_real (?b ! k * ?dt))
                           * bath_corr_t bth (?b ! k * ?dt)
                         + entry (seed_theta ?h bth ?b ?dt (k - 1)) a c)
                \<and> entry (seed_theta ?h bth ?b ?dt k) a c
                  = exp (- \<i> * complex_of_real (entry (omegas ?h) a c)
                           * complex_of_real (?b ! k * ?dt))
                    * bath_corr_t bth (?b ! k * ?dt))"
    if w: "wf_array (omegas ?h)"
  proof (intro ballI allI impI)
    fix bth a c
    assume a: "a < n" and c: "c < n"
    note th = entry_theta_plus_t [OF w ac(1) [OF a c] ac(2) [OF a c]]
    note es = entry_seed [OF w assms(4,3) a c]
    show "(\<forall>t. entry (theta_plus_t ?h bth t) a c
                     = exp (- \<i> * complex_of_real (entry (omegas ?h) a c) * complex_of_real t)
                       * bath_corr_t bth t)
             \<and> entry (seed_gamma ?h bth ?b ?dt 0) a c = 0
             \<and> entry (seed_theta ?h bth ?b ?dt 0) a c
                 = exp (- \<i> * complex_of_real (entry (omegas ?h) a c) * complex_of_real 0)
                   * bath_corr_t bth 0
             \<and> (\<forall>k. 0 < k \<longrightarrow>
                  entry (seed_gamma ?h bth ?b ?dt k) a c
                  = entry (seed_gamma ?h bth ?b ?dt (k - 1)) a c
                    + complex_of_real (0.5 * (?b ! k - ?b ! (k - 1)) * ?dt)
                      * (exp (- \<i> * complex_of_real (entry (omegas ?h) a c)
                                * complex_of_real (?b ! k * ?dt))
                           * bath_corr_t bth (?b ! k * ?dt)
                         + entry (seed_theta ?h bth ?b ?dt (k - 1)) a c)
                \<and> entry (seed_theta ?h bth ?b ?dt k) a c
                  = exp (- \<i> * complex_of_real (entry (omegas ?h) a c)
                           * complex_of_real (?b ! k * ?dt))
                    * bath_corr_t bth (?b ! k * ?dt))"
      using th es(1) [of bth ?b ?dt] es(2) [of bth ?b ?dt] es(3) [of _ bth ?b ?dt]
        es(4) [of _ bth ?b ?dt]
      by blast
  qed
  show ?thesis using main second third by blast
qed

theorem coupling_operators_setup_correct_witness:
  "baths (rf_ham ex_td4) = Some [ex_bath3] \<and> nbaths (rf_ham ex_td4) = Some (length [ex_bath3])
   \<and> nstates (rf_ham ex_td4) = 2 \<and> square 2 (omegas (rf_ham ex_td4))
   \<and> square 2 (ek (rf_ham ex_td4)) \<and> square 2 (c_op ex_bath3)
   \<and> ode_order (rf_ode ex_td4) \<le> length (ode_b (rf_ode ex_td4))
   \<and> wf_array (omegas (rf_ham ex_td4))
   \<and> omegas (rf_ham ex_td4) = NDArray 2 2 [0, - 2, 2, 0]
   \<and> coupling_operators_setup ex_td4
       = Inr (ex_td4\<lparr>rf_C := map (coupling_eig (rf_ham ex_td4)) [ex_bath3],
              gamma_n := map (\<lambda>bth. map (seed_gamma (rf_ham ex_td4) bth (ode_b (rf_ode ex_td4))
                                            (rf_dt ex_td4))
                                      [0..<ode_order (rf_ode ex_td4)]) [ex_bath3],
              gamma_n_1 := map (\<lambda>bth. map (seed_theta (rf_ham ex_td4) bth (ode_b (rf_ode ex_td4))
                                            (rf_dt ex_td4))
                                      [0..<ode_order (rf_ode ex_td4)]) [ex_bath3]\<rparr>)
   \<and> coupling_operators_setup ex_td4 = Inr ex_td5
   \<and> gamma_n ex_td5
       = [[NDArray 2 2 [0, 0, 0, 0],
           NDArray 2 2 [3 / 2, (exp (\<i> * 2) * 2 + 1) / 2, (exp (- (\<i> * 2)) * 2 + 1) / 2, 3 / 2]]]
   \<and> gamma_n_1 ex_td5
       = [[NDArray 2 2 [1, 1, 1, 1],
           NDArray 2 2 [2, exp (\<i> * 2) * 2, exp (- (\<i> * 2)) * 2, 2]]]
   \<and> entry (seed_theta (rf_ham ex_td4) ex_bath3 (ode_b (rf_ode ex_td4)) (rf_dt ex_td4) 1) 0 1
       = exp (- \<i> * complex_of_real (entry (omegas (rf_ham ex_td4)) 0 1)
                * complex_of_real (ode_b (rf_ode ex_td4) ! 1 * rf_dt ex_td4))
         * bath_corr_t ex_bath3 (ode_b (rf_ode ex_td4) ! 1 * rf_dt ex_td4)
   \<and> entry (gamma_n_1 ex_td5 ! 0 ! 1) 0 1 = exp (\<i> * 2) * 2"
proof -
  have h: "baths (rf_ham ex_td4) = Some [ex_bath3]"
    "nbaths (rf_ham ex_td4) = Some (length [ex_bath3])"
    "nstates (rf_ham ex_td4) = 2" "square 2 (omegas (rf_ham ex_td4))"
    "square 2 (ek (rf_ham ex_td4))"
    by (simp_all add: ex_td4_def ex_td0_def ex_ham4_def ex_ham1_def square_def)
  have w: "wf_array (omegas (rf_ham ex_td4))"
    "omegas (rf_ham ex_td4) = NDArray 2 2 [0, - 2, 2, 0]"
    by (simp_all add: ex_td4_def ex_td0_def ex_ham4_def ex_ham1_def wf_array_def)
  have c: "square 2 (c_op ex_bath3)" by (simp add: ex_bath3_def square_def)
  then have c': "\<forall>bth\<in>set [ex_bath3]. square 2 (c_op bth)" by simp
  have o: "ode_order (rf_ode ex_td4) \<le> length (ode_b (rf_ode ex_td4))"
    by (simp add: ex_td4_def ex_td0_def)
  have v: "coupling_operators_setup ex_td4 = Inr ex_td5"
    by (simp add: coupling_operators_setup_def ex_td0_def ex_td4_def ex_td5_def ex_ham4_def
        ex_ham1_def ex_bath3_def setup_stage_def append_at_def trapezoid_def theta_plus_t_def
        enumerate_eq_zip to_eigenbasis_def array_eval mult.left_commute [of \<i>]
        cong: bind_err_weak_cong for_each_weak_cong)
  have g: "gamma_n ex_td5
       = [[NDArray 2 2 [0, 0, 0, 0],
           NDArray 2 2 [3 / 2, (exp (\<i> * 2) * 2 + 1) / 2, (exp (- (\<i> * 2)) * 2 + 1) / 2, 3 / 2]]]"
    "gamma_n_1 ex_td5
       = [[NDArray 2 2 [1, 1, 1, 1],
           NDArray 2 2 [2, exp (\<i> * 2) * 2, exp (- (\<i> * 2)) * 2, 2]]]"
    "entry (gamma_n_1 ex_td5 ! 0 ! 1) 0 1 = exp (\<i> * 2) * 2"
    by (simp_all add: ex_td5_def entry_def)
  note t = coupling_operators_setup_correct [OF h c' o]
  note t1 = t [THEN conjunct1]
  have t3: "entry (seed_theta (rf_ham ex_td4) ex_bath3 (ode_b (rf_ode ex_td4)) (rf_dt ex_td4) 1) 0 1
       = exp (- \<i> * complex_of_real (entry (omegas (rf_ham ex_td4)) 0 1)
                * complex_of_real (ode_b (rf_ode ex_td4) ! 1 * rf_dt ex_td4))
         * bath_corr_t ex_bath3 (ode_b (rf_ode ex_td4) ! 1 * rf_dt ex_td4)"
    using t [THEN conjunct2, THEN conjunct2] w(1) by simp
  show ?thesis using h c o w t1 v g t3 by blast
qed

section \<open>Method dispatch in setup\<close>

lemma make_redfield_operators_eq:
  assumes "baths (rf_ham eng) = Some bs" "nstates (rf_ham eng) = n"
    and "square n (omegas (rf_ham eng))" "square n (ek (rf_ham eng))"
    and "\<forall>bth\<in>set bs. square n (c_op bth)"
  shows "make_redfield_operators eng
         = Inr (eng\<lparr>rf_C := map (coupling_eig (rf_ham eng)) bs,
                    rf_E := map (\<lambda>bth. zip_array (*) (coupling_eig (rf_ham eng) bth)
                                          (theta_plus_ft (rf_ham eng) bth)) bs\<rparr>)"
proof -
  let ?h = "rf_ham eng"
  let ?c = "coupling_eig ?h"
  let ?e = "\<lambda>bth. zip_array (*) (?c bth) (theta_plus_ft ?h bth)"
  have th: "make_theta_plus ?h bth = Inr (theta_plus_ft ?h bth)" for bth
    using assms(2,3) by (intro make_theta_plus_eq) (simp_all add: square_def)
  have c: "to_eigenbasis ?h (c_op bth) = Inr (?c bth)" if "bth \<in> set bs" for bth
    using that assms(4,5) by (intro to_eigenbasis_coupling [of n]) auto
  have e: "elementwise (*) (?c bth) (theta_plus_ft ?h bth) = Inr (?e bth)" for bth
    using assms(2,4) by (intro elementwise_same_shape) (simp_all add: square_def)
  have "for_each bs (\<lambda>bth s.
            bind_err (to_eigenbasis ?h (c_op bth)) (\<lambda>Ga.
            bind_err (make_theta_plus ?h bth) (\<lambda>theta_plus.
            bind_err (elementwise (*) Ga theta_plus) (\<lambda>Ga_plus.
              Inr (s\<lparr>rf_C := rf_C s @ [Ga], rf_E := rf_E s @ [Ga_plus]\<rparr>)))))
            (eng\<lparr>rf_C := [], rf_E := []\<rparr>)
        = Inr (fold (\<lambda>bth s. s\<lparr>rf_C := rf_C s @ [?c bth], rf_E := rf_E s @ [?e bth]\<rparr>) bs
                 (eng\<lparr>rf_C := [], rf_E := []\<rparr>))"
    by (rule for_each_fold) (simp add: c th e)
  then show ?thesis
    using assms(1) by (simp add: make_redfield_operators_def fold_append_operators)
qed

lemma setup_completes:
  assumes ne: "opt_method opt \<noteq> ''exact''"
    and ode: "new_Integrator env (rf_dt eng) opt = Inr ode"
    and b: "baths (rf_ham eng) = Some bs" and n: "nstates (rf_ham eng) = n"
    and sq: "square n (omegas (rf_ham eng))" "square n (ek (rf_ham eng))"
      "\<forall>bth\<in>set bs. square n (c_op bth)"
    and td: "time_dep eng \<Longrightarrow>
               nbaths (rf_ham eng) = Some (length bs) \<and> ode_order ode \<le> length (ode_b ode)"
    and mp: "\<And>r. res = Some r \<Longrightarrow> map_ops r \<Longrightarrow> is_md (rf_ham eng)"
  shows "\<exists>e. Redfield_setup env eng (Some opt) res = Inr e
           \<and> rf_options e = opt \<and> rf_ode e = ode \<and> rf_ham e = rf_ham eng
           \<and> equation_of_motion e = Some (if time_dep eng then TD_RF_EOM else RF_EOM)"
proof -
  define R where "R = (case res of None \<Rightarrow> new_Results env
                       | Some r \<Rightarrow> if map_ops r then r\<lparr>map_function_set := True\<rparr> else r)"
  let ?e1 = "eng\<lparr>rf_options := opt\<rparr>"
  let ?e2 = "eng\<lparr>rf_options := opt, rf_results := R\<rparr>"
  let ?e3 = "?e2\<lparr>rf_ode := ode\<rparr>"
  have r: "(case res of
          None \<Rightarrow> Inr (?e1\<lparr>rf_results := new_Results env\<rparr>)
        | Some r \<Rightarrow>
            if map_ops r
            then (if is_md (rf_ham ?e1)
                  then Inr (?e1\<lparr>rf_results := r\<lparr>map_function_set := True\<rparr>\<rparr>)
                  else Inl AssertionError)
            else Inr (?e1\<lparr>rf_results := r\<rparr>)) = Inr ?e2"
    using mp by (cases res) (simp_all add: R_def)
  show ?thesis
  proof (cases "time_dep eng")
    case True
    have "coupling_operators_setup ?e3
          = Inr (?e3\<lparr>rf_C := map (coupling_eig (rf_ham ?e3)) bs,
              gamma_n := map (\<lambda>bth. map (seed_gamma (rf_ham ?e3) bth (ode_b (rf_ode ?e3)) (rf_dt ?e3))
                                      [0..<ode_order (rf_ode ?e3)]) bs,
              gamma_n_1 := map (\<lambda>bth. map (seed_theta (rf_ham ?e3) bth (ode_b (rf_ode ?e3)) (rf_dt ?e3))
                                      [0..<ode_order (rf_ode ?e3)]) bs\<rparr>)"
      using b n sq td [OF True] by (intro coupling_operators_setup_eq [where n = n]) simp_all
    then show ?thesis
      using ne ode True by (simp add: Redfield_setup_def r)
  next
    case False
    have "make_redfield_operators ?e3
          = Inr (?e3\<lparr>rf_C := map (coupling_eig (rf_ham ?e3)) bs,
                    rf_E := map (\<lambda>bth. zip_array (*) (coupling_eig (rf_ham ?e3) bth)
                                          (theta_plus_ft (rf_ham ?e3) bth)) bs\<rparr>)"
      using b n sq by (intro make_redfield_operators_eq [where n = n]) simp_all
    then show ?thesis
      using ne ode False by (simp add: Redfield_setup_def r)
  qed
qed

lemmas run_eval = solve_def solve_step_def Redfield_setup_def Redfield_init_def
  make_redfield_operators_def make_theta_plus_def to_eigenbasis_def from_eigenbasis_def
  eom_def rf_eom_def rf_term_def ham_commutator_def analyze_state_def set_y_value_def
  euler_step_def ex_env_def ex_ham2_def ex_ham1_def ex_bath_def ex_options_def ex_results_def
  raise_in_def enumerate_eq_zip array_eval

lemma ex_setup:
  "Redfield_setup ex_env ((Redfield_init ex_env ex_ham2 False False)\<lparr>rf_dt := 1\<rparr>)
     (Some ex_options) (Some ex_results) = Inr ex_engine"
  by (simp add: run_eval ex_engine_def mult.left_commute [of \<i>]
      cong: bind_err_weak_cong for_each_weak_cong)

text \<open>
  Claim C8, as stated, fails for a call with fewer than two time points: \<open>solve\<close>
  computes \<open>times[1] - times[0]\<close> before it calls \<open>setup\<close>, so the run fails with
  IndexError and not with NotImplementedError.
\<close>

theorem exact_short_times_counterexample:
  "opt_method ex_exact = ''exact''
   \<and> solve ex_env (Redfield_init ex_env ex_ham0 False False) [NDArray 2 2 [1, 0, 0, 0]] 0 [0]
        (Some ex_exact) None = Inl (IndexError, [NDArray 2 2 [1, 0, 0, 0]])"
  by (simp add: solve_def ex_exact_def)

text \<open>
  Claim C8, amended.  For every call of \<open>solve\<close> with at least two time points whose
  options have the method "exact", \<open>setup\<close> raises NotImplementedError and the run
  fails with it before any array is allocated and before any step, whatever the
  integrator is.  For every other method that the constructor of the integrator accepts
  without NotImplementedError, \<open>setup\<close> does not raise NotImplementedError; and when the
  constructor returns an integrator, \<open>setup\<close> completes without any error and installs the
  options, the integrator and the equation of motion, provided the engine is well formed:
  the Hamiltonian has its list of baths, the coupling operators, eigenvectors and
  frequencies have the shape \<open>N \<times> N\<close>, a time-dependent engine has \<open>nbaths = len(baths)\<close> and
  at least \<open>order\<close> stage abscissae, and a results object that asks for the mapping of
  operators comes with a multidimensional Hamiltonian.
\<close>

theorem exact_not_implemented:
  assumes "2 \<le> length tms"
  shows "(opt_method opt = ''exact'' \<longrightarrow>
            Redfield_setup env (eng\<lparr>rf_dt := tms ! 1 - tms ! 0\<rparr>) (Some opt) res
              = Inl NotImplementedError
          \<and> solve env eng hp rho0 tms (Some opt) res = Inl (NotImplementedError, hp))
       \<and> (opt_method opt \<noteq> ''exact'' \<and> no_nie (new_Integrator env (tms ! 1 - tms ! 0) opt) \<longrightarrow>
            no_nie (Redfield_setup env (eng\<lparr>rf_dt := tms ! 1 - tms ! 0\<rparr>) (Some opt) res))
       \<and> (opt_method opt \<noteq> ''exact''
          \<and> new_Integrator env (tms ! 1 - tms ! 0) opt = Inr ode
          \<and> baths (rf_ham eng) = Some bs \<and> nstates (rf_ham eng) = n
          \<and> square n (omegas (rf_ham eng)) \<and> square n (ek (rf_ham eng))
          \<and> (\<forall>bth\<in>set bs. square n (c_op bth))
          \<and> (time_dep eng \<longrightarrow>
                nbaths (rf_ham eng) = Some (length bs) \<and> ode_order ode \<le> length (ode_b ode))
          \<and> (\<forall>r. res = Some r \<and> map_ops r \<longrightarrow> is_md (rf_ham eng))
          \<longrightarrow> (\<exists>e. Redfield_setup env (eng\<lparr>rf_dt := tms ! 1 - tms ! 0\<rparr>) (Some opt) res = Inr e
                 \<and> rf_options e = opt \<and> rf_ode e = ode \<and> rf_ham e = rf_ham eng
                 \<and> equation_of_motion e = Some (if time_dep eng then TD_RF_EOM else RF_EOM)))"
proof -
  let ?eng = "eng\<lparr>rf_dt := tms ! 1 - tms ! 0\<rparr>"
  have third: "\<exists>e. Redfield_setup env ?eng (Some opt) res = Inr e
                 \<and> rf_options e = opt \<and> rf_ode e = ode \<and> rf_ham e = rf_ham eng
                 \<and> equation_of_motion e = Some (if time_dep eng then TD_RF_EOM else RF_EOM)"
    if h: "opt_method opt \<noteq> ''exact''"
      "new_Integrator env (tms ! 1 - tms ! 0) opt = Inr ode"
      "baths (rf_ham eng) = Some bs" "nstates (rf_ham eng) = n"
      "square n (omegas (rf_ham eng))" "square n (ek (rf_ham eng))"
      "\<forall>bth\<in>set bs. square n (c_op bth)"
      "time_dep eng \<longrightarrow>
         nbaths (rf_ham eng) = Some (length bs) \<and> ode_order ode \<le> length (ode_b ode)"
      "\<forall>r. res = Some r \<and> map_ops r \<longrightarrow> is_md (rf_ham eng)"
    using setup_completes [of opt env ?eng ode bs n res] h by simp
  show ?thesis
    using solve_exact [OF _ assms, of opt env eng hp rho0 res]
      setup_exact [of opt env ?eng res]
      setup_not_exact [of opt env ?eng res] third
    by simp
qed

theorem exact_not_implemented_witness:
  "2 \<le> length [0, 1 :: real]
   \<and> opt_method ex_exact = ''exact''
   \<and> solve ex_env (Redfield_init ex_env ex_ham2 False False) [NDArray 2 2 [1, 0, 0, 0]] 0 [0, 1]
        (Some ex_exact) (Some ex_results) = Inl (NotImplementedError, [NDArray 2 2 [1, 0, 0, 0]])
   \<and> opt_method ex_options \<noteq> ''exact''
   \<and> new_Integrator ex_env ([0, 1] ! 1 - [0, 1] ! 0) ex_options
       = Inr \<lparr>ode_dt = 1, ode_order = 1, ode_b = [0], ode_y = 0, ode_t = 0\<rparr>
   \<and> no_nie (new_Integrator ex_env ([0, 1] ! 1 - [0, 1] ! 0) ex_options)
   \<and> baths ex_ham2 = Some [ex_bath] \<and> nstates ex_ham2 = 2
   \<and> square 2 (omegas ex_ham2) \<and> square 2 (ek ex_ham2) \<and> square 2 (c_op ex_bath)
   \<and> \<not> time_dep (Redfield_init ex_env ex_ham2 False False) \<and> \<not> map_ops ex_results
   \<and> no_nie (Redfield_setup ex_env
        ((Redfield_init ex_env ex_ham2 False False)\<lparr>rf_dt := [0, 1] ! 1 - [0, 1] ! 0\<rparr>)
        (Some ex_options) (Some ex_results))
   \<and> (\<exists>e. Redfield_setup ex_env
        ((Redfield_init ex_env ex_ham2 False False)\<lparr>rf_dt := [0, 1] ! 1 - [0, 1] ! 0\<rparr>)
        (Some ex_options) (Some ex_results) = Inr e
        \<and> rf_options e = ex_options
        \<and> rf_ode e = \<lparr>ode_dt = 1, ode_order = 1, ode_b = [0], ode_y = 0, ode_t = 0\<rparr>
        \<and> rf_ham e = ex_ham2
        \<and> equation_of_motion e = Some RF_EOM)
   \<and> Redfield_setup ex_env ((Redfield_init ex_env ex_ham2 False False)\<lparr>rf_dt := 1\<rparr>)
        (Some ex_options) (Some ex_results) = Inr ex_engine
   \<and> time_dep (Redfield_init ex_env ex_ham4 True False)
   \<and> baths ex_ham4 = Some [ex_bath3] \<and> nbaths ex_ham4 = Some (length [ex_bath3])
   \<and> nstates ex_ham4 = 2 \<and> square 2 (omegas ex_ham4) \<and> square 2 (ek ex_ham4)
   \<and> square 2 (c_op ex_bath3)
   \<and> (\<exists>e. Redfield_setup ex_env
        ((Redfield_init ex_env ex_ham4 True False)\<lparr>rf_dt := [0, 1] ! 1 - [0, 1] ! 0\<rparr>)
        (Some ex_options) None = Inr e
        \<and> rf_options e = ex_options
        \<and> rf_ode e = \<lparr>ode_dt = 1, ode_order = 1, ode_b = [0], ode_y = 0, ode_t = 0\<rparr>
        \<and> rf_ham e = ex_ham4
        \<and> equation_of_motion e = Some TD_RF_EOM)"
proof -
  let ?eng = "Redfield_init ex_env ex_ham2 False False"
  let ?ode = "\<lparr>ode_dt = 1, ode_order = 1, ode_b = [0], ode_y = 0, ode_t = 0\<rparr> :: integrator"
  have l: "2 \<le> length [0, 1 :: real]" by simp
  have i: "new_Integrator ex_env ([0, 1] ! 1 - [0, 1] ! 0) ex_options = Inr ?ode"
    by (simp add: ex_env_def)
  then have i': "no_nie (new_Integrator ex_env ([0, 1] ! 1 - [0, 1] ! 0) ex_options)" by simp
  have m: "opt_method ex_exact = ''exact''" "opt_method ex_options \<noteq> ''exact''"
    by (simp_all add: ex_exact_def ex_options_def)
  have h: "baths ex_ham2 = Some [ex_bath]" "nstates ex_ham2 = 2"
    "square 2 (omegas ex_ham2)" "square 2 (ek ex_ham2)" "square 2 (c_op ex_bath)"
    "\<not> time_dep ?eng" "\<not> map_ops ex_results" "rf_ham ?eng = ex_ham2"
    by (simp_all add: ex_ham2_def ex_ham1_def ex_bath_def ex_results_def Redfield_init_def
          square_def)
  note t1 = exact_not_implemented [OF l, of ex_exact ex_env ?eng "Some ex_results"
      "[NDArray 2 2 [1, 0, 0, 0]]" 0, THEN conjunct1]
  note t2 = exact_not_implemented [OF l, of ex_options ex_env ?eng "Some ex_results"
      "[NDArray 2 2 [1, 0, 0, 0]]" 0, THEN conjunct2, THEN conjunct1]
  note t3 = exact_not_implemented [OF l, of ex_options ex_env ?eng "Some ex_results"
      "[NDArray 2 2 [1, 0, 0, 0]]" 0 ?ode "[ex_bath]" 2, THEN conjunct2, THEN conjunct2]
  have a: "solve ex_env ?eng [NDArray 2 2 [1, 0, 0, 0]] 0 [0, 1] (Some ex_exact) (Some ex_results)
           = Inl (NotImplementedError, [NDArray 2 2 [1, 0, 0, 0]])"
    using t1 m(1) by simp
  have b: "no_nie (Redfield_setup ex_env (?eng\<lparr>rf_dt := [0, 1] ! 1 - [0, 1] ! 0\<rparr>)
             (Some ex_options) (Some ex_results))"
    using t2 m(2) i' by blast
  have c: "\<exists>e. Redfield_setup ex_env (?eng\<lparr>rf_dt := [0, 1] ! 1 - [0, 1] ! 0\<rparr>)
             (Some ex_options) (Some ex_results) = Inr e
        \<and> rf_options e = ex_options \<and> rf_ode e = ?ode \<and> rf_ham e = ex_ham2
        \<and> equation_of_motion e = Some RF_EOM"
    using t3 m(2) i h by simp
  let ?td = "Redfield_init ex_env ex_ham4 True False"
  have g: "time_dep ?td" "baths ex_ham4 = Some [ex_bath3]"
    "nbaths ex_ham4 = Some (length [ex_bath3])" "nstates ex_ham4 = 2"
    "square 2 (omegas ex_ham4)" "square 2 (ek ex_ham4)" "square 2 (c_op ex_bath3)"
    "rf_ham ?td = ex_ham4" "ode_order ?ode \<le> length (ode_b ?ode)"
    by (simp_all add: ex_ham4_def ex_ham1_def ex_bath3_def Redfield_init_def square_def)
  note t4 = exact_not_implemented [OF l, of ex_options ex_env ?td None
      "[NDArray 2 2 [1, 0, 0, 0]]" 0 ?ode "[ex_bath3]" 2, THEN conjunct2, THEN conjunct2]
  have d: "\<exists>e. Redfield_setup ex_env (?td\<lparr>rf_dt := [0, 1] ! 1 - [0, 1] ! 0\<rparr>)
             (Some ex_options) None = Inr e
        \<and> rf_options e = ex_options \<and> rf_ode e = ?ode \<and> rf_ham e = ex_ham4
        \<and> equation_of_motion e = Some TD_RF_EOM"
    using t4 m(2) i g by simp
  show ?thesis using l m i i' h(1-7) a b c ex_setup g(1-7) d by blast
qed

lemma td_readyD:
  assumes "td_ready n bs m eng"
  shows "baths (rf_ham eng) = Some bs" "nbaths (rf_ham eng) = Some (length bs)"
    "square n (omegas (rf_ham eng))" "ode_order (rf_ode eng) = m"
    "m \<le> length (ode_b (rf_ode eng))" "length (rf_C eng) = length bs"
    "length (gamma_n eng) = length bs" "length (gamma_n_1 eng) = length bs"
    "\<And>i. i < length bs \<Longrightarrow> square n (rf_C eng ! i)"
    "\<And>i. i < length bs \<Longrightarrow> length (gamma_n eng ! i) = m"
    "\<And>i. i < length bs \<Longrightarrow> length (gamma_n_1 eng ! i) = m"
    "\<And>i j. i < length bs \<Longrightarrow> j < m \<Longrightarrow> square n (gamma_n eng ! i ! j)"
    "\<And>i j. i < length bs \<Longrightarrow> j < m \<Longrightarrow> square n (gamma_n_1 eng ! i ! j)"
  using assms unfolding td_ready_def by blast+

lemma dressing_loop:
  assumes r: "td_ready n bs m eng"
  shows "for_each [0..<length (rf_C eng)] (\<lambda>i s.
               bind_err (set_item (rf_E_td s) i []) (\<lambda>E0.
                 for_each [0..<ode_order (rf_ode eng)] (\<lambda>j s'.
                   bind_err (get_item (gamma_n s') i) (\<lambda>gi.
                   bind_err (get_item gi j) (\<lambda>gij.
                   bind_err (get_item (rf_C s') i) (\<lambda>Ci.
                   bind_err (elementwise (*) gij Ci) (\<lambda>v.
                   bind_err (append_at (rf_E_td s') i v) (\<lambda>E'.
                     Inr (s'\<lparr>rf_E_td := E'\<rparr>)))))))
                   (s\<lparr>rf_E_td := E0\<rparr>)))
               (eng\<lparr>rf_E_td := replicate (length bs) []\<rparr>)
         = Inr (eng\<lparr>rf_E_td := dressed_ops eng\<rparr>)"
proof -
  note d = td_readyD [OF r]
  let ?nb = "length bs"
  let ?D = "\<lambda>i j. zip_array (*) (gamma_n eng ! i ! j) (rf_C eng ! i)"
  let ?P = "\<lambda>op k. partial_stages ?D [0..<?nb] m op k"
  let ?st = "\<lambda>op k. eng\<lparr>rf_E_td := ?P op k\<rparr>"
  let ?inner = "\<lambda>i j s'.
                   bind_err (get_item (gamma_n s') i) (\<lambda>gi.
                   bind_err (get_item gi j) (\<lambda>gij.
                   bind_err (get_item (rf_C s') i) (\<lambda>Ci.
                   bind_err (elementwise (*) gij Ci) (\<lambda>v.
                   bind_err (append_at (rf_E_td s') i v) (\<lambda>E'.
                     Inr (s'\<lparr>rf_E_td := E'\<rparr>))))))"
  have inner_step: "?inner op k (?st op k) = Inr (?st op (Suc k))"
    if op: "op < ?nb" and k: "k < m" for op k
  proof -
    have e: "elementwise (*) (gamma_n eng ! op ! k) (rf_C eng ! op) = Inr (?D op k)"
      using d(9) [OF op] d(12) [OF op k] by (intro elementwise_same_shape) (simp_all add: square_def)
    have a: "append_at (?P op k) op (?D op k) = Inr (?P op (Suc k))"
      using partial_stages_append [of op "[0..<?nb]" ?D m k] op by simp
    show ?thesis using op k d(6,7) d(10) [OF op] by (simp add: get_item_def e a)
  qed
  have inner_loop: "for_each [0..<m] (?inner op) (?st op 0) = Inr (?st (Suc op) 0)"
    if op: "op < ?nb" for op
  proof -
    have "\<exists>t. for_each [0..<m] (?inner op) (?st op 0) = Inr t \<and> t = ?st op m"
      by (rule for_each_upt_total [where I = "\<lambda>k t. t = ?st op k"])
        (use inner_step [OF op] in auto)
    then show ?thesis by (simp add: partial_stages_next)
  qed
  have outer_step:
    "bind_err (set_item (rf_E_td (?st op 0)) op []) (\<lambda>E0.
        for_each [0..<m] (?inner op) ((?st op 0)\<lparr>rf_E_td := E0\<rparr>)) = Inr (?st (Suc op) 0)"
    if op: "op < ?nb" for op
  proof -
    have "(?P op 0)[op := []] = ?P op 0"
      using op by (simp add: list_update_same_conv partial_stages_nth)
    then show ?thesis using op inner_loop [OF op] by (simp add: set_item_def)
  qed
  have "\<exists>t. for_each [0..<?nb] (\<lambda>i s.
               bind_err (set_item (rf_E_td s) i []) (\<lambda>E0.
                 for_each [0..<m] (?inner i) (s\<lparr>rf_E_td := E0\<rparr>))) (?st 0 0) = Inr t
          \<and> t = ?st ?nb 0"
    by (rule for_each_upt_total [where I = "\<lambda>op t. t = ?st op 0"])
      (use outer_step in auto)
  moreover have "?P ?nb 0 = dressed_ops eng"
    using partial_stages_full [of ?D "[0..<?nb]" m 0] d(4,6)
    by (simp add: dressed_ops_def)
  ultimately show ?thesis by (simp add: d(4,6) partial_stages_start)
qed

lemma mixed_stages_length [simp]: "length (mixed_stages New old m op k) = length old"
  by (simp add: mixed_stages_def)

lemma mixed_stages_nth:
  "i < length old \<Longrightarrow> mixed_stages New old m op k ! i
     = map (\<lambda>j. if i < op \<or> (i = op \<and> j < k) then New i j else old ! i ! j) [0..<m]"
  by (simp add: mixed_stages_def)

lemma mixed_stages_start:
  assumes "\<And>i. i < length old \<Longrightarrow> length (old ! i) = m"
  shows "mixed_stages New old m 0 0 = old"
proof (rule nth_equalityI)
  fix i assume "i < length (mixed_stages New old m 0 0)"
  then have i: "i < length old" by simp
  have "map (\<lambda>j. old ! i ! j) [0..<m] = old ! i"
    using assms [OF i] map_nth [of "old ! i"] by simp
  then show "mixed_stages New old m 0 0 ! i = old ! i"
    using i by (simp add: mixed_stages_nth)
qed simp

lemma mixed_stages_next: "mixed_stages New old m op m = mixed_stages New old m (Suc op) 0"
  by (rule nth_equalityI) (auto simp: mixed_stages_nth less_Suc_eq)

lemma mixed_stages_full:
  "mixed_stages New old m (length old) k = map (\<lambda>i. map (New i) [0..<m]) [0..<length old]"
  by (rule nth_equalityI) (simp_all add: mixed_stages_nth)

lemma mixed_stages_set_at:
  assumes "op < length old" "k < m"
  shows "set_at (mixed_stages New old m op k) op k (New op k)
         = Inr (mixed_stages New old m op (Suc k))"
proof -
  let ?row = "map (\<lambda>j. if op < op \<or> (op = op \<and> j < k) then New op j else old ! op ! j) [0..<m]"
  have "(mixed_stages New old m op k)[op := ?row[k := New op k]]
        = mixed_stages New old m op (Suc k)"
  proof (rule nth_equalityI)
    fix i assume "i < length ((mixed_stages New old m op k)[op := ?row[k := New op k]])"
    then have i: "i < length old" by simp
    show "(mixed_stages New old m op k)[op := ?row[k := New op k]] ! i
          = mixed_stages New old m op (Suc k) ! i"
    proof (cases "i = op")
      case True
      have "?row[k := New op k]
            = map (\<lambda>j. if op < op \<or> (op = op \<and> j < Suc k) then New op j else old ! op ! j) [0..<m]"
        by (rule nth_equalityI) (auto simp: nth_list_update less_Suc_eq)
      then show ?thesis using True i by (simp add: mixed_stages_nth)
    next
      case False
      then show ?thesis using i by (auto simp: mixed_stages_nth)
    qed
  qed simp
  then show ?thesis
    using assms by (simp add: set_at_def get_item_def set_item_def mixed_stages_nth)
qed

lemma adv_gamma_simps:
  "adv_gamma h bth b dt time g0 0 = g0"
  "adv_gamma h bth b dt time g0 (Suc k)
   = zip_array (+) (adv_gamma h bth b dt time g0 k)
       (scale (complex_of_real (0.5 * (b ! Suc k - b ! k) * dt))
          (zip_array (+) (theta_plus_t h bth (time + b ! Suc k * dt))
             (adv_theta h bth b dt time k)))"
  by (simp_all add: adv_gamma_def adv_theta_def trap_weight_def)

lemma square_adv [simp]:
  "square n (omegas h) \<Longrightarrow> square n (adv_theta h bth b dt time k)"
  "square n g0 \<Longrightarrow> square n (adv_gamma h bth b dt time g0 k)"
  by (simp_all add: adv_theta_def adv_gamma_def square_def)

lemma tcl2_stage_step:
  assumes s: "rf_ham s = h" "rf_dt s = dt" "ode_b (rf_ode s) = b"
    and g: "gamma_n s = mixed_stages (\<lambda>i. adv_gamma h (bs ! i) b dt time (last (oldG ! i)))
                          oldG m op k"
           "gamma_n_1 s = mixed_stages (\<lambda>i. adv_theta h (bs ! i) b dt time) oldT m op k"
    and op: "op < length oldG" "op < length oldT"
    and k: "k < m" "m \<le> length b"
    and len: "length (oldG ! op) = m"
    and n: "square n (omegas h)" "square n (last (oldG ! op))"
  shows "tcl2_stage time (bs ! op) op k s
         = Inr (s\<lparr>gamma_n := mixed_stages (\<lambda>i. adv_gamma h (bs ! i) b dt time (last (oldG ! i)))
                                oldG m op (Suc k),
                  gamma_n_1 := mixed_stages (\<lambda>i. adv_theta h (bs ! i) b dt time)
                                oldT m op (Suc k)\<rparr>)"
proof -
  let ?G = "\<lambda>i. adv_gamma h (bs ! i) b dt time (last (oldG ! i))"
  let ?T = "\<lambda>i. adv_theta h (bs ! i) b dt time"
  have bk: "get_item b k = Inr (b ! k)" using k by (simp add: get_item_def)
  have sg: "set_at (mixed_stages ?G oldG m op k) op k (?G op k)
            = Inr (mixed_stages ?G oldG m op (Suc k))"
    using op(1) k(1) by (rule mixed_stages_set_at)
  have st: "set_at (mixed_stages ?T oldT m op k) op k (?T op k)
            = Inr (mixed_stages ?T oldT m op (Suc k))"
    using op(2) k(1) by (rule mixed_stages_set_at)
  have th: "theta_plus_t h (bs ! op) (time + b ! k * dt) = ?T op k"
    by (simp add: adv_theta_def)
  have row: "get_item (mixed_stages ?G oldG m op k) op
             = Inr (map (\<lambda>j. if j < k then ?G op j else oldG ! op ! j) [0..<m])"
    "get_item (mixed_stages ?T oldT m op k) op
             = Inr (map (\<lambda>j. if j < k then ?T op j else oldT ! op ! j) [0..<m])"
    using op by (simp_all add: get_item_def mixed_stages_nth)
  show ?thesis
  proof (cases k)
    case 0
    have m0: "0 < m" using k 0 by simp
    have eqG: "map (\<lambda>j. oldG ! op ! j) [0..<m] = oldG ! op"
      using len map_nth [of "oldG ! op"] by simp
    have ne: "oldG ! op \<noteq> []" using len m0 by auto
    have row0: "get_item (mixed_stages ?G oldG m op 0) op = Inr (oldG ! op)"
      using op eqG by (simp add: get_item_def mixed_stages_nth)
    have l: "get_last (oldG ! op) = Inr (?G op 0)"
      using ne by (simp add: get_last_def adv_gamma_simps)
    have b0: "get_item b 0 = Inr (b ! 0)" using bk 0 by simp
    have sg0: "set_at (mixed_stages ?G oldG m op 0) op 0 (?G op 0)
            = Inr (mixed_stages ?G oldG m op (Suc 0))"
      using sg 0 by simp
    have st0: "set_at (mixed_stages ?T oldT m op 0) op 0 (theta_plus_t h (bs ! op) (time + b ! 0 * dt))
            = Inr (mixed_stages ?T oldT m op (Suc 0))"
      using st 0 by (simp add: adv_theta_def)
    have "tcl2_stage time (bs ! op) op 0 s
         = Inr (s\<lparr>gamma_n := mixed_stages ?G oldG m op (Suc 0),
                  gamma_n_1 := mixed_stages ?T oldT m op (Suc 0)\<rparr>)"
      using g unfolding 0
      by (simp add: tcl2_stage_def s b0 row0 l sg0 st0)
    then show ?thesis unfolding 0 .
  next
    case (Suc j)
    have j: "j < k" "j < m" "j < length b" using Suc k by simp_all
    have 1: "get_item (map (\<lambda>j. if j < k then ?G op j else oldG ! op ! j) [0..<m]) j
             = Inr (?G op j)"
      "get_item (map (\<lambda>j. if j < k then ?T op j else oldT ! op ! j) [0..<m]) j
             = Inr (?T op j)"
      using j by (simp_all add: get_item_def)
    have 2: "get_item b j = Inr (b ! j)" using j by (simp add: get_item_def)
    have 3: "trapezoid (?G op j) c (?T op k) (?T op j)
             = Inr (zip_array (+) (?G op j)
                     (scale (complex_of_real c) (zip_array (+) (?T op k) (?T op j))))" for c
      by (rule trapezoid_same_shape [of n]) (use n in simp_all)
    have G: "?G op k
            = zip_array (+) (?G op j)
                (scale (complex_of_real (0.5 * (b ! k - b ! j) * dt))
                   (zip_array (+) (?T op k) (?T op j)))"
      unfolding Suc using adv_gamma_simps(2) [of h "bs ! op" b dt time "last (oldG ! op)" j]
      by (simp add: adv_theta_def)
    have km: "k - Suc 0 = j" "k \<noteq> 0" using Suc by simp_all
    have w: "0.5 * dt * (b ! k - b ! j) = 0.5 * (b ! k - b ! j) * dt" by simp
    show ?thesis
      using sg st
      by (simp only: tcl2_stage_def s g bk km row 1 2 3 th w G [symmetric]
          bind_err_Inr if_False One_nat_def)
  qed
qed

lemma td_ready_E_td [simp]: "td_ready n bs m (eng\<lparr>rf_E_td := D\<rparr>) = td_ready n bs m eng"
  by (simp add: td_ready_def)

lemma dressed_ops_E_td [simp]: "dressed_ops (eng\<lparr>rf_E_td := D\<rparr>) = dressed_ops eng"
  by (simp add: dressed_ops_def)

lemma advanced_E_td [simp]:
  "advanced_gamma_n (eng\<lparr>rf_E_td := D\<rparr>) bs time = advanced_gamma_n eng bs time"
  "advanced_gamma_n_1 (eng\<lparr>rf_E_td := D\<rparr>) bs time = advanced_gamma_n_1 eng bs time"
  by (simp_all add: advanced_gamma_n_def advanced_gamma_n_1_def)

lemma make_tcl2_operators_eq:
  assumes r: "td_ready n bs m eng"
  shows "make_tcl2_operators eng time
         = Inr (eng\<lparr>gamma_n := advanced_gamma_n eng bs time,
                    gamma_n_1 := advanced_gamma_n_1 eng bs time\<rparr>)"
proof -
  note d = td_readyD [OF r]
  let ?h = "rf_ham eng" and ?b = "ode_b (rf_ode eng)" and ?dt = "rf_dt eng"
  let ?oG = "gamma_n eng" and ?oT = "gamma_n_1 eng"
  let ?G = "\<lambda>i. adv_gamma ?h (bs ! i) ?b ?dt time (last (?oG ! i))"
  let ?T = "\<lambda>i. adv_theta ?h (bs ! i) ?b ?dt time"
  let ?st = "\<lambda>op k. eng\<lparr>gamma_n := mixed_stages ?G ?oG m op k,
                         gamma_n_1 := mixed_stages ?T ?oT m op k\<rparr>"
  have step: "tcl2_stage time (bs ! op) op k (?st op k) = Inr (?st op (Suc k))"
    if op: "op < length bs" and k: "k < m" for op k
  proof -
    have ne: "?oG ! op \<noteq> []" using d(10) [OF op] k by auto
    have "last (?oG ! op) = ?oG ! op ! (m - 1)"
      using ne d(10) [OF op] by (simp add: last_conv_nth)
    then have sq: "square n (last (?oG ! op))"
      using d(12) [OF op, of "m - 1"] k by simp
    show ?thesis
      using tcl2_stage_step [where s = "?st op k" and h = ?h and dt = ?dt and b = ?b and oldG = ?oG
          and oldT = ?oT and bs = bs and time = time and m = m and op = op and k = k and n = n]
        op k d(3,5,7,8) d(10) [OF op] sq by simp
  qed
  have inner: "for_each [0..<m] (tcl2_stage time (bs ! op) op) (?st op 0) = Inr (?st (Suc op) 0)"
    if op: "op < length bs" for op
  proof -
    have "\<exists>t. for_each [0..<m] (tcl2_stage time (bs ! op) op) (?st op 0) = Inr t \<and> t = ?st op m"
      by (rule for_each_upt_total [where I = "\<lambda>k t. t = ?st op k"])
        (use step [OF op] in auto)
    then show ?thesis by (simp add: mixed_stages_next)
  qed
  have "\<exists>t. for_each [0..<length bs] (\<lambda>op. for_each [0..<m] (tcl2_stage time (bs ! op) op))
              (?st 0 0) = Inr t \<and> t = ?st (length bs) 0"
    by (rule for_each_upt_total [where I = "\<lambda>op t. t = ?st op 0"]) (use inner in auto)
  moreover have "?st 0 0 = eng"
    using d(10,11) d(7,8) by (simp add: mixed_stages_start)
  moreover have "mixed_stages ?G ?oG m (length bs) 0 = advanced_gamma_n eng bs time"
    "mixed_stages ?T ?oT m (length bs) 0 = advanced_gamma_n_1 eng bs time"
    using mixed_stages_full [of ?G ?oG m 0] mixed_stages_full [of ?T ?oT m 0] d(4,7,8)
    by (simp_all add: advanced_gamma_n_def advanced_gamma_n_1_def)
  ultimately show ?thesis
    using d(1,4) by (simp add: make_tcl2_operators_def for_each_enumerate)
qed

lemma update_ops_eq:
  assumes r: "td_ready n bs m eng"
  shows "update_ops eng time
         = Inr (if time < markov_time (rf_options eng)
                then eng\<lparr>rf_E_td := dressed_ops eng,
                         gamma_n := advanced_gamma_n eng bs time,
                         gamma_n_1 := advanced_gamma_n_1 eng bs time\<rparr>
                else eng\<lparr>rf_E_td := dressed_ops eng\<rparr>)"
proof -
  note d = td_readyD [OF r]
  have t: "make_tcl2_operators (eng\<lparr>rf_E_td := dressed_ops eng\<rparr>) time
           = Inr (eng\<lparr>rf_E_td := dressed_ops eng, gamma_n := advanced_gamma_n eng bs time,
                    gamma_n_1 := advanced_gamma_n_1 eng bs time\<rparr>)"
    using make_tcl2_operators_eq [of n bs m "eng\<lparr>rf_E_td := dressed_ops eng\<rparr>" time] r
    by simp
  show ?thesis
    using d(2) by (simp add: update_ops_def dressing_loop [OF r] t)
qed

lemma advanced_nth:
  assumes "i < length bs" "k < ode_order (rf_ode eng)"
  shows "advanced_gamma_n eng bs time ! i ! k
         = adv_gamma (rf_ham eng) (bs ! i) (ode_b (rf_ode eng)) (rf_dt eng) time
             (last (gamma_n eng ! i)) k"
    and "advanced_gamma_n_1 eng bs time ! i ! k
         = theta_plus_t (rf_ham eng) (bs ! i) (time + ode_b (rf_ode eng) ! k * rf_dt eng)"
  using assms by (simp_all add: advanced_gamma_n_def advanced_gamma_n_1_def adv_theta_def)

lemma advanced_length:
  "length (advanced_gamma_n eng bs time) = length bs"
  "length (advanced_gamma_n_1 eng bs time) = length bs"
  "i < length bs \<Longrightarrow> length (advanced_gamma_n eng bs time ! i) = ode_order (rf_ode eng)"
  "i < length bs \<Longrightarrow> length (advanced_gamma_n_1 eng bs time ! i) = ode_order (rf_ode eng)"
  by (simp_all add: advanced_gamma_n_def advanced_gamma_n_1_def)

lemma dressed_nth:
  assumes "i < length (rf_C eng)" "j < ode_order (rf_ode eng)"
  shows "dressed_ops eng ! i ! j = zip_array (*) (gamma_n eng ! i ! j) (rf_C eng ! i)"
  using assms by (simp add: dressed_ops_def)

lemma advanced_recurrence:
  assumes "i < length bs" "0 < k" "k < ode_order (rf_ode eng)"
  shows "advanced_gamma_n eng bs time ! i ! k
         = zip_array (+) (advanced_gamma_n eng bs time ! i ! (k - 1))
             (scale (complex_of_real
                (0.5 * (ode_b (rf_ode eng) ! k - ode_b (rf_ode eng) ! (k - 1)) * rf_dt eng))
                (zip_array (+)
                   (theta_plus_t (rf_ham eng) (bs ! i) (time + ode_b (rf_ode eng) ! k * rf_dt eng))
                   (advanced_gamma_n_1 eng bs time ! i ! (k - 1))))"
proof -
  from assms(2) obtain j where j: "k = Suc j" by (cases k) simp_all
  have jm: "j < ode_order (rf_ode eng)" and sm: "Suc j < ode_order (rf_ode eng)"
    using assms(3) j by simp_all
  have a: "advanced_gamma_n eng bs time ! i ! Suc j
         = adv_gamma (rf_ham eng) (bs ! i) (ode_b (rf_ode eng)) (rf_dt eng) time
             (last (gamma_n eng ! i)) (Suc j)"
    by (rule advanced_nth(1) [OF assms(1) sm])
  show ?thesis
    unfolding j a
    using advanced_nth [OF assms(1) jm, of time]
    by (simp add: adv_gamma_simps adv_theta_def)
qed

lemma td_ready_advanced:
  assumes r: "td_ready n bs m eng"
  shows "td_ready n bs m (eng\<lparr>rf_E_td := D, gamma_n := advanced_gamma_n eng bs time,
                                gamma_n_1 := advanced_gamma_n_1 eng bs time\<rparr>)"
proof -
  note d = td_readyD [OF r]
  have sq: "square n (advanced_gamma_n eng bs time ! i ! j)
          \<and> square n (advanced_gamma_n_1 eng bs time ! i ! j)"
    if i: "i < length bs" and j: "j < m" for i j
  proof -
    have ne: "gamma_n eng ! i \<noteq> []" using d(10) [OF i] j by auto
    have "last (gamma_n eng ! i) = gamma_n eng ! i ! (m - 1)"
      using ne d(10) [OF i] by (simp add: last_conv_nth)
    then have "square n (last (gamma_n eng ! i))"
      using d(12) [OF i, of "m - 1"] j by simp
    then show ?thesis
      using i j d(3,4) by (simp add: advanced_nth)
  qed
  show ?thesis
    unfolding td_ready_def
    using d(1-9) sq by (simp add: advanced_length)
qed

lemma advanced_entries:
  assumes r: "td_ready n bs m eng" and w: "wf_array (omegas (rf_ham eng))"
    and i: "i < length bs" and k: "k < m" and a: "a < n" and c: "c < n"
  shows "entry (advanced_gamma_n_1 eng bs time ! i ! k) a c
         = exp (- \<i> * complex_of_real (entry (omegas (rf_ham eng)) a c)
                  * complex_of_real (time + ode_b (rf_ode eng) ! k * rf_dt eng))
           * bath_corr_t (bs ! i) (time + ode_b (rf_ode eng) ! k * rf_dt eng)"
    and "0 < k \<Longrightarrow> entry (advanced_gamma_n eng bs time ! i ! k) a c
         = entry (advanced_gamma_n eng bs time ! i ! (k - 1)) a c
           + complex_of_real
               (0.5 * (ode_b (rf_ode eng) ! k - ode_b (rf_ode eng) ! (k - 1)) * rf_dt eng)
             * (exp (- \<i> * complex_of_real (entry (omegas (rf_ham eng)) a c)
                       * complex_of_real (time + ode_b (rf_ode eng) ! k * rf_dt eng))
                  * bath_corr_t (bs ! i) (time + ode_b (rf_ode eng) ! k * rf_dt eng)
                + entry (advanced_gamma_n_1 eng bs time ! i ! (k - 1)) a c)"
proof -
  note d = td_readyD [OF r]
  have ac: "a < shape0 (omegas (rf_ham eng))" "c < shape1 (omegas (rf_ham eng))"
    using d(3) a c by (simp_all add: square_def)
  note th = entry_theta_plus_t [OF w ac]
  have km: "k < ode_order (rf_ode eng)" using k d(4) by simp
  show "entry (advanced_gamma_n_1 eng bs time ! i ! k) a c
         = exp (- \<i> * complex_of_real (entry (omegas (rf_ham eng)) a c)
                  * complex_of_real (time + ode_b (rf_ode eng) ! k * rf_dt eng))
           * bath_corr_t (bs ! i) (time + ode_b (rf_ode eng) ! k * rf_dt eng)"
    unfolding advanced_nth(2) [OF i km] by (rule th)
  show "entry (advanced_gamma_n eng bs time ! i ! k) a c
         = entry (advanced_gamma_n eng bs time ! i ! (k - 1)) a c
           + complex_of_real
               (0.5 * (ode_b (rf_ode eng) ! k - ode_b (rf_ode eng) ! (k - 1)) * rf_dt eng)
             * (exp (- \<i> * complex_of_real (entry (omegas (rf_ham eng)) a c)
                       * complex_of_real (time + ode_b (rf_ode eng) ! k * rf_dt eng))
                  * bath_corr_t (bs ! i) (time + ode_b (rf_ode eng) ! k * rf_dt eng)
                + entry (advanced_gamma_n_1 eng bs time ! i ! (k - 1)) a c)" if k0: "0 < k"
  proof -
    have k1: "k - 1 < m" using k by simp
    note dA = td_readyD [OF td_ready_advanced [OF r, where D = "rf_E_td eng" and time = time]]
    have sg: "square n (advanced_gamma_n eng bs time ! i ! (k - 1))"
      using dA(12) [OF i k1] by simp
    have st: "square n (theta_plus_t (rf_ham eng) (bs ! i)
                          (time + ode_b (rf_ode eng) ! k * rf_dt eng))"
      using d(3) by simp
    show ?thesis
      unfolding advanced_recurrence [OF i k0 km]
      using sg st a c th [of "bs ! i" "time + ode_b (rf_ode eng) ! k * rf_dt eng"]
      by (simp add: entry_zip_array entry_scale square_def)
  qed
qed

text \<open>
  Claim C3.  On an engine prepared for the time-dependent equation (\<open>N \<times> N\<close> operators,
  one list of \<open>order\<close> stage matrices per bath, at least \<open>order\<close> stage abscissae), every
  call \<open>update_ops(time)\<close> returns, and changes at most \<open>E\<close>, \<open>gamma_n\<close> and \<open>gamma_n_1\<close>:
  for every bath \<open>i\<close> and stage \<open>j\<close>, \<open>E[i][j]\<close> is the elementwise product of \<open>gamma_n[i][j]\<close> as
  it stood before the call and \<open>C[i]\<close>.  If \<open>time < markov_time\<close> the recurrence is advanced
  one step: stage 0 takes the previous last-stage accumulated value and
  \<open>theta_plus(time + b[0] dt)\<close>, and stage \<open>k > 0\<close> is the trapezoid update
  \<open>gamma_n[k] = gamma_n[k-1] + 0.5 (b[k] - b[k-1]) dt (theta_plus(t) + gamma_n_1[k-1])\<close>,
  \<open>gamma_n_1[k] = theta_plus(t)\<close> at \<open>t = time + b[k] dt\<close>.  Otherwise \<open>gamma_n\<close> and \<open>gamma_n_1\<close>
  are unchanged, and every later call at a time not below \<open>markov_time\<close> leaves the whole
  engine, dressed operators included, as it is.  The last conjunct states the same element
  by element, with the element \<open>[a, c]\<close> of \<open>theta_plus(t)\<close> written out as
  \<open>exp(-i omegas[a, c] t) bath_corr_t(t)\<close>.
\<close>

theorem update_ops_correct:
  assumes "td_ready n bs m eng"
  shows "\<exists>eng'. update_ops eng time = Inr eng'
     \<and> eng' = eng\<lparr>rf_E_td := rf_E_td eng', gamma_n := gamma_n eng', gamma_n_1 := gamma_n_1 eng'\<rparr>
     \<and> td_ready n bs m eng'
     \<and> length (rf_E_td eng') = length bs
     \<and> (\<forall>i<length bs. length (rf_E_td eng' ! i) = m
          \<and> (\<forall>j<m. elementwise (*) (gamma_n eng ! i ! j) (rf_C eng ! i)
                      = Inr (rf_E_td eng' ! i ! j)))
     \<and> (time < markov_time (rf_options eng) \<longrightarrow>
          (\<forall>i<length bs.
             (0 < m \<longrightarrow> gamma_n eng' ! i ! 0 = last (gamma_n eng ! i)
                \<and> gamma_n_1 eng' ! i ! 0
                    = theta_plus_t (rf_ham eng) (bs ! i) (time + ode_b (rf_ode eng) ! 0 * rf_dt eng))
           \<and> (\<forall>k. 0 < k \<and> k < m \<longrightarrow>
                gamma_n eng' ! i ! k
                = zip_array (+) (gamma_n eng' ! i ! (k - 1))
                    (scale (complex_of_real
                       (0.5 * (ode_b (rf_ode eng) ! k - ode_b (rf_ode eng) ! (k - 1)) * rf_dt eng))
                       (zip_array (+)
                          (theta_plus_t (rf_ham eng) (bs ! i)
                             (time + ode_b (rf_ode eng) ! k * rf_dt eng))
                          (gamma_n_1 eng' ! i ! (k - 1))))
              \<and> gamma_n_1 eng' ! i ! k
                = theta_plus_t (rf_ham eng) (bs ! i)
                    (time + ode_b (rf_ode eng) ! k * rf_dt eng))))
     \<and> (\<not> time < markov_time (rf_options eng) \<longrightarrow>
          gamma_n eng' = gamma_n eng \<and> gamma_n_1 eng' = gamma_n_1 eng
        \<and> (\<forall>t'. \<not> t' < markov_time (rf_options eng) \<longrightarrow> update_ops eng' t' = Inr eng'))
     \<and> (wf_array (omegas (rf_ham eng)) \<longrightarrow>
          (\<forall>i<length bs. \<forall>a<n. \<forall>c<n.
             (\<forall>t. entry (theta_plus_t (rf_ham eng) (bs ! i) t) a c
                   = exp (- \<i> * complex_of_real (entry (omegas (rf_ham eng)) a c)
                            * complex_of_real t)
                     * bath_corr_t (bs ! i) t)
           \<and> (\<forall>j<m. entry (rf_E_td eng' ! i ! j) a c
                        = entry (gamma_n eng ! i ! j) a c * entry (rf_C eng ! i) a c)
           \<and> (time < markov_time (rf_options eng) \<longrightarrow>
                (\<forall>k<m.
                   entry (gamma_n_1 eng' ! i ! k) a c
                   = exp (- \<i> * complex_of_real (entry (omegas (rf_ham eng)) a c)
                            * complex_of_real (time + ode_b (rf_ode eng) ! k * rf_dt eng))
                     * bath_corr_t (bs ! i) (time + ode_b (rf_ode eng) ! k * rf_dt eng)
                 \<and> (0 < k \<longrightarrow>
                      entry (gamma_n eng' ! i ! k) a c
                      = entry (gamma_n eng' ! i ! (k - 1)) a c
                        + complex_of_real
                            (0.5 * (ode_b (rf_ode eng) ! k - ode_b (rf_ode eng) ! (k - 1))
                               * rf_dt eng)
                          * (exp (- \<i> * complex_of_real (entry (omegas (rf_ham eng)) a c)
                                    * complex_of_real
                                        (time + ode_b (rf_ode eng) ! k * rf_dt eng))
                               * bath_corr_t (bs ! i) (time + ode_b (rf_ode eng) ! k * rf_dt eng)
                             + entry (gamma_n_1 eng' ! i ! (k - 1)) a c))))))"
proof -
  note r = assms
  note d = td_readyD [OF r]
  let ?D = "dressed_ops eng"
  let ?A = "eng\<lparr>rf_E_td := ?D, gamma_n := advanced_gamma_n eng bs time,
                 gamma_n_1 := advanced_gamma_n_1 eng bs time\<rparr>"
  let ?F = "eng\<lparr>rf_E_td := ?D\<rparr>"
  have lenD: "length ?D = length bs" "\<And>i. i < length bs \<Longrightarrow> length (?D ! i) = m"
    using d(4,6) by (simp_all add: dressed_ops_def)
  have el: "elementwise (*) (gamma_n eng ! i ! j) (rf_C eng ! i) = Inr (?D ! i ! j)"
    if "i < length bs" "j < m" for i j
    using that d(4,6) d(9) [OF that(1)] d(12) [OF that]
    by (simp add: dressed_nth elementwise_same_shape square_def)
  have th: "entry (theta_plus_t (rf_ham eng) (bs ! i) t) a c
            = exp (- \<i> * complex_of_real (entry (omegas (rf_ham eng)) a c) * complex_of_real t)
              * bath_corr_t (bs ! i) t"
    if "wf_array (omegas (rf_ham eng))" "a < n" "c < n" for i a c t
    using that d(3) by (intro entry_theta_plus_t) (simp_all add: square_def)
  have eD: "entry (?D ! i ! j) a c = entry (gamma_n eng ! i ! j) a c * entry (rf_C eng ! i) a c"
    if "i < length bs" "j < m" "a < n" "c < n" for i j a c
    using that d(4,6) d(12) [OF that(1,2)]
    by (simp add: dressed_nth entry_zip_array square_def)
  show ?thesis
  proof (cases "time < markov_time (rf_options eng)")
    case True
    have u: "update_ops eng time = Inr ?A" using update_ops_eq [OF r, of time] True by simp
    have rec: "gamma_n ?A ! i ! k
                = zip_array (+) (gamma_n ?A ! i ! (k - 1))
                    (scale (complex_of_real
                       (0.5 * (ode_b (rf_ode eng) ! k - ode_b (rf_ode eng) ! (k - 1)) * rf_dt eng))
                       (zip_array (+)
                          (theta_plus_t (rf_ham eng) (bs ! i)
                             (time + ode_b (rf_ode eng) ! k * rf_dt eng))
                          (gamma_n_1 ?A ! i ! (k - 1))))
              \<and> gamma_n_1 ?A ! i ! k
                = theta_plus_t (rf_ham eng) (bs ! i)
                    (time + ode_b (rf_ode eng) ! k * rf_dt eng)"
      if "i < length bs" "0 < k" "k < m" for i k
      using that d(4) advanced_recurrence [of i bs k eng time] advanced_nth(2) [of i bs k eng time]
      by simp
    have z: "gamma_n ?A ! i ! 0 = last (gamma_n eng ! i)
           \<and> gamma_n_1 ?A ! i ! 0
               = theta_plus_t (rf_ham eng) (bs ! i) (time + ode_b (rf_ode eng) ! 0 * rf_dt eng)"
      if "i < length bs" "0 < m" for i
      using that d(4) by (simp add: advanced_nth adv_gamma_simps)
    have en: "entry (gamma_n_1 ?A ! i ! k) a c
                   = exp (- \<i> * complex_of_real (entry (omegas (rf_ham eng)) a c)
                            * complex_of_real (time + ode_b (rf_ode eng) ! k * rf_dt eng))
                     * bath_corr_t (bs ! i) (time + ode_b (rf_ode eng) ! k * rf_dt eng)
                 \<and> (0 < k \<longrightarrow>
                      entry (gamma_n ?A ! i ! k) a c
                      = entry (gamma_n ?A ! i ! (k - 1)) a c
                        + complex_of_real
                            (0.5 * (ode_b (rf_ode eng) ! k - ode_b (rf_ode eng) ! (k - 1))
                               * rf_dt eng)
                          * (exp (- \<i> * complex_of_real (entry (omegas (rf_ham eng)) a c)
                                    * complex_of_real
                                        (time + ode_b (rf_ode eng) ! k * rf_dt eng))
                               * bath_corr_t (bs ! i) (time + ode_b (rf_ode eng) ! k * rf_dt eng)
                             + entry (gamma_n_1 ?A ! i ! (k - 1)) a c))"
      if "wf_array (omegas (rf_ham eng))" "i < length bs" "k < m" "a < n" "c < n" for i k a c
      using advanced_entries [OF r that, of time] by simp
    have last: "wf_array (omegas (rf_ham eng)) \<longrightarrow>
          (\<forall>i<length bs. \<forall>a<n. \<forall>c<n.
             (\<forall>t. entry (theta_plus_t (rf_ham eng) (bs ! i) t) a c
                   = exp (- \<i> * complex_of_real (entry (omegas (rf_ham eng)) a c)
                            * complex_of_real t)
                     * bath_corr_t (bs ! i) t)
           \<and> (\<forall>j<m. entry (rf_E_td ?A ! i ! j) a c
                        = entry (gamma_n eng ! i ! j) a c * entry (rf_C eng ! i) a c)
           \<and> (time < markov_time (rf_options eng) \<longrightarrow>
                (\<forall>k<m.
                   entry (gamma_n_1 ?A ! i ! k) a c
                   = exp (- \<i> * complex_of_real (entry (omegas (rf_ham eng)) a c)
                            * complex_of_real (time + ode_b (rf_ode eng) ! k * rf_dt eng))
                     * bath_corr_t (bs ! i) (time + ode_b (rf_ode eng) ! k * rf_dt eng)
                 \<and> (0 < k \<longrightarrow>
                      entry (gamma_n ?A ! i ! k) a c
                      = entry (gamma_n ?A ! i ! (k - 1)) a c
                        + complex_of_real
                            (0.5 * (ode_b (rf_ode eng) ! k - ode_b (rf_ode eng) ! (k - 1))
                               * rf_dt eng)
                          * (exp (- \<i> * complex_of_real (entry (omegas (rf_ham eng)) a c)
                                    * complex_of_real
                                        (time + ode_b (rf_ode eng) ! k * rf_dt eng))
                               * bath_corr_t (bs ! i) (time + ode_b (rf_ode eng) ! k * rf_dt eng)
                             + entry (gamma_n_1 ?A ! i ! (k - 1)) a c)))))"
      using th en eD by (intro impI allI conjI) simp_all
    have "td_ready n bs m ?A" using r by (rule td_ready_advanced)
    then have first: "update_ops eng time = Inr ?A
     \<and> ?A = eng\<lparr>rf_E_td := rf_E_td ?A, gamma_n := gamma_n ?A, gamma_n_1 := gamma_n_1 ?A\<rparr>
     \<and> td_ready n bs m ?A
     \<and> length (rf_E_td ?A) = length bs
     \<and> (\<forall>i<length bs. length (rf_E_td ?A ! i) = m
          \<and> (\<forall>j<m. elementwise (*) (gamma_n eng ! i ! j) (rf_C eng ! i)
                      = Inr (rf_E_td ?A ! i ! j)))
     \<and> (time < markov_time (rf_options eng) \<longrightarrow>
          (\<forall>i<length bs.
             (0 < m \<longrightarrow> gamma_n ?A ! i ! 0 = last (gamma_n eng ! i)
                \<and> gamma_n_1 ?A ! i ! 0
                    = theta_plus_t (rf_ham eng) (bs ! i) (time + ode_b (rf_ode eng) ! 0 * rf_dt eng))
           \<and> (\<forall>k. 0 < k \<and> k < m \<longrightarrow>
                gamma_n ?A ! i ! k
                = zip_array (+) (gamma_n ?A ! i ! (k - 1))
                    (scale (complex_of_real
                       (0.5 * (ode_b (rf_ode eng) ! k - ode_b (rf_ode eng) ! (k - 1)) * rf_dt eng))
                       (zip_array (+)
                          (theta_plus_t (rf_ham eng) (bs ! i)
                             (time + ode_b (rf_ode eng) ! k * rf_dt eng))
                          (gamma_n_1 ?A ! i ! (k - 1))))
              \<and> gamma_n_1 ?A ! i ! k
                = theta_plus_t (rf_ham eng) (bs ! i)
                    (time + ode_b (rf_ode eng) ! k * rf_dt eng))))
     \<and> (\<not> time < markov_time (rf_options eng) \<longrightarrow>
          gamma_n ?A = gamma_n eng \<and> gamma_n_1 ?A = gamma_n_1 eng
        \<and> (\<forall>t'. \<not> t' < markov_time (rf_options eng) \<longrightarrow> update_ops ?A t' = Inr ?A))"
      using u True lenD el rec z by simp
    show ?thesis
      using first last by (intro exI [of _ ?A]) (elim conjE, intro conjI, assumption+)
  next
    case False
    have u: "update_ops eng time = Inr ?F" using update_ops_eq [OF r, of time] False by simp
    have rF: "td_ready n bs m ?F" using r by simp
    have fr: "update_ops ?F t' = Inr ?F" if "\<not> t' < markov_time (rf_options eng)" for t'
      using update_ops_eq [OF rF, of t'] that by simp
    have last: "wf_array (omegas (rf_ham eng)) \<longrightarrow>
          (\<forall>i<length bs. \<forall>a<n. \<forall>c<n.
             (\<forall>t. entry (theta_plus_t (rf_ham eng) (bs ! i) t) a c
                   = exp (- \<i> * complex_of_real (entry (omegas (rf_ham eng)) a c)
                            * complex_of_real t)
                     * bath_corr_t (bs ! i) t)
           \<and> (\<forall>j<m. entry (rf_E_td ?F ! i ! j) a c
                        = entry (gamma_n eng ! i ! j) a c * entry (rf_C eng ! i) a c))"
      using th eD by (intro impI allI conjI) simp_all
    show ?thesis
      using u False lenD el rF fr last by (intro exI [of _ ?F]) simp
  qed
qed

lemma ex_td5_ready: "td_ready 2 [ex_bath3] 2 ex_td5"
  by (simp add: td_ready_def square_def ex_td5_def ex_td4_def ex_td0_def ex_ham4_def ex_ham1_def
        less_Suc_eq numeral_2_eq_2)

lemmas update_eval = update_ops_def make_tcl2_operators_def tcl2_stage_def ex_td0_def ex_td4_def
  ex_td5_def ex_td6_def ex_ham4_def ex_ham1_def ex_bath3_def ex_options_def get_last_def
  set_at_def append_at_def trapezoid_def theta_plus_t_def enumerate_eq_zip array_eval

lemma ex_td5_update_half: "update_ops ex_td5 (1 / 2) = Inr ex_td6"
  by (simp add: update_eval cong: bind_err_weak_cong for_each_weak_cong)

lemma ex_td5_update_1: "update_ops ex_td5 1 = Inr (ex_td5\<lparr>rf_E_td := rf_E_td ex_td6\<rparr>)"
  by (simp add: update_eval cong: bind_err_weak_cong for_each_weak_cong)

theorem update_ops_correct_witness:
  "update_ops ex_td5 (1 / 2) = Inr ex_td6
   \<and> omegas ex_ham4 = NDArray 2 2 [0, - 2, 2, 0]
   \<and> elementwise (*) (gamma_n ex_td5 ! 0 ! 1) (rf_C ex_td5 ! 0) = Inr (rf_E_td ex_td6 ! 0 ! 1)
   \<and> gamma_n ex_td6 ! 0 ! 0 = last (gamma_n ex_td5 ! 0)
   \<and> gamma_n_1 ex_td6 ! 0 ! 1 = theta_plus_t ex_ham4 ex_bath3 (3 / 2)
   \<and> gamma_n ex_td6 ! 0 ! 1
       = zip_array (+) (gamma_n ex_td6 ! 0 ! 0)
           (scale (1 / 2) (zip_array (+) (theta_plus_t ex_ham4 ex_bath3 (3 / 2))
                             (gamma_n_1 ex_td6 ! 0 ! 0)))
   \<and> entry (gamma_n_1 ex_td6 ! 0 ! 1) 0 1
       = exp (- \<i> * complex_of_real (entry (omegas ex_ham4) 0 1) * complex_of_real (3 / 2))
         * bath_corr_t ex_bath3 (3 / 2)
   \<and> entry (gamma_n_1 ex_td6 ! 0 ! 1) 0 1 = exp (3 * \<i>) * 5 / 2
   \<and> update_ops ex_td5 1 = Inr (ex_td5\<lparr>rf_E_td := rf_E_td ex_td6\<rparr>)
   \<and> update_ops (ex_td5\<lparr>rf_E_td := rf_E_td ex_td6\<rparr>) 5
       = Inr (ex_td5\<lparr>rf_E_td := rf_E_td ex_td6\<rparr>)"
proof -
  have m: "markov_time (rf_options ex_td5) = 1" "rf_ham ex_td5 = ex_ham4"
    "ode_b (rf_ode ex_td5) = [0, 1]" "rf_dt ex_td5 = 1"
    by (simp_all add: ex_td5_def ex_td4_def ex_td0_def ex_options_def)
  have w: "wf_array (omegas ex_ham4)" "omegas ex_ham4 = NDArray 2 2 [0, - 2, 2, 0]"
    by (simp_all add: ex_ham4_def ex_ham1_def wf_array_def)
  from update_ops_correct [OF ex_td5_ready, of "1 / 2"] obtain e where
    e: "update_ops ex_td5 (1 / 2) = Inr e"
    and el: "\<forall>i<length [ex_bath3]. length (rf_E_td e ! i) = 2
          \<and> (\<forall>j<2. elementwise (*) (gamma_n ex_td5 ! i ! j) (rf_C ex_td5 ! i)
                      = Inr (rf_E_td e ! i ! j))"
    and adv: "\<forall>i<length [ex_bath3].
             (0 < (2::nat) \<longrightarrow> gamma_n e ! i ! 0 = last (gamma_n ex_td5 ! i)
                \<and> gamma_n_1 e ! i ! 0
                    = theta_plus_t ex_ham4 ([ex_bath3] ! i) (1 / 2 + [0, 1] ! 0 * 1))
           \<and> (\<forall>k. 0 < k \<and> k < 2 \<longrightarrow>
                gamma_n e ! i ! k
                = zip_array (+) (gamma_n e ! i ! (k - 1))
                    (scale (complex_of_real (0.5 * ([0, 1] ! k - [0, 1] ! (k - 1)) * 1))
                       (zip_array (+)
                          (theta_plus_t ex_ham4 ([ex_bath3] ! i) (1 / 2 + [0, 1] ! k * 1))
                          (gamma_n_1 e ! i ! (k - 1))))
              \<and> gamma_n_1 e ! i ! k
                = theta_plus_t ex_ham4 ([ex_bath3] ! i) (1 / 2 + [0, 1] ! k * 1))"
    and ent: "\<forall>i<length [ex_bath3]. \<forall>a<2. \<forall>c<2. \<forall>k<2.
                   entry (gamma_n_1 e ! i ! k) a c
                   = exp (- \<i> * complex_of_real (entry (omegas ex_ham4) a c)
                            * complex_of_real (1 / 2 + [0, 1] ! k * 1))
                     * bath_corr_t ([ex_bath3] ! i) (1 / 2 + [0, 1] ! k * 1)"
    unfolding m using w(1) by auto
  have ee: "e = ex_td6" using e ex_td5_update_half by simp
  from update_ops_correct [OF ex_td5_ready, of 1] obtain f where
    f: "update_ops ex_td5 1 = Inr f"
    and fr: "\<forall>t'. \<not> t' < 1 \<longrightarrow> update_ops f t' = Inr f"
    unfolding m by auto
  have ff: "f = ex_td5\<lparr>rf_E_td := rf_E_td ex_td6\<rparr>" using f ex_td5_update_1 by simp
  have a: "elementwise (*) (gamma_n ex_td5 ! 0 ! 1) (rf_C ex_td5 ! 0) = Inr (rf_E_td ex_td6 ! 0 ! 1)"
    using el unfolding ee by simp
  have b: "gamma_n ex_td6 ! 0 ! 0 = last (gamma_n ex_td5 ! 0)"
    using adv unfolding ee by simp
  have c: "gamma_n_1 ex_td6 ! 0 ! 1 = theta_plus_t ex_ham4 ex_bath3 (3 / 2)"
    using adv [THEN spec, of 0] unfolding ee by simp
  have d: "gamma_n ex_td6 ! 0 ! 1
       = zip_array (+) (gamma_n ex_td6 ! 0 ! 0)
           (scale (1 / 2) (zip_array (+) (theta_plus_t ex_ham4 ex_bath3 (3 / 2))
                             (gamma_n_1 ex_td6 ! 0 ! 0)))"
    using adv [THEN spec, of 0] unfolding ee by simp
  have t: "entry (gamma_n_1 ex_td6 ! 0 ! 1) 0 1
       = exp (- \<i> * complex_of_real (entry (omegas ex_ham4) 0 1) * complex_of_real (3 / 2))
         * bath_corr_t ex_bath3 (3 / 2)"
    using ent [THEN spec, of 0] unfolding ee by simp
  have x: "entry (gamma_n_1 ex_td6 ! 0 ! 1) 0 1 = exp (3 * \<i>) * 5 / 2"
    by (simp add: ex_td6_def entry_def)
  have g: "update_ops (ex_td5\<lparr>rf_E_td := rf_E_td ex_td6\<rparr>) 5
       = Inr (ex_td5\<lparr>rf_E_td := rf_E_td ex_td6\<rparr>)"
    using fr [THEN spec, of 5] unfolding ff by simp
  show ?thesis using ex_td5_update_half w(2) a b c d t x ex_td5_update_1 g by blast
qed

section \<open>The time loop of solve\<close>

lemma for_each_preserves:
  assumes "\<And>x s s'. body x s = Inr s' \<Longrightarrow> f s' = f s"
    and "for_each xs body s = Inr s'"
  shows "f s' = f s"
  using assms(2)
proof (induction xs arbitrary: s)
  case Nil
  then show ?case by simp
next
  case (Cons x xs)
  then obtain s1 where 1: "body x s = Inr s1" and 2: "for_each xs body s1 = Inr s'"
    by (auto simp: bind_err_eq_Inr)
  show ?case using Cons.IH [OF 2] assms(1) [OF 1] by simp
qed

lemma static_part_simps [simp]:
  "static_part (s\<lparr>rf_C := c\<rparr>) = static_part s"
  "static_part (s\<lparr>rf_E := e\<rparr>) = static_part s"
  "static_part (s\<lparr>rf_E_td := t\<rparr>) = static_part s"
  "static_part (s\<lparr>gamma_n := g\<rparr>) = static_part s"
  "static_part (s\<lparr>gamma_n_1 := g1\<rparr>) = static_part s"
  by (simp_all add: static_part_def)

lemma static_partD:
  assumes "static_part a = static_part b"
  shows "rf_ham a = rf_ham b" "rf_ode a = rf_ode b" "rf_results a = rf_results b"
    "rf_options a = rf_options b" "time_dep a = time_dep b" "rf_dt a = rf_dt b"
    "equation_of_motion a = equation_of_motion b" "is_secular a = is_secular b"
proof -
  have "rf_ham (static_part a) = rf_ham (static_part b)"
    "rf_ode (static_part a) = rf_ode (static_part b)"
    "rf_results (static_part a) = rf_results (static_part b)"
    "rf_options (static_part a) = rf_options (static_part b)"
    "time_dep (static_part a) = time_dep (static_part b)"
    "rf_dt (static_part a) = rf_dt (static_part b)"
    "equation_of_motion (static_part a) = equation_of_motion (static_part b)"
    "is_secular (static_part a) = is_secular (static_part b)"
    using assms by simp_all
  then show "rf_ham a = rf_ham b" "rf_ode a = rf_ode b" "rf_results a = rf_results b"
    "rf_options a = rf_options b" "time_dep a = time_dep b" "rf_dt a = rf_dt b"
    "equation_of_motion a = equation_of_motion b" "is_secular a = is_secular b"
    by (simp_all add: static_part_def)
qed

lemma tcl2_stage_static:
  "tcl2_stage time bth op k s = Inr s' \<Longrightarrow> static_part s' = static_part s"
  by (auto simp: tcl2_stage_def bind_err_eq_Inr split: if_splits)

lemma setup_stage_static:
  "setup_stage bth op k s = Inr s' \<Longrightarrow> static_part s' = static_part s"
  by (auto simp: setup_stage_def bind_err_eq_Inr split: if_splits)

lemma make_tcl2_operators_static:
  assumes "make_tcl2_operators eng time = Inr s'"
  shows "static_part s' = static_part eng"
proof (cases "baths (rf_ham eng)")
  case None
  then show ?thesis using assms by (simp add: make_tcl2_operators_def)
next
  case (Some bs)
  have "for_each (enumerate 0 bs) (\<lambda>(op, bth).
          for_each [0..<ode_order (rf_ode eng)] (tcl2_stage time bth op)) eng = Inr s'"
    using assms Some by (simp add: make_tcl2_operators_def)
  then show ?thesis
  proof (rule for_each_preserves [rotated])
    fix x :: "nat \<times> bath" and s s'
    assume "(case x of (op, bth) \<Rightarrow>
               for_each [0..<ode_order (rf_ode eng)] (tcl2_stage time bth op)) s = Inr s'"
    then have "for_each [0..<ode_order (rf_ode eng)] (tcl2_stage time (snd x) (fst x)) s = Inr s'"
      by (simp add: case_prod_beta)
    then show "static_part s' = static_part s"
      by (rule for_each_preserves [rotated]) (rule tcl2_stage_static)
  qed
qed

lemma update_ops_static:
  assumes "update_ops eng time = Inr s'"
  shows "static_part s' = static_part eng"
proof (cases "nbaths (rf_ham eng)")
  case None
  then show ?thesis using assms by (simp add: update_ops_def)
next
  case (Some nb)
  let ?inner = "\<lambda>i j s'.
                   bind_err (get_item (gamma_n s') i) (\<lambda>gi.
                   bind_err (get_item gi j) (\<lambda>gij.
                   bind_err (get_item (rf_C s') i) (\<lambda>Ci.
                   bind_err (elementwise (*) gij Ci) (\<lambda>v.
                   bind_err (append_at (rf_E_td s') i v) (\<lambda>E'.
                     Inr (s'\<lparr>rf_E_td := E'\<rparr>))))))"
  let ?outer = "\<lambda>i s. bind_err (set_item (rf_E_td s) i []) (\<lambda>E0.
                 for_each [0..<ode_order (rf_ode eng)] (?inner i) (s\<lparr>rf_E_td := E0\<rparr>))"
  from assms Some obtain s1 where
    1: "for_each [0..<length (rf_C eng)] ?outer (eng\<lparr>rf_E_td := replicate nb []\<rparr>) = Inr s1"
    and 2: "(if time < markov_time (rf_options s1) then make_tcl2_operators s1 time else Inr s1)
            = Inr s'"
    by (auto simp: update_ops_def bind_err_eq_Inr)
  have inner: "static_part b = static_part a" if "?inner i j a = Inr b" for i j a b
    using that by (auto simp: bind_err_eq_Inr)
  have outer: "static_part b = static_part a" if "?outer i a = Inr b" for i a b
  proof -
    from that obtain E0 where
      "for_each [0..<ode_order (rf_ode eng)] (?inner i) (a\<lparr>rf_E_td := E0\<rparr>) = Inr b"
      by (auto simp: bind_err_eq_Inr)
    then have "static_part b = static_part (a\<lparr>rf_E_td := E0\<rparr>)"
      by (rule for_each_preserves [rotated]) (rule inner)
    then show ?thesis by simp
  qed
  have "static_part s1 = static_part (eng\<lparr>rf_E_td := replicate nb []\<rparr>)"
    using 1 by (rule for_each_preserves [rotated]) (rule outer)
  then have a: "static_part s1 = static_part eng" by simp
  show ?thesis
    using 2 a make_tcl2_operators_static [of s1 time s'] by (auto split: if_splits)
qed

lemma make_redfield_operators_static:
  assumes "make_redfield_operators eng = Inr s'"
  shows "static_part s' = static_part eng"
proof (cases "baths (rf_ham eng)")
  case None
  then show ?thesis using assms by (simp add: make_redfield_operators_def)
next
  case (Some bs)
  let ?body = "\<lambda>bth s.
            bind_err (to_eigenbasis (rf_ham eng) (c_op bth)) (\<lambda>Ga.
            bind_err (make_theta_plus (rf_ham eng) bth) (\<lambda>theta_plus.
            bind_err (elementwise (*) Ga theta_plus) (\<lambda>Ga_plus.
              Inr (s\<lparr>rf_C := rf_C s @ [Ga], rf_E := rf_E s @ [Ga_plus]\<rparr>))))"
  have body: "static_part b = static_part a" if "?body x a = Inr b" for x a b
    using that by (auto simp: bind_err_eq_Inr)
  have "for_each bs ?body (eng\<lparr>rf_C := [], rf_E := []\<rparr>) = Inr s'"
    using assms Some by (simp add: make_redfield_operators_def)
  then have "static_part s' = static_part (eng\<lparr>rf_C := [], rf_E := []\<rparr>)"
    by (rule for_each_preserves [rotated]) (rule body)
  then show ?thesis by simp
qed

lemma coupling_operators_setup_static:
  assumes "coupling_operators_setup eng = Inr s'"
  shows "static_part s' = static_part eng"
proof -
  from assms obtain nb bs where nb: "nbaths (rf_ham eng) = Some nb"
    and bs: "baths (rf_ham eng) = Some bs"
    by (auto simp: coupling_operators_setup_def split: option.splits)
  let ?first = "\<lambda>(op, bth) s.
                   bind_err (to_eigenbasis (rf_ham eng) (c_op bth)) (\<lambda>Ga.
                   bind_err (set_item (gamma_n s) op []) (\<lambda>g.
                   bind_err (set_item (gamma_n_1 s) op []) (\<lambda>g1.
                     Inr (s\<lparr>rf_C := rf_C s @ [Ga], gamma_n := g, gamma_n_1 := g1\<rparr>))))"
  let ?second = "\<lambda>(op, bth). for_each [0..<ode_order (rf_ode eng)] (setup_stage bth op)"
  from assms nb bs obtain s1 where
    1: "for_each (enumerate 0 bs) ?first
          (eng\<lparr>rf_C := [], gamma_n := replicate nb [], gamma_n_1 := replicate nb []\<rparr>) = Inr s1"
    and 2: "for_each (enumerate 0 bs) ?second s1 = Inr s'"
    by (auto simp: coupling_operators_setup_def bind_err_eq_Inr)
  have first: "static_part b = static_part a" if "?first x a = Inr b" for x a b
    using that by (cases x) (auto simp: bind_err_eq_Inr)
  have second: "static_part b = static_part a" if "?second x a = Inr b" for x a b
  proof -
    from that have "for_each [0..<ode_order (rf_ode eng)] (setup_stage (snd x) (fst x)) a = Inr b"
      by (simp add: case_prod_beta)
    then show ?thesis by (rule for_each_preserves [rotated]) (rule setup_stage_static)
  qed
  have "static_part s1
        = static_part (eng\<lparr>rf_C := [], gamma_n := replicate nb [], gamma_n_1 := replicate nb []\<rparr>)"
    using 1 by (rule for_each_preserves [rotated]) (rule first)
  moreover have "static_part s' = static_part s1"
    using 2 by (rule for_each_preserves [rotated]) (rule second)
  ultimately show ?thesis by simp
qed

lemma Redfield_setup_results:
  assumes "Redfield_setup env eng opts res = Inr e1"
  shows "samples (rf_results e1) = samples (case res of None \<Rightarrow> new_Results env | Some r \<Rightarrow> r)"
    and "every (rf_results e1) = every (case res of None \<Rightarrow> new_Results env | Some r \<Rightarrow> r)"
proof -
  let ?r0 = "case res of None \<Rightarrow> new_Results env | Some r \<Rightarrow> r"
  from assms obtain a b ode where
    a: "(case opts of
          None \<Rightarrow> Inr (eng\<lparr>rf_options := new_Options env\<rparr>)
        | Some opt \<Rightarrow>
            if opt_method opt = ''exact'' then Inl NotImplementedError
            else Inr (eng\<lparr>rf_options := opt\<rparr>)) = Inr a"
    and b: "(case res of
          None \<Rightarrow> Inr (a\<lparr>rf_results := new_Results env\<rparr>)
        | Some r \<Rightarrow>
            if map_ops r
            then (if is_md (rf_ham a)
                  then Inr (a\<lparr>rf_results := r\<lparr>map_function_set := True\<rparr>\<rparr>)
                  else Inl AssertionError)
            else Inr (a\<lparr>rf_results := r\<rparr>)) = Inr b"
    and c: "(if opt_method (rf_options b) \<noteq> ''exact''
       then (if time_dep b
             then bind_err (coupling_operators_setup (b\<lparr>rf_ode := ode\<rparr>))
                    (\<lambda>e3. Inr (e3\<lparr>equation_of_motion := Some TD_RF_EOM\<rparr>))
             else bind_err (make_redfield_operators (b\<lparr>rf_ode := ode\<rparr>))
                    (\<lambda>e3. Inr (e3\<lparr>equation_of_motion := Some RF_EOM\<rparr>)))
       else Inr (b\<lparr>rf_ode := ode\<rparr>)) = Inr e1"
    unfolding Redfield_setup_def bind_err_eq_Inr by blast
  have rb: "samples (rf_results b) = samples ?r0 \<and> every (rf_results b) = every ?r0"
    using b by (auto split: option.splits if_splits)
  have "rf_results e1 = rf_results b"
    using c coupling_operators_setup_static [THEN static_partD(3), of "b\<lparr>rf_ode := ode\<rparr>"]
      make_redfield_operators_static [THEN static_partD(3), of "b\<lparr>rf_ode := ode\<rparr>"]
    by (auto simp: bind_err_eq_Inr split: if_splits)
  then show "samples (rf_results e1) = samples ?r0" "every (rf_results e1) = every ?r0"
    using rb by simp_all
qed

text \<open>One iteration of the time loop.\<close>

lemma solve_step_Inr:
  assumes "solve_step env (i, time) (eng, hp) = Inr (eng', hp')"
  shows "rf_ham eng' = rf_ham eng" "ode_y (rf_ode eng') = ode_y (rf_ode eng)"
    "every (rf_results eng') = every (rf_results eng)"
    "\<exists>y. hp' = hp[ode_y (rf_ode eng) := y]"
    "every (rf_results eng) \<noteq> 0"
    "int i mod every (rf_results eng) \<noteq> 0 \<Longrightarrow>
       samples (rf_results eng') = samples (rf_results eng)"
    "int i mod every (rf_results eng) = 0 \<Longrightarrow>
       \<exists>st. from_eigenbasis (rf_ham eng) (hp ! ode_y (rf_ode eng)) = Inr st
          \<and> samples (rf_results eng') = samples (rf_results eng) @ [(i, time, st)]"
proof -
  from assms obtain e1 e2 t' y' where
    1: "(if time_dep eng then update_ops eng time else Inr eng) = Inr e1"
    and 2: "(if every (rf_results e1) = 0 then Inl ZeroDivisionError
         else if int i mod every (rf_results e1) = 0
         then bind_err (from_eigenbasis (rf_ham e1) (hp ! ode_y (rf_ode e1))) (\<lambda>st.
                Inr (e1\<lparr>rf_results := analyze_state (rf_results e1) i time st\<rparr>))
         else Inr e1) = Inr e2"
    and 3: "eng' = e2\<lparr>rf_ode := (rf_ode e2)\<lparr>ode_t := t'\<rparr>\<rparr>" "hp' = hp[ode_y (rf_ode e2) := y']"
    unfolding solve_step_def
    by (auto simp: bind_err_eq_Inr raise_in_def split: sum.splits prod.splits)
  have s1: "static_part e1 = static_part eng"
    using 1 update_ops_static [of eng time e1] by (auto split: if_splits)
  note d1 = static_partD [OF s1]
  have k: "every (rf_results eng) \<noteq> 0" using 2 d1(3) by (auto split: if_splits)
  show "every (rf_results eng) \<noteq> 0" by (rule k)
  have e2: "rf_ham e2 = rf_ham eng \<and> rf_ode e2 = rf_ode eng
         \<and> every (rf_results e2) = every (rf_results eng)"
    using 2 d1 by (auto simp: bind_err_eq_Inr analyze_state_def split: if_splits)
  show "rf_ham eng' = rf_ham eng" "ode_y (rf_ode eng') = ode_y (rf_ode eng)"
    "every (rf_results eng') = every (rf_results eng)"
    using e2 3 by simp_all
  show "\<exists>y. hp' = hp[ode_y (rf_ode eng) := y]" using e2 3 by auto
  show "samples (rf_results eng') = samples (rf_results eng)"
    if "int i mod every (rf_results eng) \<noteq> 0"
    using that 2 3 d1 k by (auto split: if_splits)
  show "\<exists>st. from_eigenbasis (rf_ham eng) (hp ! ode_y (rf_ode eng)) = Inr st
          \<and> samples (rf_results eng') = samples (rf_results eng) @ [(i, time, st)]"
    if "int i mod every (rf_results eng) = 0"
    using that 2 3 d1 k by (auto simp: bind_err_eq_Inr analyze_state_def split: if_splits)
qed

lemma solve_step_Inl:
  assumes "solve_step env (i, time) (eng, hp) = Inl (err, hp')"
  shows "hp' = hp"
  using assms unfolding solve_step_def
  by (auto simp: bind_err_def raise_in_def split: sum.splits prod.splits if_splits)

lemma ceil_nat_step:
  fixes m :: nat
  assumes m: "0 < m"
  shows "(Suc n + m - 1) div m = (n + m - 1) div m + (if n mod m = 0 then 1 else 0)"
proof -
  define q where "q = n div m"
  define r where "r = n mod m"
  have n: "n = r + m * q" by (simp add: q_def r_def)
  have r: "r < m" using m by (simp add: r_def)
  have up: "(n + m) div m = q + 1" using m by (simp add: q_def)
  show ?thesis
  proof (cases r)
    case 0
    obtain m' where m': "m = Suc m'" using m by (cases m) simp_all
    have "n + m - 1 = m' + m * q" unfolding n 0 by (simp add: m')
    then have "(n + m - 1) div m = m' div m + q" using m by simp
    then have "(n + m - 1) div m = q" by (simp add: m')
    then show ?thesis using up 0 by (simp add: r_def [symmetric])
  next
    case (Suc r')
    have "n + m - 1 = r' + m * (q + 1)" unfolding n Suc by simp
    then have "(n + m - 1) div m = r' div m + (q + 1)" using m by (simp only: div_mult_self2) 
    then have "(n + m - 1) div m = q + 1" using r Suc by simp
    then show ?thesis using up Suc by (simp add: r_def [symmetric])
  qed
qed

lemma length_sample_indices_nat:
  assumes "0 < m"
  shows "length (sample_indices (int m) n) = (n + m - 1) div m"
proof (induction n)
  case 0
  then show ?case using assms by (simp add: sample_indices_def)
next
  case (Suc n)
  have "int n mod int m = int (n mod m)" by (simp add: zmod_int)
  then have e: "(int n mod int m = 0) = (n mod m = 0)" by (simp only: of_nat_eq_0_iff)
  have "length (sample_indices (int m) (Suc n))
        = length (sample_indices (int m) n) + (if n mod m = 0 then 1 else 0)"
    by (simp add: sample_indices_def e)
  then show ?case
    using Suc ceil_nat_step [OF assms, of n] by (simp only:)
qed

lemma ceil_nat:
  fixes m :: nat
  assumes m: "0 < m"
  shows "\<lceil>real n / real m\<rceil> = int ((n + m - 1) div m)"
proof (rule ceiling_unique)
  let ?s = "n + m - 1"
  let ?z = "?s div m"
  have s: "?s = ?z * m + ?s mod m" by simp
  have lt: "?s mod m < m" using m by simp
  have 1: "n \<le> ?z * m" using s lt by linarith
  have 2: "?z * m < n + m" using s m by linarith
  have "real n \<le> real (?z * m)" using 1 by (simp only: of_nat_le_iff)
  then show "real n / real m \<le> real_of_int (int ?z)"
    using m by (simp add: field_simps)
  have "real (?z * m) < real (n + m)" using 2 by (simp only: of_nat_less_iff)
  then show "real_of_int (int ?z) - 1 < real n / real m"
    using m by (simp add: field_simps)
qed

lemma length_sample_indices:
  assumes "0 < k"
  shows "int (length (sample_indices k n)) = \<lceil>real n / real_of_int k\<rceil>"
proof -
  define m where "m = nat k"
  have k: "k = int m" and m: "0 < m" using assms by (simp_all add: m_def)
  show ?thesis unfolding k using length_sample_indices_nat [OF m] ceil_nat [OF m] by simp
qed

lemma for_each_prefix:
  assumes "for_each xs body s = Inr fin"
  shows "\<exists>mid. for_each (take j xs) body s = Inr mid"
proof -
  have "for_each (take j xs @ drop j xs) body s = Inr fin" using assms by simp
  then show ?thesis unfolding for_each_append by (auto simp: bind_err_eq_Inr)
qed

lemma take_Suc_enumerate:
  assumes "j < length tms"
  shows "take (Suc j) (enumerate 0 tms) = take j (enumerate 0 tms) @ [(j, tms ! j)]"
  using assms by (simp add: take_Suc_conv_app_nth nth_enumerate_eq)

lemma sample_indices_Suc:
  "sample_indices k (Suc j) = sample_indices k j @ (if int j mod k = 0 then [j] else [])"
  by (simp add: sample_indices_def)

lemma loop_samples:
  assumes run: "for_each (enumerate 0 tms) (solve_step env) (e0, h0) = Inr fin"
    and j: "j \<le> length tms"
  shows "\<exists>e h new. for_each (take j (enumerate 0 tms)) (solve_step env) (e0, h0) = Inr (e, h)
      \<and> every (rf_results e) = every (rf_results e0)
      \<and> samples (rf_results e) = samples (rf_results e0) @ new
      \<and> map fst new = sample_indices (every (rf_results e0)) j
      \<and> (\<forall>(i, t, st) \<in> set new. t = tms ! i \<and> state_before env tms (e0, h0) i = Inr st)"
  using j
proof (induction j)
  case 0
  show ?case by (simp add: sample_indices_def)
next
  case (Suc j)
  then have jl: "j < length tms" by simp
  from Suc obtain e h new where
    pre: "for_each (take j (enumerate 0 tms)) (solve_step env) (e0, h0) = Inr (e, h)"
    and ev: "every (rf_results e) = every (rf_results e0)"
    and sm: "samples (rf_results e) = samples (rf_results e0) @ new"
    and ix: "map fst new = sample_indices (every (rf_results e0)) j"
    and st: "\<forall>(i, t, st) \<in> set new. t = tms ! i \<and> state_before env tms (e0, h0) i = Inr st"
    by auto
  from for_each_prefix [OF run, of "Suc j"] obtain mid where
    "for_each (take (Suc j) (enumerate 0 tms)) (solve_step env) (e0, h0) = Inr mid" by blast
  then obtain e' h' where
    nxt: "for_each (take (Suc j) (enumerate 0 tms)) (solve_step env) (e0, h0) = Inr (e', h')"
    by (cases mid) simp
  have step: "solve_step env (j, tms ! j) (e, h) = Inr (e', h')"
    using nxt pre unfolding take_Suc_enumerate [OF jl] for_each_append by simp
  note fx = solve_step_Inr [OF step]
  show ?case
  proof (cases "int j mod every (rf_results e0) = 0")
    case True
    from fx(7) True ev obtain s where
      s: "from_eigenbasis (rf_ham e) (h ! ode_y (rf_ode e)) = Inr s"
      and s': "samples (rf_results e') = samples (rf_results e) @ [(j, tms ! j, s)]"
      by auto
    have sb: "state_before env tms (e0, h0) j = Inr s"
      by (simp add: state_before_def pre s)
    show ?thesis
      using nxt fx(3) ev sm ix st s' sb True
      by (intro exI [of _ e'] exI [of _ h'] exI [of _ "new @ [(j, tms ! j, s)]"])
         (simp add: sample_indices_Suc)
  next
    case False
    have "samples (rf_results e') = samples (rf_results e)" using fx(6) False ev by simp
    then show ?thesis
      using nxt fx(3) ev sm ix st False
      by (intro exI [of _ e'] exI [of _ h'] exI [of _ new]) (simp add: sample_indices_Suc)
  qed
qed

text \<open>
  Claim C7.  If a call \<open>solve(rho0, times, options, results)\<close> returns and the results
  object in use (the caller's, or a new one) has the stride \<open>every = k\<close> with \<open>k > 0\<close>, then
  the samples recorded by the call, appended to those already present, are exactly one
  per index \<open>i < len(times)\<close> with \<open>i mod k = 0\<close>, in ascending order, which makes
  \<open>ceil(len(times) / k)\<close> samples; the sample of index \<open>i\<close> carries the time \<open>times[i]\<close> and the
  integrator's state as it is after the iterations for the indices below \<open>i\<close> (so before
  the \<open>integrate()\<close> of index \<open>i\<close>), transformed back from the eigenbasis.  The loop starts
  from the engine left by \<open>setup\<close> and the eigenbasis transform of a copy of \<open>rho0\<close>.
\<close>

theorem solve_sampling:
  assumes "solve env eng hp rho0 tms opts res = Inr (r, eng', hp')"
    and "every (results_arg env res) = k" and "0 < k"
  shows "\<exists>e1 rho new.
       Redfield_setup env (eng\<lparr>rf_dt := tms ! 1 - tms ! 0\<rparr>) opts res = Inr e1
     \<and> to_eigenbasis (rf_ham e1) (hp ! rho0) = Inr rho
     \<and> every r = k
     \<and> samples r = samples (results_arg env res) @ new
     \<and> map fst new = sample_indices k (length tms)
     \<and> int (length new) = \<lceil>real (length tms) / real_of_int k\<rceil>
     \<and> (\<forall>(i, t, st) \<in> set new. t = tms ! i
          \<and> state_before env tms
               (e1\<lparr>rf_ode := set_y_value (rf_ode e1) (Suc (length hp)) (tms ! 0)\<rparr>,
                hp @ [hp ! rho0, rho]) i = Inr st)"
proof -
  from assms(1) obtain dt e1 rho t0 e2 where
    dt: "bind_err (get_item tms 1) (\<lambda>t1. bind_err (get_item tms 0) (\<lambda>t0. Inr (t1 - t0))) = Inr dt"
    and e1: "Redfield_setup env (eng\<lparr>rf_dt := dt\<rparr>) opts res = Inr e1"
    and rho: "to_eigenbasis (rf_ham e1) ((hp @ [hp ! rho0]) ! length hp) = Inr rho"
    and t0: "get_item tms 0 = Inr t0"
    and run: "for_each (enumerate 0 tms) (solve_step env)
                (e1\<lparr>rf_ode := set_y_value (rf_ode e1) (Suc (length hp)) t0\<rparr>,
                 hp @ [hp ! rho0, rho]) = Inr (e2, hp')"
    and r: "r = rf_results e2"
    unfolding solve_def
    by (auto simp: bind_err_eq_Inr raise_in_def split: sum.splits if_splits prod.splits)
  have dt': "dt = tms ! 1 - tms ! 0" and t0': "t0 = tms ! 0"
    using dt t0 by (auto simp: bind_err_eq_Inr get_item_def split: if_splits)
  let ?init = "(e1\<lparr>rf_ode := set_y_value (rf_ode e1) (Suc (length hp)) (tms ! 0)\<rparr>,
                hp @ [hp ! rho0, rho])"
  note rs = Redfield_setup_results [OF e1, folded results_arg_def]
  from loop_samples [OF run [unfolded t0'], of "length tms"] obtain e h new where
    fin: "for_each (take (length tms) (enumerate 0 tms)) (solve_step env) ?init = Inr (e, h)"
    and ev: "every (rf_results e) = every (rf_results e1)"
    and sm: "samples (rf_results e) = samples (rf_results e1) @ new"
    and ix: "map fst new = sample_indices (every (rf_results e1)) (length tms)"
    and st: "\<forall>(i, t, st) \<in> set new. t = tms ! i \<and> state_before env tms ?init i = Inr st"
    by auto
  have "e = e2" using fin run [unfolded t0'] by simp
  have k: "every (rf_results e1) = k" using rs(2) assms(2) by simp
  have "length new = length (sample_indices k (length tms))"
    using ix k by (metis length_map)
  then have cnt: "int (length new) = \<lceil>real (length tms) / real_of_int k\<rceil>"
    using length_sample_indices [OF assms(3), of "length tms"] by simp
  show ?thesis
    using e1 [unfolded dt'] rho ev sm ix st k cnt rs(1) r \<open>e = e2\<close>
    by (intro exI [of _ e1] exI [of _ rho] exI [of _ new]) simp
qed

lemma ex_run:
  "solve ex_env (Redfield_init ex_env ex_ham2 False False) [NDArray 2 2 [1, 0, 0, 0]] 0
     [0, 1, 2] (Some ex_options) (Some ex_results)
   = Inr (ex_results\<lparr>samples := [(0, 0, NDArray 2 2 [1, 0, 0, 0]),
                                  (2, 2, NDArray 2 2 [- 7, 0, 0, 8])]\<rparr>,
          ex_engine\<lparr>rf_results :=
                      ex_results\<lparr>samples := [(0, 0, NDArray 2 2 [1, 0, 0, 0]),
                                               (2, 2, NDArray 2 2 [- 7, 0, 0, 8])]\<rparr>,
                    rf_ode := \<lparr>ode_dt = 1, ode_order = 1, ode_b = [0], ode_y = 2, ode_t = 3\<rparr>\<rparr>,
          [NDArray 2 2 [1, 0, 0, 0], NDArray 2 2 [1, 0, 0, 0], NDArray 2 2 [12, 0, 0, - 11]])"
  by (simp add: run_eval ex_engine_def mult.left_commute [of \<i>]
      cong: bind_err_weak_cong for_each_weak_cong)

theorem solve_sampling_witness:
  "solve ex_env (Redfield_init ex_env ex_ham2 False False) [NDArray 2 2 [1, 0, 0, 0]] 0
     [0, 1, 2] (Some ex_options) (Some ex_results)
   = Inr (ex_results\<lparr>samples := [(0, 0, NDArray 2 2 [1, 0, 0, 0]),
                                  (2, 2, NDArray 2 2 [- 7, 0, 0, 8])]\<rparr>,
          ex_engine\<lparr>rf_results :=
                      ex_results\<lparr>samples := [(0, 0, NDArray 2 2 [1, 0, 0, 0]),
                                               (2, 2, NDArray 2 2 [- 7, 0, 0, 8])]\<rparr>,
                    rf_ode := \<lparr>ode_dt = 1, ode_order = 1, ode_b = [0], ode_y = 2, ode_t = 3\<rparr>\<rparr>,
          [NDArray 2 2 [1, 0, 0, 0], NDArray 2 2 [1, 0, 0, 0], NDArray 2 2 [12, 0, 0, - 11]])
   \<and> every (results_arg ex_env (Some ex_results)) = 2
   \<and> sample_indices 2 (length [0, 1, 2 :: real]) = [0, 2]
   \<and> \<lceil>real (length [0, 1, 2 :: real]) / real_of_int 2\<rceil> = 2
   \<and> state_before ex_env [0, 1, 2]
        (ex_engine\<lparr>rf_ode := set_y_value (rf_ode ex_engine) 2 0\<rparr>,
         [NDArray 2 2 [1, 0, 0, 0], NDArray 2 2 [1, 0, 0, 0], NDArray 2 2 [0, 0, 0, 1]]) 2
       = Inr (NDArray 2 2 [- 7, 0, 0, 8])"
proof -
  have k: "every (results_arg ex_env (Some ex_results)) = 2"
    by (simp add: results_arg_def ex_results_def)
  have ix: "sample_indices 2 (length [0, 1, 2 :: real]) = [0, 2]"
    by (simp add: sample_indices_def upt_conv_Cons)
  from solve_sampling [OF ex_run k] obtain e1 rho new where
    e1: "Redfield_setup ex_env
           ((Redfield_init ex_env ex_ham2 False False)\<lparr>rf_dt := [0, 1, 2] ! 1 - [0, 1, 2] ! 0\<rparr>)
           (Some ex_options) (Some ex_results) = Inr e1"
    and rho: "to_eigenbasis (rf_ham e1) ([NDArray 2 2 [1, 0, 0, 0]] ! 0) = Inr rho"
    and sm: "samples (ex_results\<lparr>samples := [(0, 0, NDArray 2 2 [1, 0, 0, 0]),
                                  (2, 2, NDArray 2 2 [- 7, 0, 0, 8])]\<rparr>)
             = samples (results_arg ex_env (Some ex_results)) @ new"
    and cnt: "int (length new) = \<lceil>real (length [0, 1, 2 :: real]) / real_of_int 2\<rceil>"
    and st: "\<forall>(i, t, st) \<in> set new. t = [0, 1, 2] ! i
          \<and> state_before ex_env [0, 1, 2]
               (e1\<lparr>rf_ode := set_y_value (rf_ode e1) (Suc (length [NDArray 2 2 [1, 0, 0, 0]]))
                                ([0, 1, 2] ! 0)\<rparr>,
                [NDArray 2 2 [1, 0, 0, 0]] @ [[NDArray 2 2 [1, 0, 0, 0]] ! 0, rho]) i = Inr st"
    by auto
  have e1': "e1 = ex_engine" using e1 ex_setup by simp
  have rho': "rho = NDArray 2 2 [0, 0, 0, 1]"
    using rho unfolding e1'
    by (simp add: to_eigenbasis_def ex_engine_def ex_ham2_def ex_ham1_def array_eval
          mult.left_commute [of \<i>])
  have new: "new = [(0, 0, NDArray 2 2 [1, 0, 0, 0]), (2, 2, NDArray 2 2 [- 7, 0, 0, 8])]"
    using sm by (simp add: results_arg_def ex_results_def)
  have c: "\<lceil>real (length [0, 1, 2 :: real]) / real_of_int 2\<rceil> = 2"
    using cnt unfolding new by simp
  have s: "state_before ex_env [0, 1, 2]
        (ex_engine\<lparr>rf_ode := set_y_value (rf_ode ex_engine) 2 0\<rparr>,
         [NDArray 2 2 [1, 0, 0, 0], NDArray 2 2 [1, 0, 0, 0], NDArray 2 2 [0, 0, 0, 1]]) 2
       = Inr (NDArray 2 2 [- 7, 0, 0, 8])"
    using st unfolding new e1' rho' by (simp add: numeral_2_eq_2)
  show ?thesis using ex_run k ix c s by blast
qed

lemma for_each_outcome:
  assumes "P s"
    and "\<And>x s s'. P s \<Longrightarrow> body x s = Inr s' \<Longrightarrow> P s'"
    and "\<And>x s e. P s \<Longrightarrow> body x s = Inl e \<Longrightarrow> Q e"
  shows "case for_each xs body s of Inl e \<Rightarrow> Q e | Inr s' \<Rightarrow> P s'"
  using assms(1)
proof (induction xs arbitrary: s)
  case Nil
  then show ?case by simp
next
  case (Cons x xs)
  show ?case
  proof (cases "body x s")
    case (Inl e)
    then show ?thesis using assms(3) [OF Cons.prems Inl] by simp
  next
    case (Inr s1)
    then show ?thesis using Cons.IH [OF assms(2) [OF Cons.prems Inr]] by simp
  qed
qed

lemma time_loop_heap:
  assumes c: "ode_y (rf_ode e0) = length base"
  shows "case for_each xs (solve_step env) (e0, base @ [y0]) of
           Inl (err, h) \<Rightarrow> \<exists>y. h = base @ [y]
         | Inr (e, h) \<Rightarrow> ode_y (rf_ode e) = length base \<and> (\<exists>y. h = base @ [y])"
proof -
  let ?P = "\<lambda>s. case s of (e, h) \<Rightarrow> ode_y (rf_ode e) = length base \<and> (\<exists>y. h = base @ [y :: complex ndarray])"
  let ?Q = "\<lambda>x. case x of (err :: error, h) \<Rightarrow> \<exists>y. h = base @ [y :: complex ndarray]"
  have "case for_each xs (solve_step env) (e0, base @ [y0]) of Inl x \<Rightarrow> ?Q x | Inr s \<Rightarrow> ?P s"
  proof (rule for_each_outcome [where P = ?P and Q = ?Q])
    show "?P (e0, base @ [y0])" using c by simp
  next
    fix x :: "nat \<times> real" and s s'
    assume P: "?P s" and b: "solve_step env x s = Inr s'"
    obtain i t where x: "x = (i, t)" by (cases x)
    obtain e h where s: "s = (e, h)" by (cases s)
    obtain e' h' where s': "s' = (e', h')" by (cases s')
    note fx = solve_step_Inr [OF b [unfolded x s s']]
    from P s obtain y where h: "h = base @ [y]" and oy: "ode_y (rf_ode e) = length base" by auto
    from fx(4) obtain y' where "h' = h[ode_y (rf_ode e) := y']" by blast
    then have "h' = base @ [y']" using h oy by simp
    then show "?P s'" using fx(2) oy s' by simp
  next
    fix x :: "nat \<times> real" and s and e :: "error \<times> heap"
    assume P: "?P s" and b: "solve_step env x s = Inl e"
    obtain i t where x: "x = (i, t)" by (cases x)
    obtain en h where s: "s = (en, h)" by (cases s)
    obtain err h' where e: "e = (err, h')" by (cases e)
    have "h' = h" using solve_step_Inl [OF b [unfolded x s e]] .
    then show "?Q e" using P s e by auto
  qed
  then show ?thesis by (auto split: sum.splits prod.splits)
qed

text \<open>
  Claim C10.  Whatever the outcome of \<open>solve(rho0, times, options, results)\<close>, returned
  or raised, the caller's array \<open>rho0\<close> and every other array that existed before the
  call are unchanged.  When the call returns, the store holds two more arrays: the copy
  of \<open>rho0\<close>, still equal to \<open>rho0\<close>, and the state of the integrator, which is the only array
  written during the time loop.
\<close>

theorem solve_keeps_rho0:
  assumes "rho0 < length hp"
  shows "heap_after (solve env eng hp rho0 tms opts res) ! rho0 = hp ! rho0
     \<and> take (length hp) (heap_after (solve env eng hp rho0 tms opts res)) = hp
     \<and> (\<forall>r e h. solve env eng hp rho0 tms opts res = Inr (r, e, h) \<longrightarrow>
          ode_y (rf_ode e) = Suc (length hp) \<and> (\<exists>y. h = hp @ [hp ! rho0, y]))"
proof -
  let ?out = "solve env eng hp rho0 tms opts res"
  have main: "(?out = Inl (err, h) \<longrightarrow> take (length hp) h = hp)
            \<and> (?out = Inr (r, e, h) \<longrightarrow>
                  ode_y (rf_ode e) = Suc (length hp) \<and> (\<exists>y. h = hp @ [hp ! rho0, y]))"
    for err h r e
  proof (cases "bind_err (get_item tms 1) (\<lambda>t1. bind_err (get_item tms 0) (\<lambda>t0. Inr (t1 - t0)))")
    case (Inl x)
    then show ?thesis by (simp add: solve_def)
  next
    case dt: (Inr dt)
    show ?thesis
    proof (cases "Redfield_setup env (eng\<lparr>rf_dt := dt\<rparr>) opts res")
      case (Inl x)
      then show ?thesis using dt by (simp add: solve_def)
    next
      case e1: (Inr e1)
      show ?thesis
      proof (cases "to_eigenbasis (rf_ham e1) (hp ! rho0)")
        case (Inl x)
        then show ?thesis using dt e1 by (auto simp: solve_def)
      next
        case rho: (Inr rho)
        show ?thesis
        proof (cases "opt_method (rf_options e1) = ''exact''")
          case True
          then show ?thesis using dt e1 rho by (auto simp: solve_def)
        next
          case False
          show ?thesis
          proof (cases "get_item tms 0")
            case (Inl x)
            then show ?thesis using dt e1 rho False by (auto simp: solve_def)
          next
            case t0: (Inr t0)
            let ?e = "e1\<lparr>rf_ode := set_y_value (rf_ode e1) (Suc (length hp)) t0\<rparr>"
            have c: "ode_y (rf_ode ?e) = length (hp @ [hp ! rho0])"
              by (simp add: set_y_value_def)
            have out: "?out = bind_err (for_each (enumerate 0 tms) (solve_step env)
                            (?e, (hp @ [hp ! rho0]) @ [rho])) (\<lambda>(e2, hp'). Inr (rf_results e2, e2, hp'))"
              using dt e1 rho False t0 by (simp add: solve_def)
            show ?thesis
              using time_loop_heap [OF c, of "enumerate 0 tms" env rho] unfolding out
              by (auto split: sum.splits prod.splits)
          qed
        qed
      qed
    qed
  qed
  have tk: "take (length hp) (heap_after ?out) = hp"
  proof (cases ?out)
    case (Inl x)
    obtain err h where x: "x = (err, h)" by (cases x)
    show ?thesis using main [of err h] Inl x by (simp add: heap_after_def)
  next
    case (Inr x)
    obtain r e h where x: "x = (r, e, h)" by (cases x)
    show ?thesis using main [where r = r and e = e and h = h] Inr x by (auto simp: heap_after_def)
  qed
  have "heap_after ?out ! rho0 = take (length hp) (heap_after ?out) ! rho0"
    using assms by simp
  then have "heap_after ?out ! rho0 = hp ! rho0" using tk by simp
  then show ?thesis using tk main by blast
qed

theorem solve_keeps_rho0_witness:
  "0 < length [NDArray 2 2 [1, 0, 0, 0 :: complex]]
   \<and> heap_after (solve ex_env (Redfield_init ex_env ex_ham2 False False)
        [NDArray 2 2 [1, 0, 0, 0]] 0 [0, 1, 2] (Some ex_options) (Some ex_results))
      = [NDArray 2 2 [1, 0, 0, 0], NDArray 2 2 [1, 0, 0, 0], NDArray 2 2 [12, 0, 0, - 11]]
   \<and> heap_after (solve ex_env (Redfield_init ex_env ex_ham2 False False)
        [NDArray 2 2 [1, 0, 0, 0]] 0 [0, 1, 2] (Some ex_options) (Some ex_results)) ! 0
      = [NDArray 2 2 [1, 0, 0, 0]] ! 0
   \<and> heap_after (solve ex_env (Redfield_init ex_env ex_ham0 False False)
        [NDArray 2 2 [1, 0, 0, 0]] 0 [0, 1] (Some ex_exact) None) ! 0
      = [NDArray 2 2 [1, 0, 0, 0]] ! 0"
proof -
  have l: "0 < length [NDArray 2 2 [1, 0, 0, 0 :: complex]]" by simp
  have h: "heap_after (solve ex_env (Redfield_init ex_env ex_ham2 False False)
        [NDArray 2 2 [1, 0, 0, 0]] 0 [0, 1, 2] (Some ex_options) (Some ex_results))
      = [NDArray 2 2 [1, 0, 0, 0], NDArray 2 2 [1, 0, 0, 0], NDArray 2 2 [12, 0, 0, - 11]]"
    unfolding ex_run by (simp add: heap_after_def)
  show ?thesis
    using l h
      solve_keeps_rho0 [OF l, of ex_env "Redfield_init ex_env ex_ham2 False False" "[0, 1, 2]"
        "Some ex_options" "Some ex_results", THEN conjunct1]
      solve_keeps_rho0 [OF l, of ex_env "Redfield_init ex_env ex_ham0 False False" "[0, 1]"
        "Some ex_exact" None, THEN conjunct1]
    by blast
qed

end
